(* ===== verification/Hamma_Prelude.thy ===== *)
theory Hamma_Prelude
  imports Main "HOL-Library.Word" "HOL-Library.Sublist"
begin

text \<open>
  Shared vocabulary of the development: the machine integers and byte strings of the program,
  its \<^verbatim>\<open>Result\<close> values as sums (the error on the left) with the \<^verbatim>\<open>?\<close> operator, the
  slice operations \<^verbatim>\<open>get(..n)\<close> and \<^verbatim>\<open>get(a..b)\<close>, the fixed-width byte encodings
  \<^verbatim>\<open>to_be_bytes\<close> and \<^verbatim>\<open>to_le_bytes\<close>, and the interface of a length-prefixed frame codec
  that the Noise framing (two bytes, big endian) and the control framing (four bytes, little
  endian) both provide.
\<close>

section \<open>Machine integers, bytes and strings\<close>

text \<open>
  A Rust \<^verbatim>\<open>String\<close> is its UTF-8 bytes, one \<^typ>\<open>char\<close> per byte. A \<^verbatim>\<open>usize\<close> is 64 bits
  wide. Node identifiers (\<^verbatim>\<open>i64\<close>) are only compared and printed, so they are integers.
\<close>

type_synonym u8 = "8 word"
type_synonym u16 = "16 word"
type_synonym u32 = "32 word"
type_synonym u64 = "64 word"
type_synonym usize = "64 word"
type_synonym i64 = int
type_synonym bytes = "u8 list"

named_theorems result_simps \<open>rules that evaluate and invert results\<close>
named_theorems codec_simps \<open>round trips and lengths of fixed-width encodings\<close>
named_theorems invariant_intros \<open>one preservation rule per operation\<close>

definition byte_of_char :: "char \<Rightarrow> u8" where
  "byte_of_char c = of_nat (of_char c)"

definition char_of_byte :: "u8 \<Rightarrow> char" where
  "char_of_byte b = char_of (unat b)"

definition as_bytes :: "string \<Rightarrow> bytes" where
  "as_bytes s = map byte_of_char s"

definition str_of_bytes :: "bytes \<Rightarrow> string" where
  "str_of_bytes bs = map char_of_byte bs"

lemma char_of_byte_of_char [simp, codec_simps]: "char_of_byte (byte_of_char c) = c"
proof -
  have "unat (of_nat (of_char c) :: u8) = of_char c mod 256"
    by (simp add: unat_of_nat)
  also have "\<dots> = of_char c"
    by (rule of_char_mod_256)
  finally show ?thesis
    by (simp add: char_of_byte_def byte_of_char_def)
qed

lemma byte_of_char_of_byte [simp, codec_simps]: "byte_of_char (char_of_byte b) = b"
proof -
  have "unat b < 256"
    using unsigned_less [of b, where 'a = nat] by simp
  then have "unat b mod 256 = unat b"
    by (rule mod_less)
  then show ?thesis
    by (simp add: char_of_byte_def byte_of_char_def of_char_of)
qed

lemma byte_of_char_inject [simp]: "byte_of_char c = byte_of_char d \<longleftrightarrow> c = d"
  by (metis char_of_byte_of_char)

lemma length_as_bytes [simp]: "length (as_bytes s) = length s"
  by (simp add: as_bytes_def)

lemma as_bytes_append [simp]: "as_bytes (s @ t) = as_bytes s @ as_bytes t"
  by (simp add: as_bytes_def)

lemma str_of_bytes_as_bytes [simp, codec_simps]: "str_of_bytes (as_bytes s) = s"
  by (induction s) (simp_all add: as_bytes_def str_of_bytes_def)

lemma as_bytes_str_of_bytes [simp, codec_simps]: "as_bytes (str_of_bytes bs) = bs"
  by (induction bs) (simp_all add: as_bytes_def str_of_bytes_def)

section \<open>Results\<close>

text \<open>\<^verbatim>\<open>Result<T, E>\<close> is \<open>'e + 'a\<close>; \<^verbatim>\<open>r?\<close> followed by the rest of the body is
  \<open>bind_r r (\<lambda>x. rest)\<close>; \<^verbatim>\<open>ok_or\<close> and \<^verbatim>\<open>map_err\<close> are as in the standard library.\<close>

type_synonym ('e, 'a) result = "'e + 'a"

definition bind_r :: "('e, 'a) result \<Rightarrow> ('a \<Rightarrow> ('e, 'b) result) \<Rightarrow> ('e, 'b) result" where
  "bind_r r f = (case r of Inl e \<Rightarrow> Inl e | Inr x \<Rightarrow> f x)"

definition ok_or :: "'a option \<Rightarrow> 'e \<Rightarrow> ('e, 'a) result" where
  "ok_or x e = (case x of None \<Rightarrow> Inl e | Some v \<Rightarrow> Inr v)"

definition map_err :: "('e \<Rightarrow> 'f) \<Rightarrow> ('e, 'a) result \<Rightarrow> ('f, 'a) result" where
  "map_err g r = (case r of Inl e \<Rightarrow> Inl (g e) | Inr x \<Rightarrow> Inr x)"

definition is_ok :: "('e, 'a) result \<Rightarrow> bool" where
  "is_ok r = (case r of Inl _ \<Rightarrow> False | Inr _ \<Rightarrow> True)"

lemma bind_r_simps [simp, result_simps]:
  "bind_r (Inl e) f = Inl e"
  "bind_r (Inr x) f = f x"
  by (simp_all add: bind_r_def)

lemma bind_r_Inr_iff [result_simps]: "bind_r r f = Inr y \<longleftrightarrow> (\<exists>x. r = Inr x \<and> f x = Inr y)"
  by (cases r) simp_all

lemma bind_r_Inl_iff [result_simps]:
  "bind_r r f = Inl e \<longleftrightarrow> r = Inl e \<or> (\<exists>x. r = Inr x \<and> f x = Inl e)"
  by (cases r) simp_all

lemma bind_r_assoc: "bind_r (bind_r r f) g = bind_r r (\<lambda>x. bind_r (f x) g)"
  by (cases r) simp_all

lemma bind_r_Inr: "bind_r r Inr = r" "bind_r (u :: ('e, unit) result) (\<lambda>_. Inr ()) = u"
  by (cases r, simp_all) (cases u, simp_all)

lemma ok_or_simps [simp, result_simps]:
  "ok_or None e = Inl e"
  "ok_or (Some x) e = Inr x"
  by (simp_all add: ok_or_def)

lemma ok_or_Inr_iff [result_simps]: "ok_or x e = Inr y \<longleftrightarrow> x = Some y"
  by (cases x) simp_all

lemma map_err_simps [simp, result_simps]:
  "map_err g (Inl e) = Inl (g e)"
  "map_err g (Inr x) = Inr x"
  by (simp_all add: map_err_def)

lemma map_err_Inr_iff [result_simps]: "map_err g r = Inr y \<longleftrightarrow> r = Inr y"
  by (cases r) simp_all

lemma is_ok_simps [simp, result_simps]:
  "\<not> is_ok (Inl e)"
  "is_ok (Inr x)"
  by (simp_all add: is_ok_def)

lemma is_ok_iff: "is_ok r \<longleftrightarrow> (\<exists>x. r = Inr x)"
  by (cases r) simp_all

text \<open>\<^verbatim>\<open>Option::is_none_or\<close> and \<^verbatim>\<open>Option::filter\<close>.\<close>

definition is_none_or :: "'a option \<Rightarrow> ('a \<Rightarrow> bool) \<Rightarrow> bool" where
  "is_none_or x P = (case x of None \<Rightarrow> True | Some v \<Rightarrow> P v)"

definition option_filter :: "('a \<Rightarrow> bool) \<Rightarrow> 'a option \<Rightarrow> 'a option" where
  "option_filter P x = (case x of None \<Rightarrow> None | Some v \<Rightarrow> if P v then Some v else None)"

lemma is_none_or_simps [simp, result_simps]:
  "is_none_or None P"
  "is_none_or (Some v) P = P v"
  by (simp_all add: is_none_or_def)

lemma option_filter_simps [simp, result_simps]:
  "option_filter P None = None"
  "option_filter P (Some v) = (if P v then Some v else None)"
  by (simp_all add: option_filter_def)

lemma option_filter_Some_iff [result_simps]: "option_filter P x = Some v \<longleftrightarrow> x = Some v \<and> P v"
  by (cases x) auto

lemma option_filter_None_iff [result_simps]: "option_filter P x = None \<longleftrightarrow> (\<forall>v. x = Some v \<longrightarrow> \<not> P v)"
  by (cases x) auto

section \<open>Slices\<close>

text \<open>\<^verbatim>\<open>s.get(..n)\<close> and \<^verbatim>\<open>s.get(a..b)\<close> are \<^verbatim>\<open>None\<close> out of range.\<close>

definition get_to :: "'a list \<Rightarrow> nat \<Rightarrow> 'a list option" where
  "get_to xs n = (if n \<le> length xs then Some (take n xs) else None)"

definition get_from :: "'a list \<Rightarrow> nat \<Rightarrow> 'a list option" where
  "get_from xs n = (if n \<le> length xs then Some (drop n xs) else None)"

definition get_range :: "'a list \<Rightarrow> nat \<Rightarrow> nat \<Rightarrow> 'a list option" where
  "get_range xs a b = (if a \<le> b \<and> b \<le> length xs then Some (take (b - a) (drop a xs)) else None)"

lemma get_to_append [simp]: "length xs = n \<Longrightarrow> get_to (xs @ ys) n = Some xs"
  by (auto simp: get_to_def)

lemma get_range_append [simp]:
  "length xs = a \<Longrightarrow> b = a + length ys \<Longrightarrow> get_range (xs @ ys @ zs) a b = Some ys"
  by (auto simp: get_range_def)

lemma get_range_append_exact [simp]:
  "length xs = a \<Longrightarrow> b = a + length ys \<Longrightarrow> get_range (xs @ ys) a b = Some ys"
  by (auto simp: get_range_def)

lemma get_to_Some_iff: "get_to xs n = Some ys \<longleftrightarrow> n \<le> length xs \<and> ys = take n xs"
  by (auto simp: get_to_def)

lemma get_from_Some_iff: "get_from xs n = Some ys \<longleftrightarrow> n \<le> length xs \<and> ys = drop n xs"
  by (auto simp: get_from_def)

section \<open>Fixed-width byte encodings\<close>

definition u16_to_be_bytes :: "u16 \<Rightarrow> bytes" where
  "u16_to_be_bytes w = [of_nat (unat w div 256), of_nat (unat w)]"

definition u16_from_be_bytes :: "u8 \<Rightarrow> u8 \<Rightarrow> u16" where
  "u16_from_be_bytes hi lo = of_nat (256 * unat hi + unat lo)"

definition u32_to_le_bytes :: "u32 \<Rightarrow> bytes" where
  "u32_to_le_bytes w =
     [of_nat (unat w), of_nat (unat w div 256), of_nat (unat w div 65536),
      of_nat (unat w div 16777216)]"

definition u32_from_le_bytes :: "u8 \<Rightarrow> u8 \<Rightarrow> u8 \<Rightarrow> u8 \<Rightarrow> u32" where
  "u32_from_le_bytes b0 b1 b2 b3 =
     of_nat (unat b0 + 256 * unat b1 + 65536 * unat b2 + 16777216 * unat b3)"

text \<open>\<^verbatim>\<open>u16::try_from\<close> and \<^verbatim>\<open>u32::try_from\<close> of a length.\<close>

definition u16_try_from :: "nat \<Rightarrow> u16 option" where
  "u16_try_from n = (if n < 65536 then Some (of_nat n) else None)"

definition u32_try_from :: "nat \<Rightarrow> u32 option" where
  "u32_try_from n = (if n < 4294967296 then Some (of_nat n) else None)"

lemma unat_u8_lt [simp]: "unat (b :: u8) < 256"
  using unsigned_less [of b] by simp

lemma unat_u16_lt [simp]: "unat (w :: u16) < 65536"
  using unsigned_less [of w] by simp

lemma unat_u32_lt [simp]: "unat (w :: u32) < 4294967296"
  using unsigned_less [of w] by simp

lemma length_u16_to_be_bytes [simp]: "length (u16_to_be_bytes w) = 2"
  by (simp add: u16_to_be_bytes_def)

lemma length_u32_to_le_bytes [simp]: "length (u32_to_le_bytes w) = 4"
  by (simp add: u32_to_le_bytes_def)

lemma unat_u8_of_nat [codec_simps]: "unat (of_nat n :: u8) = n mod 256"
  by (simp only: unat_of_nat) simp

lemma unat_u16_of_nat [codec_simps]: "n < 65536 \<Longrightarrow> unat (of_nat n :: u16) = n"
  by (simp only: unat_of_nat) simp

lemma unat_u32_of_nat [codec_simps]: "n < 4294967296 \<Longrightarrow> unat (of_nat n :: u32) = n"
  by (simp only: unat_of_nat) simp

lemma unat_u16_from_be_bytes [codec_simps]:
  "unat (u16_from_be_bytes hi lo) = 256 * unat hi + unat lo"
proof -
  have "256 * unat hi + unat lo < 65536"
    using unat_u8_lt [of hi] unat_u8_lt [of lo] by linarith
  then show ?thesis
    unfolding u16_from_be_bytes_def by (rule unat_u16_of_nat)
qed

lemma be16_split: "(n::nat) < 65536 \<Longrightarrow> 256 * (n div 256 mod 256) + n mod 256 = n"
proof -
  assume "n < 65536"
  then have "n div 256 < 256"
    by (intro less_mult_imp_div_less) simp
  then show ?thesis
    by (simp only: mod_less mult_div_mod_eq)
qed

lemma le32_split:
  "(n::nat) < 4294967296 \<Longrightarrow>
     n mod 256 + 256 * (n div 256 mod 256) + 65536 * (n div 65536 mod 256)
       + 16777216 * (n div 16777216 mod 256) = n"
proof -
  assume n: "n < 4294967296"
  define a b c where "a = n div 256" and "b = n div 65536" and "c = n div 16777216"
  have ba: "b = a div 256" and cb: "c = b div 256"
    by (simp_all add: a_def b_def c_def div_mult2_eq [symmetric])
  have "c < 256"
    unfolding c_def using n by (intro less_mult_imp_div_less) simp
  then have "c mod 256 = c"
    by (rule mod_less)
  moreover have "256 * a + n mod 256 = n" and "256 * b + a mod 256 = a" and "256 * c + b mod 256 = b"
    unfolding ba cb a_def by (simp_all only: mult_div_mod_eq)
  ultimately have "n mod 256 + 256 * (a mod 256) + 65536 * (b mod 256) + 16777216 * (c mod 256) = n"
    by linarith
  then show ?thesis
    by (simp only: a_def b_def c_def)
qed

lemma u16_be_roundtrip [codec_simps]:
  "u16_to_be_bytes w = [hi, lo] \<Longrightarrow> u16_from_be_bytes hi lo = w"
proof -
  assume "u16_to_be_bytes w = [hi, lo]"
  then have "unat hi = unat w div 256 mod 256" and "unat lo = unat w mod 256"
    unfolding u16_to_be_bytes_def by (auto simp only: list.inject unat_u8_of_nat)
  then have "unat (u16_from_be_bytes hi lo) = unat w"
    by (simp only: unat_u16_from_be_bytes be16_split [OF unat_u16_lt])
  then show ?thesis
    by (simp only: word_unat_eq_iff)
qed

lemma unat_u32_from_le_bytes [codec_simps]:
  "unat (u32_from_le_bytes b0 b1 b2 b3) =
     unat b0 + 256 * unat b1 + 65536 * unat b2 + 16777216 * unat b3"
proof -
  have "unat b0 + 256 * unat b1 + 65536 * unat b2 + 16777216 * unat b3 < 4294967296"
    using unat_u8_lt [of b0] unat_u8_lt [of b1] unat_u8_lt [of b2] unat_u8_lt [of b3]
    by linarith
  then show ?thesis
    unfolding u32_from_le_bytes_def by (rule unat_u32_of_nat)
qed

lemma u32_le_roundtrip [codec_simps]:
  "u32_to_le_bytes w = [b0, b1, b2, b3] \<Longrightarrow> u32_from_le_bytes b0 b1 b2 b3 = w"
proof -
  assume "u32_to_le_bytes w = [b0, b1, b2, b3]"
  then have b: "unat b0 = unat w mod 256" "unat b1 = unat w div 256 mod 256"
    "unat b2 = unat w div 65536 mod 256" "unat b3 = unat w div 16777216 mod 256"
    unfolding u32_to_le_bytes_def by (auto simp only: list.inject unat_u8_of_nat)
  have "unat (u32_from_le_bytes b0 b1 b2 b3) = unat w"
    by (simp only: unat_u32_from_le_bytes b le32_split [OF unat_u32_lt])
  then show ?thesis
    by (simp only: word_unat_eq_iff)
qed

lemma u16_try_from_Some_iff: "u16_try_from n = Some w \<longleftrightarrow> n = unat w"
  by (auto simp: u16_try_from_def unat_u16_of_nat)

lemma u32_try_from_Some_iff: "u32_try_from n = Some w \<longleftrightarrow> n = unat w"
  by (auto simp: u32_try_from_def unat_u32_of_nat)

section \<open>Length-prefixed frames\<close>

text \<open>
  The contract of a frame header: encoding a length gives a header of fixed width, and
  decoding it gives the length back. A frame is the header followed by the payload; a reader
  that takes the header, decodes it and takes that many bytes recovers the payload and leaves
  what follows it.
\<close>

locale length_prefix =
  fixes width :: nat
    and enc :: "nat \<Rightarrow> bytes"
    and dec :: "bytes \<Rightarrow> nat"
    and limit :: nat
  assumes enc_width: "n < limit \<Longrightarrow> length (enc n) = width"
    and dec_enc: "n < limit \<Longrightarrow> dec (enc n) = n"
    and dec_bound: "length h = width \<Longrightarrow> dec h < limit"
begin

lemma frame_header:
  assumes "length payload < limit"
  shows "take width (enc (length payload) @ payload @ rest) = enc (length payload)"
  using enc_width [OF assms] by simp

lemma frame_payload:
  assumes "length payload < limit"
  shows "get_range (enc (length payload) @ payload @ rest) width
           (width + dec (enc (length payload))) = Some payload"
  using assms by (intro get_range_append) (simp_all add: enc_width dec_enc)

lemma frame_rest:
  assumes "length payload < limit"
  shows "drop (width + dec (enc (length payload))) (enc (length payload) @ payload @ rest) = rest"
  using assms by (simp add: enc_width dec_enc)

lemma frame_unique:
  assumes "length p < limit" and "length q < limit"
    and "enc (length p) @ p @ r = enc (length q) @ q @ s"
  shows "p = q \<and> r = s"
proof -
  have e: "enc (length p) = enc (length q)"
    by (metis assms(3) frame_header [OF assms(1)] frame_header [OF assms(2)])
  then have "length p = length q"
    by (metis dec_enc assms(1,2))
  with e assms(3) show ?thesis
    by (metis append_eq_append_conv)
qed

end

definition be16_enc :: "nat \<Rightarrow> bytes" where
  "be16_enc n = u16_to_be_bytes (of_nat n)"

definition be16_dec :: "bytes \<Rightarrow> nat" where
  "be16_dec h = (case h of [hi, lo] \<Rightarrow> unat (u16_from_be_bytes hi lo) | _ \<Rightarrow> 0)"

definition le32_enc :: "nat \<Rightarrow> bytes" where
  "le32_enc n = u32_to_le_bytes (of_nat n)"

definition le32_dec :: "bytes \<Rightarrow> nat" where
  "le32_dec h = (case h of [b0, b1, b2, b3] \<Rightarrow> unat (u32_from_le_bytes b0 b1 b2 b3) | _ \<Rightarrow> 0)"

lemma be16_dec_le: "be16_dec h < 65536"
  by (simp add: be16_dec_def split: list.split)

lemma le32_dec_le: "le32_dec h < 4294967296"
  by (simp add: le32_dec_def split: list.split)

lemma be16_dec_enc: "n < 65536 \<Longrightarrow> be16_dec (be16_enc n) = n"
proof -
  assume n: "n < 65536"
  obtain hi lo where e: "u16_to_be_bytes (of_nat n) = [hi, lo]"
    unfolding u16_to_be_bytes_def by blast
  show ?thesis
    unfolding be16_enc_def be16_dec_def e
    using u16_be_roundtrip [OF e] unat_u16_of_nat [OF n] by simp
qed

lemma be16_enc_dec: "be16_enc (unat (u16_from_be_bytes hi lo)) = [hi, lo]"
proof -
  have w: "(of_nat (unat w) :: u16) = w" for w :: u16
    by simp
  have e: "be16_enc (unat w) = [of_nat (unat w div 256), of_nat (unat w)]" for w :: u16
    by (simp only: be16_enc_def u16_to_be_bytes_def w)
  have "(256 * unat hi + unat lo) div 256 = unat hi"
    by (simp add: div_mult_self4)
  moreover have "(of_nat (unat hi) :: u8) = hi"
    by simp
  moreover have "(of_nat (256 * unat hi + unat lo) :: u8) = lo"
    unfolding word_unat_eq_iff unat_u8_of_nat by simp
  ultimately show ?thesis
    by (simp only: e [of "u16_from_be_bytes hi lo", unfolded unat_u16_from_be_bytes] unat_u16_from_be_bytes)
qed

lemma le32_dec_enc: "n < 4294967296 \<Longrightarrow> le32_dec (le32_enc n) = n"
proof -
  assume n: "n < 4294967296"
  obtain b0 b1 b2 b3 where e: "u32_to_le_bytes (of_nat n) = [b0, b1, b2, b3]"
    unfolding u32_to_le_bytes_def by blast
  show ?thesis
    unfolding le32_enc_def le32_dec_def e
    using u32_le_roundtrip [OF e] unat_u32_of_nat [OF n] by simp
qed

lemma length_be16_enc [simp]: "length (be16_enc n) = 2"
  by (simp add: be16_enc_def)

lemma be16_enc_pair:
  obtains hi lo where "be16_enc n = [hi, lo]" and "n < 65536 \<Longrightarrow> unat (u16_from_be_bytes hi lo) = n"
proof -
  obtain hi lo where e: "be16_enc n = [hi, lo]"
    unfolding be16_enc_def u16_to_be_bytes_def by blast
  moreover have "unat (u16_from_be_bytes hi lo) = n" if "n < 65536"
    using be16_dec_enc [OF that] by (simp add: e be16_dec_def)
  ultimately show thesis
    by (rule that)
qed

interpretation be16: length_prefix 2 be16_enc be16_dec 65536
  by unfold_locales (simp_all only: be16_enc_def length_u16_to_be_bytes be16_dec_le
      be16_dec_enc [unfolded be16_enc_def])

interpretation le32: length_prefix 4 le32_enc le32_dec 4294967296
  by unfold_locales (simp_all only: le32_enc_def length_u32_to_le_bytes le32_dec_le
      le32_dec_enc [unfolded le32_enc_def])

section \<open>Optional lists\<close>

text \<open>\<^verbatim>\<open>v.unwrap_or_default()\<close> of an optional vector.\<close>

definition opt_list :: "'a list option \<Rightarrow> 'a list" where
  "opt_list v = (case v of None \<Rightarrow> [] | Some xs \<Rightarrow> xs)"

lemma opt_list_simps [simp]:
  "opt_list None = []"
  "opt_list (Some xs) = xs"
  by (simp_all add: opt_list_def)

end
