(* ===== verification/Async_IO.thy ===== *)
theory Async_IO
  imports Hamma_Prelude
begin

text \<open>
  Asynchronous input and output as the wire layer uses it. A computation over a mutable object of
  type \<open>'s\<close> either never completes (\<open>None\<close>, a future that pends forever) or returns a result and
  the new state; \<open>bind_io\<close> is \<^verbatim>\<open>.await?\<close> followed by the rest of the body. The byte stream is
  tokio's and rustls's: its operations are the fields of \<open>Stream_ops\<close>, an argument of every
  operation that uses them, and \<open>reliable\<close> and \<open>prompt\<close> state the documented behaviour that the
  properties rely on.
\<close>

section \<open>Computations\<close>

type_synonym ('e, 'a, 's) io = "'s \<Rightarrow> (('e, 'a) result \<times> 's) option"

definition return_io :: "'a \<Rightarrow> ('e, 'a, 's) io" where
  "return_io x s = Some (Inr x, s)"

definition fail_io :: "'e \<Rightarrow> ('e, 'a, 's) io" where
  "fail_io e s = Some (Inl e, s)"

definition bind_io :: "('e, 'a, 's) io \<Rightarrow> ('a \<Rightarrow> ('e, 'b, 's) io) \<Rightarrow> ('e, 'b, 's) io" where
  "bind_io m f s =
     (case m s of
        None \<Rightarrow> None
      | Some (Inl e, s') \<Rightarrow> Some (Inl e, s')
      | Some (Inr x, s') \<Rightarrow> f x s')"

definition lift_io :: "('e, 'a) result \<Rightarrow> ('e, 'a, 's) io" where
  "lift_io r s = Some (r, s)"

text \<open>\<^verbatim>\<open>.context(..)\<close> and \<^verbatim>\<open>.map_err(..)\<close> on an awaited result.\<close>

definition map_err_io :: "('d \<Rightarrow> 'e) \<Rightarrow> ('d, 'a, 's) io \<Rightarrow> ('e, 'a, 's) io" where
  "map_err_io g m s = map_option (\<lambda>(r, s'). (map_err g r, s')) (m s)"

lemma io_simps [simp]:
  "return_io x s = Some (Inr x, s)"
  "fail_io e s = Some (Inl e, s)"
  "lift_io r s = Some (r, s)"
  by (simp_all add: return_io_def fail_io_def lift_io_def)

lemma bind_io_eval [simp]:
  "m s = None \<Longrightarrow> bind_io m f s = None"
  "m s = Some (Inl e, s') \<Longrightarrow> bind_io m f s = Some (Inl e, s')"
  "m s = Some (Inr x, s') \<Longrightarrow> bind_io m f s = f x s'"
  by (simp_all add: bind_io_def)

lemma bind_io_Inr_iff:
  "bind_io m f s = Some (Inr y, s'') \<longleftrightarrow>
     (\<exists>x s'. m s = Some (Inr x, s') \<and> f x s' = Some (Inr y, s''))"
  by (auto simp: bind_io_def split: option.splits sum.splits)

lemma map_err_io_Inr_iff: "map_err_io g m s = Some (Inr x, s') \<longleftrightarrow> m s = Some (Inr x, s')"
  by (auto simp: map_err_io_def map_err_Inr_iff)

lemma map_err_io_None_iff: "map_err_io g m s = None \<longleftrightarrow> m s = None"
  by (simp add: map_err_io_def)

lemma map_err_io_Inl: "m s = Some (Inl e, s') \<Longrightarrow> map_err_io g m s = Some (Inl (g e), s')"
  by (simp add: map_err_io_def)

lemma map_err_io_Inr: "m s = Some (Inr x, s') \<Longrightarrow> map_err_io g m s = Some (Inr x, s')"
  by (simp add: map_err_io_def)

text \<open>Computations without an object: a future of a result.\<close>

definition bind_async :: "('e, 'a) result option \<Rightarrow> ('a \<Rightarrow> ('e, 'b) result option) \<Rightarrow> ('e, 'b) result option" where
  "bind_async fut f =
     (case fut of None \<Rightarrow> None | Some (Inl e) \<Rightarrow> Some (Inl e) | Some (Inr x) \<Rightarrow> f x)"

lemma bind_async_simps [simp]:
  "bind_async None f = None"
  "bind_async (Some (Inl e)) f = Some (Inl e)"
  "bind_async (Some (Inr x)) f = f x"
  by (simp_all add: bind_async_def)

lemma bind_async_Inr_iff:
  "bind_async fut f = Some (Inr y) \<longleftrightarrow> (\<exists>x. fut = Some (Inr x) \<and> f x = Some (Inr y))"
  by (auto simp: bind_async_def split: option.splits sum.splits)

lemma bind_async_None_iff:
  "bind_async fut f = None \<longleftrightarrow> fut = None \<or> (\<exists>x. fut = Some (Inr x) \<and> f x = None)"
  by (auto simp: bind_async_def split: option.splits sum.splits)

section \<open>The byte stream\<close>

text \<open>
  \<^verbatim>\<open>read\<close> into a buffer of length \<open>n\<close> returns the bytes it placed there; \<^verbatim>\<open>read_exact\<close> fills a
  buffer of length \<open>n\<close>; \<^verbatim>\<open>write_all\<close> writes every byte.
\<close>

record ('s, 'i) Stream_ops =
  stream_read :: "nat \<Rightarrow> ('i, bytes, 's) io"
  stream_read_exact :: "nat \<Rightarrow> ('i, bytes, 's) io"
  stream_write_all :: "bytes \<Rightarrow> ('i, unit, 's) io"

text \<open>A zero-initialised buffer of length \<open>n\<close> after \<open>bs\<close> has been written at its front.\<close>

definition buffer_fill :: "nat \<Rightarrow> bytes \<Rightarrow> bytes" where
  "buffer_fill n bs = take n bs @ replicate (n - length bs) 0"

lemma length_buffer_fill [simp]: "length (buffer_fill n bs) = n"
  by (simp add: buffer_fill_def)

lemma buffer_fill_exact [simp]: "length bs = n \<Longrightarrow> buffer_fill n bs = bs"
  by (simp add: buffer_fill_def)

text \<open>
  The stream's documented behaviour: \<open>content s\<close> is what the peer will have delivered by the time
  the stream ends. A successful read takes a prefix of it, of at most the buffer's length, and
  returns no bytes only for an empty buffer or at the end of the stream; an exact read takes as
  many bytes as were asked for; writing takes nothing off the read side.
\<close>

definition reliable :: "('s, 'i, 'x) Stream_ops_scheme \<Rightarrow> ('s \<Rightarrow> bytes) \<Rightarrow> bool" where
  "reliable ops content \<longleftrightarrow>
     (\<forall>n s bs s'. stream_read ops n s = Some (Inr bs, s') \<longrightarrow>
        content s = bs @ content s' \<and> length bs \<le> n \<and> (bs = [] \<longrightarrow> n = 0 \<or> content s = []))
     \<and> (\<forall>n s bs s'. stream_read_exact ops n s = Some (Inr bs, s') \<longrightarrow>
        content s = bs @ content s' \<and> length bs = n)
     \<and> (\<forall>out s r s'. stream_write_all ops out s = Some (r, s') \<longrightarrow> content s' = content s)"

text \<open>The stream neither stalls nor fails: every read returns, and an exact read succeeds when
  enough bytes are left.\<close>

definition prompt :: "('s, 'i, 'x) Stream_ops_scheme \<Rightarrow> ('s \<Rightarrow> bytes) \<Rightarrow> bool" where
  "prompt ops content \<longleftrightarrow>
     (\<forall>n s. \<exists>bs s'. stream_read ops n s = Some (Inr bs, s'))
     \<and> (\<forall>n s. n \<le> length (content s) \<longrightarrow> (\<exists>bs s'. stream_read_exact ops n s = Some (Inr bs, s')))"

section \<open>Sources that fill buffers\<close>

text \<open>
  The contract of an operation that fills a buffer completely: it takes exactly that many bytes
  off the front of what is available, in order. A length-prefixed frame read through it, header
  first and then the body, takes exactly the frame.
\<close>

locale byte_source =
  fixes fill :: "nat \<Rightarrow> ('e, bytes, 's) io"
    and avail :: "'s \<Rightarrow> bytes"
  assumes fill_takes: "fill n s = Some (Inr bs, s') \<Longrightarrow> avail s = bs @ avail s' \<and> length bs = n"
begin

lemma fill_frame:
  assumes "fill 3 s = Some (Inr h, s1)"
    and "fill (unat (u16_from_be_bytes (h ! 1) (h ! 2))) s1 = Some (Inr body, s2)"
  shows "avail s = h @ body @ avail s2 \<and> h = h ! 0 # be16_enc (length body)"
proof -
  have h: "avail s = h @ avail s1" "length h = 3"
    using fill_takes [OF assms(1)] by simp_all
  have b: "avail s1 = body @ avail s2" "length body = unat (u16_from_be_bytes (h ! 1) (h ! 2))"
    using fill_takes [OF assms(2)] by simp_all
  have "h = [h ! 0, h ! 1, h ! 2]"
    using h(2) by (auto simp: numeral_eq_Suc length_Suc_conv)
  with h b show ?thesis
    by (simp add: be16_enc_dec)
qed

end

text \<open>A source that never stalls or fails while enough bytes are available.\<close>

locale ready_source = byte_source +
  assumes fill_ready: "n \<le> length (avail s) \<Longrightarrow> \<exists>bs s'. fill n s = Some (Inr bs, s')"
begin

lemma fill_prefix:
  assumes "avail s = xs @ ys"
  shows "\<exists>s'. fill (length xs) s = Some (Inr xs, s') \<and> avail s' = ys"
proof -
  obtain bs s' where f: "fill (length xs) s = Some (Inr bs, s')"
    using fill_ready [of "length xs" s] assms by auto
  moreover have "avail s = bs @ avail s'" "length bs = length xs"
    using fill_takes [OF f] by simp_all
  ultimately show ?thesis
    using assms by (auto simp: append_eq_append_conv)
qed

lemma fill_frame_ready:
  assumes "avail s = t # be16_enc (length body) @ body @ rest" and "length body < 65536"
  shows "\<exists>h s1 s2. fill 3 s = Some (Inr h, s1) \<and> h ! 0 = t
    \<and> fill (unat (u16_from_be_bytes (h ! 1) (h ! 2))) s1 = Some (Inr body, s2) \<and> avail s2 = rest"
proof -
  have l: "length (t # be16_enc (length body)) = 3"
    by simp
  have "avail s = (t # be16_enc (length body)) @ (body @ rest)"
    using assms(1) by simp
  from fill_prefix [OF this] obtain s1 where
    s1: "fill 3 s = Some (Inr (t # be16_enc (length body)), s1)" "avail s1 = body @ rest"
    unfolding l by blast
  from fill_prefix [OF s1(2)] obtain s2 where
    s2: "fill (length body) s1 = Some (Inr body, s2)" "avail s2 = rest"
    by blast
  have "unat (u16_from_be_bytes (be16_enc (length body) ! 0) (be16_enc (length body) ! 1)) = length body"
    by (rule be16_enc_pair [of "length body"]) (simp add: assms(2))
  with s1 s2 show ?thesis
    by (intro exI [of _ "t # be16_enc (length body)"] exI [of _ s1] exI [of _ s2]) simp
qed

end

section \<open>A scripted stream\<close>

text \<open>
  An instance of the stream: the chunks that will still arrive. A read takes from the first
  non-empty chunk, an exact read takes across chunks, writes are dropped.
\<close>

definition script_read :: "nat \<Rightarrow> (unit, bytes, bytes list) io" where
  "script_read n s =
     (case dropWhile (\<lambda>c. c = []) s of
        [] \<Rightarrow> Some (Inr [], [])
      | c # cs \<Rightarrow> Some (Inr (take n c), drop n c # cs))"

definition script_read_exact :: "nat \<Rightarrow> (unit, bytes, bytes list) io" where
  "script_read_exact n s =
     (if n \<le> length (concat s) then Some (Inr (take n (concat s)), [drop n (concat s)])
      else Some (Inl (), s))"

definition script_ops :: "(bytes list, unit) Stream_ops" where
  "script_ops =
     \<lparr> stream_read = script_read, stream_read_exact = script_read_exact,
       stream_write_all = (\<lambda>_ s. Some (Inr (), s)) \<rparr>"

lemma concat_dropWhile_empty: "concat (dropWhile (\<lambda>c. c = []) s) = concat s"
  by (induction s) auto

lemma script_read_takes:
  assumes "script_read n s = Some (Inr bs, s')"
  shows "concat s = bs @ concat s' \<and> length bs \<le> n \<and> (bs = [] \<longrightarrow> n = 0 \<or> concat s = [])"
proof (cases "dropWhile (\<lambda>c. c = []) s")
  case Nil
  with assms show ?thesis
    using concat_dropWhile_empty [of s] by (simp add: script_read_def)
next
  case (Cons c cs)
  have "c \<noteq> []"
    using hd_dropWhile [of "\<lambda>c. c = []" s] Cons by simp
  moreover have "concat s = c @ concat cs"
    using concat_dropWhile_empty [of s] Cons by simp
  moreover have "bs = take n c" "s' = drop n c # cs"
    using assms Cons by (auto simp: script_read_def)
  ultimately show ?thesis
    by simp
qed

lemma script_reliable: "reliable script_ops concat"
  unfolding reliable_def
proof (intro conjI allI impI)
  fix n s bs s'
  assume "stream_read script_ops n s = Some (Inr bs, s')"
  then have "script_read n s = Some (Inr bs, s')"
    by (simp add: script_ops_def)
  note r = script_read_takes [OF this]
  show "concat s = bs @ concat s'" "length bs \<le> n"
    using r by blast+
  show "n = 0 \<or> concat s = []" if "bs = []"
    using r that by blast
next
  fix n s bs s'
  assume "stream_read_exact script_ops n s = Some (Inr bs, s')"
  then show "concat s = bs @ concat s'" "length bs = n"
    by (auto simp: script_ops_def script_read_exact_def split: if_splits)
qed (simp add: script_ops_def)

lemma script_prompt: "prompt script_ops concat"
  unfolding prompt_def
  by (auto simp: script_ops_def script_read_def script_read_exact_def split: list.split)

end
