(* ===== verification/Rust_Str.thy ===== *)
theory Rust_Str
  imports Hamma_Prelude
begin

text \<open>
  The operations of Rust's standard library on strings, slices and integers that the program
  calls, with their specifications: \<^verbatim>\<open>strip_prefix\<close>, \<^verbatim>\<open>split_once\<close>, \<^verbatim>\<open>rsplit_once\<close>,
  \<^verbatim>\<open>trim_end_matches\<close>, \<^verbatim>\<open>contains\<close>, \<^verbatim>\<open>lines().next()\<close>, \<^verbatim>\<open>windows(n).position(..)\<close>,
  \<^verbatim>\<open>chars().take(n)\<close>, \<^verbatim>\<open>str::from_utf8\<close>, decimal \<^verbatim>\<open>Display\<close> and \<^verbatim>\<open>FromStr\<close> of
  unsigned integers.
\<close>

section \<open>Searching and splitting\<close>

definition strip_prefix :: "string \<Rightarrow> string \<Rightarrow> string option" where
  "strip_prefix p s = (if take (length p) s = p then Some (drop (length p) s) else None)"

fun split_once :: "char \<Rightarrow> string \<Rightarrow> (string \<times> string) option" where
  "split_once c [] = None"
| "split_once c (x # xs) =
     (if x = c then Some ([], xs) else map_option (\<lambda>(a, b). (x # a, b)) (split_once c xs))"

definition rsplit_once :: "char \<Rightarrow> string \<Rightarrow> (string \<times> string) option" where
  "rsplit_once c s = map_option (\<lambda>(a, b). (rev b, rev a)) (split_once c (rev s))"

definition rfind :: "char \<Rightarrow> string \<Rightarrow> nat option" where
  "rfind c s = map_option (\<lambda>(a, b). length a) (rsplit_once c s)"

definition trim_end_matches :: "char \<Rightarrow> string \<Rightarrow> string" where
  "trim_end_matches c s = rev (dropWhile (\<lambda>x. x = c) (rev s))"

text \<open>\<^verbatim>\<open>s.windows(n).position(|w| w == sep)\<close> for a non-empty \<open>sep\<close> of length \<open>n\<close>.\<close>

fun position_window :: "'a list \<Rightarrow> 'a list \<Rightarrow> nat option" where
  "position_window sep [] = None"
| "position_window sep (x # xs) =
     (if take (length sep) (x # xs) = sep then Some 0
      else map_option Suc (position_window sep xs))"

definition str_contains :: "string \<Rightarrow> string \<Rightarrow> bool" where
  "str_contains p s = (p = [] \<or> position_window p s \<noteq> None)"

text \<open>\<^verbatim>\<open>s.lines().next().unwrap_or("")\<close>: up to the first line feed, without the carriage
  return before it; a last line with no line feed is kept as it is.\<close>

definition first_line :: "string \<Rightarrow> string" where
  "first_line s =
     (case split_once (CHR 0x0A) s of
        None \<Rightarrow> s
      | Some (l, _) \<Rightarrow> (if l \<noteq> [] \<and> last l = CHR 0x0D then butlast l else l))"

lemma strip_prefix_Some_iff: "strip_prefix p s = Some t \<longleftrightarrow> s = p @ t"
  by (auto simp: strip_prefix_def) (metis append_take_drop_id)

lemma strip_prefix_append [simp]: "strip_prefix p (p @ s) = Some s"
  by (simp add: strip_prefix_Some_iff)

lemma strip_prefix_None_iff: "strip_prefix p s = None \<longleftrightarrow> \<not> prefix p s"
  by (metis not_None_eq option.distinct(1) prefix_def strip_prefix_Some_iff)

lemma split_once_Some_iff:
  "split_once c s = Some (a, b) \<longleftrightarrow> s = a @ c # b \<and> c \<notin> set a"
proof (induction s arbitrary: a)
  case Nil
  then show ?case by simp
next
  case (Cons x xs)
  show ?case
    by (cases a) (auto simp: Cons.IH)
qed

lemma split_once_None_iff: "split_once c s = None \<longleftrightarrow> c \<notin> set s"
  by (induction s) auto

lemma rsplit_once_Some_iff:
  "rsplit_once c s = Some (a, b) \<longleftrightarrow> s = a @ c # b \<and> c \<notin> set b"
proof -
  have "rsplit_once c s = Some (a, b) \<longleftrightarrow> split_once c (rev s) = Some (rev b, rev a)"
    by (auto simp: rsplit_once_def)
  also have "\<dots> \<longleftrightarrow> rev s = rev (a @ c # b) \<and> c \<notin> set b"
    by (simp add: split_once_Some_iff)
  also have "\<dots> \<longleftrightarrow> s = a @ c # b \<and> c \<notin> set b"
    by (simp only: rev_is_rev_conv)
  finally show ?thesis .
qed

lemma rsplit_once_None_iff: "rsplit_once c s = None \<longleftrightarrow> c \<notin> set s"
  by (simp add: rsplit_once_def split_once_None_iff)

lemma rfind_Some_iff:
  "rfind c s = Some i \<longleftrightarrow> i < length s \<and> s ! i = c \<and> c \<notin> set (drop (Suc i) s)"
proof
  assume "rfind c s = Some i"
  then obtain a b where "rsplit_once c s = Some (a, b)" and i: "i = length a"
    by (auto simp: rfind_def)
  then have "s = a @ c # b" and "c \<notin> set b"
    by (simp_all add: rsplit_once_Some_iff)
  then show "i < length s \<and> s ! i = c \<and> c \<notin> set (drop (Suc i) s)"
    by (simp add: i)
next
  assume r: "i < length s \<and> s ! i = c \<and> c \<notin> set (drop (Suc i) s)"
  then have "s = take i s @ c # drop (Suc i) s"
    using id_take_nth_drop [of i s] by simp
  with r have "rsplit_once c s = Some (take i s, drop (Suc i) s)"
    by (simp add: rsplit_once_Some_iff)
  with r show "rfind c s = Some i"
    by (simp add: rfind_def)
qed

lemma rfind_None_iff: "rfind c s = None \<longleftrightarrow> c \<notin> set s"
  by (simp add: rfind_def rsplit_once_None_iff)

lemma trim_end_matches_id: "s = [] \<or> last s \<noteq> c \<Longrightarrow> trim_end_matches c s = s"
  by (cases s rule: rev_cases) (auto simp: trim_end_matches_def)

lemma trim_end_matches_snoc [simp]: "trim_end_matches c (s @ [c]) = trim_end_matches c s"
  by (simp add: trim_end_matches_def)

lemma trim_end_matches_last: "trim_end_matches c s = [] \<or> last (trim_end_matches c s) \<noteq> c"
proof (induction s rule: rev_induct)
  case Nil
  then show ?case by (simp add: trim_end_matches_def)
next
  case (snoc x xs)
  then show ?case
    by (cases "x = c") (simp_all add: trim_end_matches_def)
qed

section \<open>Window search\<close>

lemma position_window_Some_iff:
  assumes "sep \<noteq> []"
  shows "position_window sep xs = Some i \<longleftrightarrow>
    take (length sep) (drop i xs) = sep \<and> (\<forall>j<i. take (length sep) (drop j xs) \<noteq> sep)"
proof (induction xs arbitrary: i)
  case Nil
  then show ?case using assms by simp
next
  case (Cons x xs)
  show ?case
  proof (cases "take (length sep) (x # xs) = sep")
    case True
    then show ?thesis
      using assms by (cases i) auto
  next
    case False
    then show ?thesis
      by (cases i) (auto simp: Cons.IH All_less_Suc2)
  qed
qed

lemma position_window_None_iff:
  assumes "sep \<noteq> []"
  shows "position_window sep xs = None \<longleftrightarrow> (\<forall>j. take (length sep) (drop j xs) \<noteq> sep)"
proof
  assume "position_window sep xs = None"
  show "\<forall>j. take (length sep) (drop j xs) \<noteq> sep"
  proof (rule ccontr)
    assume "\<not> ?thesis"
    then obtain j where j: "take (length sep) (drop j xs) = sep"
      by blast
    define i where "i = (LEAST j. take (length sep) (drop j xs) = sep)"
    have "take (length sep) (drop i xs) = sep"
      unfolding i_def using j by (rule LeastI)
    moreover have "\<forall>j<i. take (length sep) (drop j xs) \<noteq> sep"
      unfolding i_def using not_less_Least by blast
    ultimately have "position_window sep xs = Some i"
      by (simp add: position_window_Some_iff [OF assms])
    with \<open>position_window sep xs = None\<close> show False
      by simp
  qed
next
  assume "\<forall>j. take (length sep) (drop j xs) \<noteq> sep"
  then show "position_window sep xs = None"
    using position_window_Some_iff [OF assms] by (cases "position_window sep xs") blast+
qed

lemma position_window_bound:
  assumes "sep \<noteq> []" and "position_window sep xs = Some i"
  shows "i + length sep \<le> length xs"
proof -
  have "take (length sep) (drop i xs) = sep"
    using assms by (simp add: position_window_Some_iff)
  then have "length sep \<le> length (drop i xs)"
    by (metis length_take min.cobounded1 min.commute)
  then have "length sep \<le> length xs - i"
    by simp
  moreover have "0 < length sep"
    using assms(1) by simp
  ultimately show ?thesis
    by linarith
qed

lemma position_window_split:
  assumes "sep \<noteq> []" and "position_window sep xs = Some i"
  shows "xs = take i xs @ sep @ drop (i + length sep) xs"
proof -
  have "take (length sep) (drop i xs) = sep"
    using assms by (simp add: position_window_Some_iff)
  then have "drop i xs = sep @ drop (length sep) (drop i xs)"
    by (metis append_take_drop_id)
  then show ?thesis
    by (metis append_take_drop_id drop_drop add.commute)
qed

text \<open>Appending to the buffer never moves a match that is already complete.\<close>

lemma take_drop_append_left:
  "j + n \<le> length xs \<Longrightarrow> take n (drop j (xs @ ys)) = take n (drop j xs)"
  by simp

lemma position_window_append:
  assumes "sep \<noteq> []" and "position_window sep xs = Some i"
  shows "position_window sep (xs @ ys) = Some i"
proof -
  have b: "i + length sep \<le> length xs"
    using assms by (rule position_window_bound)
  have e: "take (length sep) (drop j (xs @ ys)) = take (length sep) (drop j xs)" if "j \<le> i" for j
    using that b by (intro take_drop_append_left) simp
  show ?thesis
    unfolding position_window_Some_iff [OF assms(1)]
    using e assms(2) [unfolded position_window_Some_iff [OF assms(1)]]
    by (metis less_imp_le order_refl)
qed

lemma position_window_append_None:
  assumes "sep \<noteq> []" and "position_window sep xs = None"
    and "position_window sep (xs @ ys) = Some i"
  shows "length xs < i + length sep"
proof (rule ccontr)
  assume "\<not> ?thesis"
  then have "take (length sep) (drop i (xs @ ys)) = take (length sep) (drop i xs)"
    by (intro take_drop_append_left) simp
  moreover have "take (length sep) (drop i (xs @ ys)) = sep"
    using assms(3) unfolding position_window_Some_iff [OF assms(1)] by blast
  ultimately show False
    using assms(2) unfolding position_window_None_iff [OF assms(1)] by metis
qed

section \<open>Characters and UTF-8\<close>

definition is_continuation :: "char \<Rightarrow> bool" where
  "is_continuation c = (128 \<le> (of_char c :: nat) \<and> (of_char c :: nat) < 192)"

text \<open>\<^verbatim>\<open>s.chars().take(n)\<close>: the bytes of the first \<open>n\<close> characters.\<close>

fun take_chars :: "nat \<Rightarrow> string \<Rightarrow> string" where
  "take_chars n [] = []"
| "take_chars n (c # cs) =
     (if is_continuation c then c # take_chars n cs
      else if n = 0 then [] else c # take_chars (n - 1) cs)"

definition count_chars :: "string \<Rightarrow> nat" where
  "count_chars s = length (filter (\<lambda>c. \<not> is_continuation c) s)"

lemma count_chars_take_chars: "count_chars (take_chars n s) \<le> n"
  by (induction n s rule: take_chars.induct) (auto simp: count_chars_def)

lemma take_chars_prefix: "prefix (take_chars n s) s"
  by (induction n s rule: take_chars.induct) auto

lemma take_chars_all: "count_chars s \<le> n \<Longrightarrow> take_chars n s = s"
  by (induction n s rule: take_chars.induct) (auto simp: count_chars_def split: if_splits)

definition in_range_u8 :: "nat \<Rightarrow> nat \<Rightarrow> u8 \<Rightarrow> bool" where
  "in_range_u8 lo hi b = (lo \<le> unat b \<and> unat b \<le> hi)"

fun utf8_valid :: "bytes \<Rightarrow> bool" where
  "utf8_valid [] = True"
| "utf8_valid (b # bs) =
     (if unat b < 128 then utf8_valid bs
      else if in_range_u8 0xC2 0xDF b then
        (case bs of c1 # r \<Rightarrow> in_range_u8 0x80 0xBF c1 \<and> utf8_valid r | _ \<Rightarrow> False)
      else if in_range_u8 0xE0 0xEF b then
        (case bs of c1 # c2 # r \<Rightarrow>
           in_range_u8 (if unat b = 0xE0 then 0xA0 else 0x80)
                       (if unat b = 0xED then 0x9F else 0xBF) c1
           \<and> in_range_u8 0x80 0xBF c2 \<and> utf8_valid r
         | _ \<Rightarrow> False)
      else if in_range_u8 0xF0 0xF4 b then
        (case bs of c1 # c2 # c3 # r \<Rightarrow>
           in_range_u8 (if unat b = 0xF0 then 0x90 else 0x80)
                       (if unat b = 0xF4 then 0x8F else 0xBF) c1
           \<and> in_range_u8 0x80 0xBF c2 \<and> in_range_u8 0x80 0xBF c3 \<and> utf8_valid r
         | _ \<Rightarrow> False)
      else False)"

definition from_utf8 :: "bytes \<Rightarrow> string option" where
  "from_utf8 bs = (if utf8_valid bs then Some (str_of_bytes bs) else None)"

lemma utf8_valid_ascii: "\<forall>b\<in>set bs. unat b < 128 \<Longrightarrow> utf8_valid bs"
  by (induction bs) simp_all

section \<open>Decimal numbers\<close>

definition digit_char :: "nat \<Rightarrow> char" where
  "digit_char d = char_of (48 + d)"

definition digit_val :: "char \<Rightarrow> nat option" where
  "digit_val c =
     (if 48 \<le> (of_char c :: nat) \<and> (of_char c :: nat) \<le> 57 then Some (of_char c - 48) else None)"

fun show_nat :: "nat \<Rightarrow> string" where
  "show_nat n = (if n < 10 then [digit_char n] else show_nat (n div 10) @ [digit_char (n mod 10)])"

declare show_nat.simps [simp del]

definition show_int :: "int \<Rightarrow> string" where
  "show_int i = (if i < 0 then CHR ''-'' # show_nat (nat (- i)) else show_nat (nat i))"

text \<open>\<^verbatim>\<open>str::parse\<close> of an unsigned type with maximum \<open>m\<close>: an optional plus sign, then
  at least one decimal digit; overflow is an error.\<close>

fun parse_digits :: "nat \<Rightarrow> nat \<Rightarrow> string \<Rightarrow> nat option" where
  "parse_digits m acc [] = Some acc"
| "parse_digits m acc (c # cs) =
     (case digit_val c of
        None \<Rightarrow> None
      | Some d \<Rightarrow> if m < acc * 10 + d then None else parse_digits m (acc * 10 + d) cs)"

definition parse_unsigned :: "nat \<Rightarrow> string \<Rightarrow> nat option" where
  "parse_unsigned m s =
     (case s of
        [] \<Rightarrow> None
      | c # cs \<Rightarrow>
          if cs = [] \<and> (c = CHR ''+'' \<or> c = CHR ''-'') then None
          else if c = CHR ''+'' then parse_digits m 0 cs
          else parse_digits m 0 s)"

definition parse_u8 :: "string \<Rightarrow> nat option" where
  "parse_u8 = parse_unsigned 255"

definition parse_u16 :: "string \<Rightarrow> nat option" where
  "parse_u16 = parse_unsigned 65535"

lemma digit_val_digit_char [simp]: "d < 10 \<Longrightarrow> digit_val (digit_char d) = Some d"
  by (simp add: digit_val_def digit_char_def of_char_of)

lemma show_nat_nonempty [simp]: "show_nat n \<noteq> []"
  by (subst show_nat.simps) simp

lemma parse_digits_snoc:
  "parse_digits m acc (xs @ [c]) =
     Option.bind (parse_digits m acc xs)
       (\<lambda>a. case digit_val c of None \<Rightarrow> None
          | Some d \<Rightarrow> if m < a * 10 + d then None else Some (a * 10 + d))"
  by (induction m acc xs rule: parse_digits.induct) (auto split: option.splits)

lemma parse_digits_show_nat:
  "parse_digits m 0 (show_nat n) = (if n \<le> m then Some n else None)"
proof (induction n rule: show_nat.induct)
  case (1 n)
  show ?case
  proof (cases "n < 10")
    case True
    then show ?thesis
      by (subst show_nat.simps) simp
  next
    case False
    then have IH: "parse_digits m 0 (show_nat (n div 10)) = (if n div 10 \<le> m then Some (n div 10) else None)"
      by (rule "1")
    have e: "n div 10 * 10 + n mod 10 = n" and "n \<le> m \<Longrightarrow> n div 10 \<le> m"
      by (simp_all add: le_trans [OF div_le_dividend])
    with False IH show ?thesis
      by (subst show_nat.simps) (simp add: parse_digits_snoc e del: div_mult_mod_eq)
  qed
qed

lemma show_nat_digits: "c \<in> set (show_nat n) \<Longrightarrow> digit_val c \<noteq> None"
proof (induction n rule: show_nat.induct)
  case (1 n)
  show ?case
  proof (cases "n < 10")
    case True
    with "1.prems" show ?thesis
      by (subst (asm) show_nat.simps) auto
  next
    case False
    with "1.prems" have "c \<in> set (show_nat (n div 10)) \<or> c = digit_char (n mod 10)"
      by (subst (asm) show_nat.simps) auto
    with "1.IH" False show ?thesis
      by auto
  qed
qed

lemma digit_val_sign [simp]: "digit_val (CHR ''+'') = None" "digit_val (CHR ''-'') = None"
  by (simp_all add: digit_val_def)

lemma parse_unsigned_show_nat:
  "parse_unsigned m (show_nat n) = (if n \<le> m then Some n else None)"
proof -
  obtain c cs where s: "show_nat n = c # cs"
    by (cases "show_nat n") simp_all
  then have "digit_val c \<noteq> None"
    using show_nat_digits [of c n] by simp
  then have "c \<noteq> CHR ''+''" and "c \<noteq> CHR ''-''"
    by auto
  then have "parse_unsigned m (show_nat n) = parse_digits m 0 (show_nat n)"
    by (simp add: parse_unsigned_def s)
  then show ?thesis
    by (simp add: parse_digits_show_nat)
qed

lemma parse_digits_bound: "parse_digits m acc s = Some n \<Longrightarrow> acc \<le> m \<Longrightarrow> n \<le> m"
  by (induction m acc s rule: parse_digits.induct) (auto split: option.splits if_splits)

lemma parse_unsigned_bound: "parse_unsigned m s = Some n \<Longrightarrow> n \<le> m"
  by (auto simp: parse_unsigned_def simp del: parse_digits.simps
      split: list.splits if_splits dest: parse_digits_bound)

lemma parse_digits_chars: "parse_digits m acc s = Some n \<Longrightarrow> c \<in> set s \<Longrightarrow> digit_val c \<noteq> None"
  by (induction m acc s rule: parse_digits.induct) (auto split: option.splits if_splits)

lemma parse_unsigned_chars:
  "parse_unsigned m s = Some n \<Longrightarrow> c \<in> set s \<Longrightarrow> digit_val c \<noteq> None \<or> c = CHR ''+''"
  by (auto simp: parse_unsigned_def simp del: parse_digits.simps
      split: list.splits if_splits dest: parse_digits_chars)

end
