(* ===== verification/Keys.thy ===== *)
theory Keys
  imports Rust_Str
begin

unbundle bit_operations_syntax

text \<open>
  The typed key wrappers of \<^verbatim>\<open>crates/mitos/src/keys.rs\<close>. The macro \<^verbatim>\<open>key_pair!\<close> is expanded
  three times (machine, node, disco); here each expansion is a pair of newtypes over the 32 raw
  bytes with its own \<^verbatim>\<open>to_hex\<close> and \<^verbatim>\<open>from_hex\<close>, all built on the shared hex helpers. The
  locale \<open>prefixed_key\<close> is the macro's contract; the three interpretations below discharge it.
  The Curve25519 base-point multiplication of \<^verbatim>\<open>x25519_dalek\<close> and the random source are
  arguments.
\<close>

section \<open>Errors\<close>

datatype KeyError =
    MissingPrefix string string
  | OddHexLength nat
  | InvalidHexDigit char nat
  | WrongLength nat nat

definition MAX_REPORTED_INPUT :: nat where
  "MAX_REPORTED_INPUT = 80"

definition truncate_for_report :: "string \<Rightarrow> string" where
  "truncate_for_report s = take_chars MAX_REPORTED_INPUT s"

definition KEY_LEN :: nat where
  "KEY_LEN = 32"

section \<open>Hex\<close>

definition HEX_DIGITS :: string where
  "HEX_DIGITS = ''0123456789abcdef''"

definition hex_digit :: "nat \<Rightarrow> char" where
  "hex_digit n = (if n < length HEX_DIGITS then HEX_DIGITS ! n else CHR ''0'')"

fun hex_encode :: "bytes \<Rightarrow> string" where
  "hex_encode [] = []"
| "hex_encode (b # bs) =
     hex_digit (unat (drop_bit 4 b)) # hex_digit (unat (b AND 0x0f)) # hex_encode bs"

definition hex_nibble :: "u8 \<Rightarrow> nat \<Rightarrow> (KeyError, u8) result" where
  "hex_nibble b offset =
     (if 48 \<le> b \<and> b \<le> 57 then Inr (b - 48)
      else if 97 \<le> b \<and> b \<le> 102 then Inr (b - 97 + 10)
      else if 65 \<le> b \<and> b \<le> 70 then Inr (b - 65 + 10)
      else Inl (InvalidHexDigit (char_of_byte b) offset))"

text \<open>The decode loop over the byte pairs, \<open>i\<close> being the loop index.\<close>

fun hex_pairs :: "nat \<Rightarrow> bytes \<Rightarrow> (KeyError, bytes) result" where
  "hex_pairs i (h # l # rest) =
     bind_r (hex_nibble h (i * 2)) (\<lambda>hi.
     bind_r (hex_nibble l (i * 2 + 1)) (\<lambda>lo.
     bind_r (hex_pairs (i + 1) rest) (\<lambda>out.
     Inr ((push_bit 4 hi OR lo) # out))))"
| "hex_pairs i _ = Inr []"

definition hex_decode_exact :: "nat \<Rightarrow> string \<Rightarrow> (KeyError, bytes) result" where
  "hex_decode_exact n s =
     (if odd (length (as_bytes s)) then Inl (OddHexLength (length s))
      else if length (as_bytes s) div 2 \<noteq> n then Inl (WrongLength n (length (as_bytes s) div 2))
      else hex_pairs 0 (as_bytes s))"

section \<open>The key pairs\<close>

text \<open>The bodies of the macro, over the prefix and the newtype's constructor.\<close>

definition key_to_hex :: "string \<Rightarrow> bytes \<Rightarrow> string" where
  "key_to_hex pre bs = pre @ hex_encode bs"

definition key_from_hex :: "string \<Rightarrow> (bytes \<Rightarrow> 'k) \<Rightarrow> string \<Rightarrow> (KeyError, 'k) result" where
  "key_from_hex pre mk s =
     bind_r (ok_or (strip_prefix pre s) (MissingPrefix pre (truncate_for_report s))) (\<lambda>hex.
     bind_r (hex_decode_exact KEY_LEN hex) (\<lambda>bs. Inr (mk bs)))"

datatype MachinePrivate = MachinePrivate (machine_private_bytes: bytes)
datatype MachinePublic = MachinePublic (machine_public_bytes: bytes)
datatype NodePrivate = NodePrivate (node_private_bytes: bytes)
datatype NodePublic = NodePublic (node_public_bytes: bytes)
datatype DiscoPrivate = DiscoPrivate (disco_private_bytes: bytes)
datatype DiscoPublic = DiscoPublic (disco_public_bytes: bytes)

definition MachinePrivate_to_hex :: "MachinePrivate \<Rightarrow> string" where
  "MachinePrivate_to_hex k = key_to_hex ''privkey:'' (machine_private_bytes k)"

definition NodePrivate_to_hex :: "NodePrivate \<Rightarrow> string" where
  "NodePrivate_to_hex k = key_to_hex ''privkey:'' (node_private_bytes k)"

definition DiscoPrivate_to_hex :: "DiscoPrivate \<Rightarrow> string" where
  "DiscoPrivate_to_hex k = key_to_hex ''privkey:'' (disco_private_bytes k)"

definition MachinePublic_to_hex :: "MachinePublic \<Rightarrow> string" where
  "MachinePublic_to_hex k = key_to_hex ''mkey:'' (machine_public_bytes k)"

definition NodePublic_to_hex :: "NodePublic \<Rightarrow> string" where
  "NodePublic_to_hex k = key_to_hex ''nodekey:'' (node_public_bytes k)"

definition DiscoPublic_to_hex :: "DiscoPublic \<Rightarrow> string" where
  "DiscoPublic_to_hex k = key_to_hex ''discokey:'' (disco_public_bytes k)"

definition MachinePublic_from_hex :: "string \<Rightarrow> (KeyError, MachinePublic) result" where
  "MachinePublic_from_hex = key_from_hex ''mkey:'' MachinePublic"

definition NodePublic_from_hex :: "string \<Rightarrow> (KeyError, NodePublic) result" where
  "NodePublic_from_hex = key_from_hex ''nodekey:'' NodePublic"

definition DiscoPublic_from_hex :: "string \<Rightarrow> (KeyError, DiscoPublic) result" where
  "DiscoPublic_from_hex = key_from_hex ''discokey:'' DiscoPublic"

text \<open>\<^verbatim>\<open>public_key\<close>: \<open>base_mult\<close> is \<^verbatim>\<open>PublicKey::from(&StaticSecret)\<close>.\<close>

definition MachinePrivate_public_key :: "(bytes \<Rightarrow> bytes) \<Rightarrow> MachinePrivate \<Rightarrow> MachinePublic" where
  "MachinePrivate_public_key base_mult k = MachinePublic (base_mult (machine_private_bytes k))"

definition NodePrivate_public_key :: "(bytes \<Rightarrow> bytes) \<Rightarrow> NodePrivate \<Rightarrow> NodePublic" where
  "NodePrivate_public_key base_mult k = NodePublic (base_mult (node_private_bytes k))"

definition DiscoPrivate_public_key :: "(bytes \<Rightarrow> bytes) \<Rightarrow> DiscoPrivate \<Rightarrow> DiscoPublic" where
  "DiscoPrivate_public_key base_mult k = DiscoPublic (base_mult (disco_private_bytes k))"

text \<open>
  The life of a private key: drawn from the random source, copied through its bytes, and on drop
  overwritten in place. \<open>rand_key\<close> is \<^verbatim>\<open>rand::random::<[u8; 32]>\<close>, a step of the source's
  state; \<open>static_secret\<close> is \<^verbatim>\<open>StaticSecret::from(..).to_bytes()\<close>. A drop returns what the
  key's memory holds afterwards.
\<close>

record 'g Key_rand =
  rand_key :: "'g \<Rightarrow> bytes \<times> 'g"
  static_secret :: "bytes \<Rightarrow> bytes"

definition zeroize :: "bytes \<Rightarrow> bytes" where
  "zeroize bs = map (\<lambda>_. 0) bs"

definition MachinePrivate_generate :: "'g Key_rand \<Rightarrow> 'g \<Rightarrow> MachinePrivate \<times> 'g" where
  "MachinePrivate_generate rnd g =
     (case rand_key rnd g of (bs, g') \<Rightarrow> (MachinePrivate (static_secret rnd bs), g'))"

definition MachinePrivate_from_bytes :: "bytes \<Rightarrow> MachinePrivate" where
  "MachinePrivate_from_bytes bs = MachinePrivate bs"

definition MachinePrivate_drop :: "MachinePrivate \<Rightarrow> bytes" where
  "MachinePrivate_drop k = zeroize (machine_private_bytes k)"

definition MachinePublic_from_bytes :: "bytes \<Rightarrow> MachinePublic" where
  "MachinePublic_from_bytes bs = MachinePublic bs"

definition NodePrivate_generate :: "'g Key_rand \<Rightarrow> 'g \<Rightarrow> NodePrivate \<times> 'g" where
  "NodePrivate_generate rnd g =
     (case rand_key rnd g of (bs, g') \<Rightarrow> (NodePrivate (static_secret rnd bs), g'))"

definition NodePrivate_from_bytes :: "bytes \<Rightarrow> NodePrivate" where
  "NodePrivate_from_bytes bs = NodePrivate bs"

definition NodePrivate_drop :: "NodePrivate \<Rightarrow> bytes" where
  "NodePrivate_drop k = zeroize (node_private_bytes k)"

definition NodePublic_from_bytes :: "bytes \<Rightarrow> NodePublic" where
  "NodePublic_from_bytes bs = NodePublic bs"

definition DiscoPrivate_generate :: "'g Key_rand \<Rightarrow> 'g \<Rightarrow> DiscoPrivate \<times> 'g" where
  "DiscoPrivate_generate rnd g =
     (case rand_key rnd g of (bs, g') \<Rightarrow> (DiscoPrivate (static_secret rnd bs), g'))"

definition DiscoPrivate_from_bytes :: "bytes \<Rightarrow> DiscoPrivate" where
  "DiscoPrivate_from_bytes bs = DiscoPrivate bs"

definition DiscoPrivate_drop :: "DiscoPrivate \<Rightarrow> bytes" where
  "DiscoPrivate_drop k = zeroize (disco_private_bytes k)"

definition DiscoPublic_from_bytes :: "bytes \<Rightarrow> DiscoPublic" where
  "DiscoPublic_from_bytes bs = DiscoPublic bs"

text \<open>The manual \<^verbatim>\<open>Debug\<close> of a private key prints its type's name and a redaction marker;
  that of a public key its hex form. \<open>dq\<close> is the double quote.\<close>

definition dq :: string where
  "dq = [CHR 0x22]"

definition debug_tuple :: "string \<Rightarrow> string \<Rightarrow> string" where
  "debug_tuple name field = name @ ''('' @ dq @ field @ dq @ '')''"

definition MachinePrivate_debug :: "MachinePrivate \<Rightarrow> string" where
  "MachinePrivate_debug k = debug_tuple ''MachinePrivate'' ''[REDACTED]''"

definition NodePrivate_debug :: "NodePrivate \<Rightarrow> string" where
  "NodePrivate_debug k = debug_tuple ''NodePrivate'' ''[REDACTED]''"

definition DiscoPrivate_debug :: "DiscoPrivate \<Rightarrow> string" where
  "DiscoPrivate_debug k = debug_tuple ''DiscoPrivate'' ''[REDACTED]''"

definition MachinePublic_debug :: "MachinePublic \<Rightarrow> string" where
  "MachinePublic_debug k = debug_tuple ''MachinePublic'' (MachinePublic_to_hex k)"

definition NodePublic_debug :: "NodePublic \<Rightarrow> string" where
  "NodePublic_debug k = debug_tuple ''NodePublic'' (NodePublic_to_hex k)"

definition DiscoPublic_debug :: "DiscoPublic \<Rightarrow> string" where
  "DiscoPublic_debug k = debug_tuple ''DiscoPublic'' (DiscoPublic_to_hex k)"

section \<open>Nibbles\<close>

text \<open>The canonical (lower-case) form of a hex digit.\<close>

definition is_hex_char :: "char \<Rightarrow> bool" where
  "is_hex_char c =
     (let n = (of_char c :: nat) in 48 \<le> n \<and> n \<le> 57 \<or> 65 \<le> n \<and> n \<le> 70 \<or> 97 \<le> n \<and> n \<le> 102)"

definition lower_hex :: "char \<Rightarrow> char" where
  "lower_hex c =
     (let n = (of_char c :: nat) in if 65 \<le> n \<and> n \<le> 70 then char_of (n + 32) else c)"

definition digit_table :: "nat \<Rightarrow> bool" where
  "digit_table n = (hex_digit n = char_of (if n < 10 then 48 + n else 87 + n))"

lemma digit_table_all: "list_all digit_table [0..<16]"
  by code_simp

lemma hex_digit_code: "n < 16 \<Longrightarrow> hex_digit n = char_of (if n < 10 then 48 + n else 87 + n)"
  using digit_table_all by (simp add: list_all_iff digit_table_def)

lemma unat_byte_of_char: "unat (byte_of_char c) = of_char c"
  by (simp only: byte_of_char_def unat_u8_of_nat of_char_mod_256)

lemma unat_word_minus_u8: "unat m \<le> unat b \<Longrightarrow> unat (b - m :: u8) = unat b - unat m"
  by (simp add: unat_sub word_le_nat_alt)

lemma hex_nibble_ok:
  assumes "is_hex_char c"
  shows "\<exists>v. hex_nibble (byte_of_char c) off = Inr v \<and> unat v < 16
     \<and> hex_digit (unat v) = lower_hex c"
proof -
  define n where "n = (of_char c :: nat)"
  define b where "b = byte_of_char c"
  have b: "unat b = n"
    by (simp add: b_def n_def unat_byte_of_char)
  have c: "c = char_of n"
    by (simp add: n_def)
  from assms consider "48 \<le> n" "n \<le> 57" | "65 \<le> n" "n \<le> 70" | "97 \<le> n" "n \<le> 102"
    by (auto simp: is_hex_char_def n_def Let_def)
  then show ?thesis
  proof cases
    case 1
    then have "hex_nibble b off = Inr (b - 48)"
      by (simp add: hex_nibble_def word_le_nat_alt b)
    moreover have "unat (b - 48) = n - 48"
      using 1 by (simp add: unat_word_minus_u8 b)
    ultimately show ?thesis
      using 1 by (auto simp: b_def [symmetric] hex_digit_code lower_hex_def n_def [symmetric] c [symmetric])
  next
    case 2
    then have "hex_nibble b off = Inr (b - 65 + 10)"
      by (simp add: hex_nibble_def word_le_nat_alt b)
    moreover have "unat (b - 65 + 10) = n - 55"
      using 2 by (simp add: unat_word_minus_u8 b unat_word_ariths)
    ultimately show ?thesis
      using 2 by (auto simp: b_def [symmetric] hex_digit_code lower_hex_def n_def [symmetric])
  next
    case 3
    then have "hex_nibble b off = Inr (b - 97 + 10)"
      by (simp add: hex_nibble_def word_le_nat_alt b)
    moreover have "unat (b - 97 + 10) = n - 87"
      using 3 by (simp add: unat_word_minus_u8 b unat_word_ariths)
    ultimately show ?thesis
      using 3 by (auto simp: b_def [symmetric] hex_digit_code lower_hex_def n_def [symmetric] c [symmetric])
  qed
qed

lemma hex_nibble_bad:
  "\<not> is_hex_char c \<Longrightarrow> hex_nibble (byte_of_char c) off = Inl (InvalidHexDigit c off)"
  by (simp add: hex_nibble_def word_le_nat_alt unat_byte_of_char is_hex_char_def Let_def)

lemma hex_nibble_cases:
  assumes "hex_nibble (byte_of_char c) off = Inr v"
  shows "is_hex_char c \<and> unat v < 16 \<and> hex_digit (unat v) = lower_hex c"
  using hex_nibble_ok [of c off] hex_nibble_bad [of c off] assms by (cases "is_hex_char c") auto

lemma hex_nibble_Inr_iff: "is_ok (hex_nibble (byte_of_char c) off) \<longleftrightarrow> is_hex_char c"
  unfolding is_ok_iff using hex_nibble_cases [of c off] hex_nibble_ok [of c off] by blast

lemma hex_nibble_Inl:
  "hex_nibble (byte_of_char c) off = Inl e \<Longrightarrow> e = InvalidHexDigit c off \<and> \<not> is_hex_char c"
  using hex_nibble_ok [of c off] hex_nibble_bad [of c off] by (cases "is_hex_char c") auto

lemma hex_nibble_digit:
  assumes "n < 16"
  shows "hex_nibble (byte_of_char (hex_digit n)) off = Inr (of_nat n)"
proof -
  have h: "hex_digit n = char_of (if n < 10 then 48 + n else 87 + n)"
    using assms by (rule hex_digit_code)
  then have o: "of_char (hex_digit n) = (if n < 10 then 48 + n else 87 + n)"
    using assms by (simp add: of_char_of)
  with assms have "is_hex_char (hex_digit n)"
    by (simp add: is_hex_char_def)
  then obtain v where v: "hex_nibble (byte_of_char (hex_digit n)) off = Inr v" "unat v < 16"
    "hex_digit (unat v) = lower_hex (hex_digit n)"
    using hex_nibble_ok by blast
  have "lower_hex (hex_digit n) = hex_digit n"
    using assms by (simp add: lower_hex_def o)
  then have "of_char (hex_digit (unat v)) = (of_char (hex_digit n) :: nat)"
    by (simp add: v(3))
  then have "unat v = n"
    using v(2) assms by (simp add: o hex_digit_code of_char_of split: if_splits)
  then have "v = of_nat n"
    using assms by (simp add: word_unat_eq_iff unat_u8_of_nat)
  with v show ?thesis
    by simp
qed

lemma mask_4: "(mask 4 :: u8) = 15"
  by (simp add: mask_eq_exp_minus_1)

lemma byte_nibbles: "push_bit 4 (drop_bit 4 b) OR (b AND 0x0f) = (b :: u8)"
proof -
  have "b AND 0x0f = take_bit 4 b"
    by (simp add: take_bit_eq_mask mask_4)
  moreover have "push_bit 4 (drop_bit 4 b) OR take_bit 4 b = b"
    by (rule bit_word_eqI) (auto simp: bit_simps)
  ultimately show ?thesis
    by simp
qed

lemma nibble_bits: "unat (v :: u8) < 16 \<Longrightarrow> bit v k \<Longrightarrow> k < 4"
proof -
  assume v: "unat v < 16" and k: "bit v k"
  have "bit (unat v) k"
    using k by (simp add: bit_unsigned_iff)
  moreover have "take_bit 4 (unat v) = unat v"
    using v by (simp add: take_bit_nat_eq_self)
  ultimately show ?thesis
    by (metis bit_take_bit_iff)
qed

lemma byte_high_nibble:
  assumes "unat (hi :: u8) < 16" and "unat (lo :: u8) < 16"
  shows "drop_bit 4 (push_bit 4 hi OR lo) = hi"
proof (rule bit_word_eqI)
  fix k
  assume "k < LENGTH(8)"
  show "bit (drop_bit 4 (push_bit 4 hi OR lo)) k = bit hi k"
    using nibble_bits [OF assms(1), of k] nibble_bits [OF assms(2), of "4 + k"]
    by (auto simp: bit_simps)
qed

lemma byte_low_nibble:
  assumes "unat (hi :: u8) < 16" and "unat (lo :: u8) < 16"
  shows "(push_bit 4 hi OR lo) AND 0x0f = lo"
proof -
  have "take_bit 4 (push_bit 4 hi OR lo) = lo"
    by (rule bit_word_eqI) (use nibble_bits [OF assms(2)] in \<open>auto simp: bit_simps\<close>)
  then show ?thesis
    by (simp add: take_bit_eq_mask mask_4)
qed

lemma drop_bit_4_lt: "unat (drop_bit 4 (b :: u8)) < 16"
proof -
  have "unat (drop_bit 4 b) = unat b div 16"
    by (simp add: drop_bit_eq_div unat_div)
  then show ?thesis
    using unat_u8_lt [of b] by (simp add: less_mult_imp_div_less)
qed

lemma and_15_lt: "unat ((b :: u8) AND 0x0f) < 16"
proof -
  have "b AND 0x0f = take_bit 4 b"
    by (simp add: take_bit_eq_mask mask_4)
  moreover have "unat (take_bit 4 b) < 16"
    by (simp add: take_bit_eq_mod unat_mod)
  ultimately show ?thesis
    by simp
qed

section \<open>Hex strings\<close>

lemma length_hex_encode [simp]: "length (hex_encode bs) = 2 * length bs"
  by (induction bs) simp_all

lemma hex_pairs_encode: "hex_pairs i (as_bytes (hex_encode bs)) = Inr bs"
  by (induction bs arbitrary: i)
     (simp_all add: as_bytes_def hex_nibble_digit drop_bit_4_lt and_15_lt byte_nibbles)

lemma hex_decode_encode: "length bs = n \<Longrightarrow> hex_decode_exact n (hex_encode bs) = Inr bs"
  by (simp add: hex_decode_exact_def hex_pairs_encode)

lemma hex_pairs_Inr:
  assumes "hex_pairs i (as_bytes s) = Inr bs" and "even (length s)"
  shows "hex_encode bs = map lower_hex s \<and> (\<forall>c\<in>set s. is_hex_char c)"
  using assms
proof (induction i "as_bytes s" arbitrary: s bs rule: hex_pairs.induct)
  case (1 i h l rest)
  obtain c d t where s: "s = c # d # t" and h: "h = byte_of_char c" and l: "l = byte_of_char d"
    and t: "rest = as_bytes t"
    using "1.hyps"(2) by (cases s; cases "tl s") (auto simp: as_bytes_def)
  from "1.prems"(1) obtain hi lo out where
    hi: "hex_nibble h (i * 2) = Inr hi" and lo: "hex_nibble l (i * 2 + 1) = Inr lo"
    and out: "hex_pairs (i + 1) rest = Inr out" and bs: "bs = (push_bit 4 hi OR lo) # out"
    by (auto simp: "1.hyps"(2) [symmetric] bind_r_Inr_iff)
  have "hex_encode out = map lower_hex t \<and> (\<forall>c\<in>set t. is_hex_char c)"
    using "1.hyps"(1) [OF t] out "1.prems"(2) by (simp add: s t)
  moreover have "is_hex_char c" and "is_hex_char d"
    using hi lo hex_nibble_Inr_iff by (metis h is_ok_simps(2), metis l is_ok_simps(2))
  moreover have "unat hi < 16" "hex_digit (unat hi) = lower_hex c"
    using hex_nibble_ok [OF \<open>is_hex_char c\<close>, of "i * 2"] hi by (auto simp: h)
  moreover have "unat lo < 16" "hex_digit (unat lo) = lower_hex d"
    using hex_nibble_ok [OF \<open>is_hex_char d\<close>, of "i * 2 + 1"] lo by (auto simp: l)
  ultimately show ?case
    by (simp add: bs s byte_high_nibble byte_low_nibble del: drop_bit_or)
qed (auto simp: as_bytes_def)

lemma hex_pairs_ok:
  assumes "even (length s)" and "\<forall>c\<in>set s. is_hex_char c"
  shows "\<exists>bs. hex_pairs i (as_bytes s) = Inr bs \<and> length bs = length s div 2"
  using assms
proof (induction s arbitrary: i rule: induct_list012)
  case (3 c d t)
  then obtain out where "hex_pairs (i + 1) (as_bytes t) = Inr out \<and> length out = length t div 2"
    by auto
  moreover obtain hi lo where "hex_nibble (byte_of_char c) (i * 2) = Inr hi"
    "hex_nibble (byte_of_char d) (i * 2 + 1) = Inr lo"
    using hex_nibble_ok "3.prems"(2) by (meson list.set_intros)
  ultimately show ?case
    by (simp add: as_bytes_def)
qed (simp_all add: as_bytes_def)

text \<open>The first offending digit is the one reported, at its own offset.\<close>

lemma hex_pairs_Inl:
  assumes "hex_pairs i (as_bytes s) = Inl e" and "even (length s)"
  shows "\<exists>k < length s. e = InvalidHexDigit (s ! k) (i * 2 + k) \<and> \<not> is_hex_char (s ! k)
           \<and> (\<forall>j<k. is_hex_char (s ! j))"
  using assms
proof (induction s arbitrary: i rule: induct_list012)
  case (3 c d t)
  show ?case
  proof (cases "hex_nibble (byte_of_char c) (i * 2)")
    case (Inl e')
    then show ?thesis
      using "3.prems"(1) hex_nibble_Inl [OF Inl] by (intro exI [of _ 0]) (auto simp: as_bytes_def)
  next
    case hi: (Inr hi)
    then have c: "is_hex_char c"
      using hex_nibble_Inr_iff is_ok_simps(2) by metis
    show ?thesis
    proof (cases "hex_nibble (byte_of_char d) (i * 2 + 1)")
      case (Inl e')
      then show ?thesis
        using "3.prems"(1) hi c hex_nibble_Inl [OF Inl]
        by (intro exI [of _ 1]) (auto simp: as_bytes_def)
    next
      case lo: (Inr lo)
      then have d: "is_hex_char d"
        using hex_nibble_Inr_iff is_ok_simps(2) by metis
      have "hex_pairs (i + 1) (as_bytes t) = Inl e"
        using "3.prems"(1) hi lo by (auto simp: as_bytes_def bind_r_Inl_iff)
      then obtain k where k: "k < length t" "e = InvalidHexDigit (t ! k) ((i + 1) * 2 + k)"
        "\<not> is_hex_char (t ! k)" "\<forall>j<k. is_hex_char (t ! j)"
        using "3.IH"(1) [of "i + 1"] "3.prems"(2) by auto
      then show ?thesis
        using c d by (intro exI [of _ "Suc (Suc k)"]) (auto simp: All_less_Suc2)
    qed
  qed
qed (simp_all add: as_bytes_def)

lemma hex_decode_exact_Inr_iff:
  "is_ok (hex_decode_exact n s) \<longleftrightarrow> length s = 2 * n \<and> (\<forall>c\<in>set s. is_hex_char c)"
proof (cases "length s = 2 * n")
  case True
  then have "hex_decode_exact n s = hex_pairs 0 (as_bytes s)"
    by (simp add: hex_decode_exact_def)
  moreover have "even (length s)"
    using True by simp
  ultimately show ?thesis
    using True hex_pairs_ok [of s 0] hex_pairs_Inr [of 0 s] by (auto simp: is_ok_iff)
next
  case False
  then have "\<not> is_ok (hex_decode_exact n s)"
    by (auto simp: hex_decode_exact_def elim: oddE evenE)
  with False show ?thesis
    by simp
qed

lemma hex_decode_exact_canonical:
  assumes "hex_decode_exact n s = Inr bs"
  shows "hex_encode bs = map lower_hex s \<and> length bs = n"
proof -
  have s: "length s = 2 * n"
    using assms hex_decode_exact_Inr_iff [of n s] by (simp add: is_ok_iff)
  then have "hex_pairs 0 (as_bytes s) = Inr bs"
    using assms by (simp add: hex_decode_exact_def)
  then have e: "hex_encode bs = map lower_hex s"
    using hex_pairs_Inr [of 0 s] s by simp
  from arg_cong [OF e, of length] have "2 * length bs = length s"
    by simp
  with e s show ?thesis
    by simp
qed

section \<open>The contract of the key macro\<close>

text \<open>What \<^verbatim>\<open>key_pair!\<close> promises of a public key type: \<open>raw\<close> and \<open>mk\<close> open and close the
  newtype, the text form is the type's prefix and the hex digits, and parsing strips the prefix
  and decodes exactly 32 bytes.\<close>

locale prefixed_key =
  fixes pre :: string
    and mk :: "bytes \<Rightarrow> 'k"
    and raw :: "'k \<Rightarrow> bytes"
    and to_hex :: "'k \<Rightarrow> string"
    and from_hex :: "string \<Rightarrow> (KeyError, 'k) result"
  assumes raw_mk: "raw (mk bs) = bs"
    and mk_raw: "mk (raw k) = k"
    and to_hex_eq: "to_hex k = key_to_hex pre (raw k)"
    and from_hex_eq: "from_hex s = key_from_hex pre mk s"
begin

lemma from_to_hex: "length (raw k) = KEY_LEN \<Longrightarrow> from_hex (to_hex k) = Inr k"
  by (simp add: from_hex_eq to_hex_eq key_from_hex_def key_to_hex_def hex_decode_encode mk_raw)

lemma to_hex_length: "length (raw k) = KEY_LEN \<Longrightarrow> length (to_hex k) = length pre + 64"
  by (simp add: to_hex_eq key_to_hex_def KEY_LEN_def)

lemma from_hex_decode:
  "from_hex (pre @ h) = bind_r (hex_decode_exact KEY_LEN h) (\<lambda>bs. Inr (mk bs))"
  by (simp add: from_hex_eq key_from_hex_def)

lemma from_hex_ok_iff:
  "is_ok (from_hex s) \<longleftrightarrow>
     (\<exists>h. s = pre @ h \<and> length h = 64 \<and> (\<forall>c\<in>set h. is_hex_char c))"
proof (cases "strip_prefix pre s")
  case None
  then have "\<not> (\<exists>h. s = pre @ h)"
    using strip_prefix_Some_iff [of pre s] by (metis option.distinct(1))
  with None show ?thesis
    by (auto simp: from_hex_eq key_from_hex_def)
next
  case (Some h)
  then have s: "s = pre @ h"
    by (simp only: strip_prefix_Some_iff)
  have "is_ok (from_hex s) \<longleftrightarrow> is_ok (hex_decode_exact KEY_LEN h)"
    by (cases "hex_decode_exact KEY_LEN h") (simp_all add: s from_hex_decode)
  then show ?thesis
    by (simp add: s hex_decode_exact_Inr_iff KEY_LEN_def)
qed

lemma from_hex_canonical:
  assumes "from_hex s = Inr k"
  shows "\<exists>h. s = pre @ h \<and> to_hex k = pre @ map lower_hex h \<and> length (raw k) = KEY_LEN"
proof -
  obtain h where s: "s = pre @ h"
    using assms from_hex_ok_iff [of s] by (auto simp: is_ok_iff)
  then obtain bs where bs: "hex_decode_exact KEY_LEN h = Inr bs" and k: "k = mk bs"
    using assms by (auto simp: from_hex_decode bind_r_Inr_iff)
  show ?thesis
    using hex_decode_exact_canonical [OF bs] by (auto simp: s k to_hex_eq key_to_hex_def raw_mk)
qed

lemma from_hex_inj:
  assumes "from_hex s = Inr k" and "from_hex t = Inr k"
  shows "map lower_hex (drop (length pre) s) = map lower_hex (drop (length pre) t)"
  using from_hex_canonical [OF assms(1)] from_hex_canonical [OF assms(2)] by auto

lemma from_hex_missing_prefix:
  "\<not> prefix pre s \<Longrightarrow> from_hex s = Inl (MissingPrefix pre (truncate_for_report s))"
  using strip_prefix_None_iff [of pre s] by (simp add: from_hex_eq key_from_hex_def)

lemma from_hex_wrong_length:
  assumes "length h \<noteq> 64"
  shows "from_hex (pre @ h) =
    Inl (if odd (length h) then OddHexLength (length h) else WrongLength KEY_LEN (length h div 2))"
  using assms by (auto simp: from_hex_decode hex_decode_exact_def KEY_LEN_def)

lemma from_hex_bad_digit:
  assumes "length h = 64" and "\<not> (\<forall>c\<in>set h. is_hex_char c)"
  shows "\<exists>k < 64. from_hex (pre @ h) = Inl (InvalidHexDigit (h ! k) k)
           \<and> \<not> is_hex_char (h ! k) \<and> (\<forall>j<k. is_hex_char (h ! j))"
proof -
  have d: "hex_decode_exact KEY_LEN h = hex_pairs 0 (as_bytes h)"
    using assms(1) by (simp add: hex_decode_exact_def KEY_LEN_def)
  moreover have "\<not> is_ok (hex_decode_exact KEY_LEN h)"
    using assms by (simp add: hex_decode_exact_Inr_iff)
  ultimately obtain e where e: "hex_pairs 0 (as_bytes h) = Inl e"
    by (cases "hex_pairs 0 (as_bytes h)") simp_all
  then obtain k where "k < 64" "e = InvalidHexDigit (h ! k) k" "\<not> is_hex_char (h ! k)"
    "\<forall>j<k. is_hex_char (h ! j)"
    using hex_pairs_Inl [OF e] assms(1) by auto
  then show ?thesis
    by (auto simp: from_hex_decode d e)
qed

end

interpretation machine_key: prefixed_key "''mkey:''" MachinePublic machine_public_bytes
  MachinePublic_to_hex MachinePublic_from_hex
  by unfold_locales (simp_all add: MachinePublic_to_hex_def MachinePublic_from_hex_def)

interpretation node_key: prefixed_key "''nodekey:''" NodePublic node_public_bytes
  NodePublic_to_hex NodePublic_from_hex
  by unfold_locales (simp_all add: NodePublic_to_hex_def NodePublic_from_hex_def)

interpretation disco_key: prefixed_key "''discokey:''" DiscoPublic disco_public_bytes
  DiscoPublic_to_hex DiscoPublic_from_hex
  by unfold_locales (simp_all add: DiscoPublic_to_hex_def DiscoPublic_from_hex_def)

section \<open>Properties\<close>

text \<open>
  Claim C33. Printing a 32-byte public key and parsing the text gives the key back, for each of the
  three key types.
\<close>

theorem key_hex_roundtrip:
  assumes "length bs = KEY_LEN"
  shows "MachinePublic_from_hex (MachinePublic_to_hex (MachinePublic bs)) = Inr (MachinePublic bs)
    \<and> NodePublic_from_hex (NodePublic_to_hex (NodePublic bs)) = Inr (NodePublic bs)
    \<and> DiscoPublic_from_hex (DiscoPublic_to_hex (DiscoPublic bs)) = Inr (DiscoPublic bs)"
  using assms by (simp add: machine_key.from_to_hex node_key.from_to_hex disco_key.from_to_hex)

theorem key_hex_roundtrip_witness:
  "NodePublic_from_hex (NodePublic_to_hex (NodePublic (replicate 32 0xc5)))
     = Inr (NodePublic (replicate 32 0xc5))"
  using key_hex_roundtrip [of "replicate 32 0xc5"] by (simp add: KEY_LEN_def)

text \<open>
  Claim C34. The accepted language of the three parsers: exactly the type's prefix followed by 64
  hex digits of either case. In particular no text is accepted as two different key types.
\<close>

theorem key_hex_language:
  "(is_ok (MachinePublic_from_hex s) \<longleftrightarrow>
      prefix ''mkey:'' s \<and> length s = 5 + 64 \<and> list_all is_hex_char (drop 5 s))
   \<and> (is_ok (NodePublic_from_hex s) \<longleftrightarrow>
      prefix ''nodekey:'' s \<and> length s = 8 + 64 \<and> list_all is_hex_char (drop 8 s))
   \<and> (is_ok (DiscoPublic_from_hex s) \<longleftrightarrow>
      prefix ''discokey:'' s \<and> length s = 9 + 64 \<and> list_all is_hex_char (drop 9 s))"
  unfolding machine_key.from_hex_ok_iff node_key.from_hex_ok_iff disco_key.from_hex_ok_iff
  by (intro conjI iffI; force simp: prefix_def list_all_iff)

text \<open>
  Parsing is a function of the canonical text: the key parsed from a text prints as that
  text with its hex digits in lower case, and has exactly 32 bytes.
\<close>

lemma key_hex_canonical:
  assumes "NodePublic_from_hex s = Inr k"
  shows "NodePublic_to_hex k = ''nodekey:'' @ map lower_hex (drop 8 s)
    \<and> length (node_public_bytes k) = KEY_LEN"
  using node_key.from_hex_canonical [OF assms] by auto

text \<open>
  Which error a malformed node key gives: a missing prefix is reported first (with at
  most 80 characters of the input), then an odd length, then a wrong length, and only a text of the
  right shape is blamed on a digit, namely the first one that is not hexadecimal.
\<close>

lemma key_hex_errors:
  "(\<not> prefix ''nodekey:'' s
      \<and> NodePublic_from_hex s = Inl (MissingPrefix ''nodekey:'' (truncate_for_report s))
      \<and> count_chars (truncate_for_report s) \<le> 80)
   \<or> (\<exists>h. s = ''nodekey:'' @ h
      \<and> (if odd (length h) then NodePublic_from_hex s = Inl (OddHexLength (length h))
         else if length h \<noteq> 64 then NodePublic_from_hex s = Inl (WrongLength 32 (length h div 2))
         else if list_all is_hex_char h then is_ok (NodePublic_from_hex s)
         else NodePublic_from_hex s = Inl (InvalidHexDigit
           (h ! length (takeWhile is_hex_char h)) (length (takeWhile is_hex_char h)))))"
proof (cases "prefix ''nodekey:'' s")
  case False
  then show ?thesis
    using node_key.from_hex_missing_prefix [OF False]
    by (simp add: truncate_for_report_def MAX_REPORTED_INPUT_def count_chars_take_chars)
next
  case True
  then obtain h where s: "s = ''nodekey:'' @ h"
    by (auto simp: prefix_def)
  have first: "length (takeWhile is_hex_char h) = k"
    if "k < length h" "\<not> is_hex_char (h ! k)" "\<forall>j<k. is_hex_char (h ! j)" for k
    using that by (intro takeWhile_eq_take_P_nth [THEN arg_cong [where f = length], THEN trans]) auto
  consider "length h \<noteq> 64" | "length h = 64" "\<forall>c\<in>set h. is_hex_char c"
    | "length h = 64" "\<not> (\<forall>c\<in>set h. is_hex_char c)"
    by blast
  then show ?thesis
  proof cases
    case 1
    then show ?thesis
      using node_key.from_hex_wrong_length [OF 1] by (auto simp: s KEY_LEN_def)
  next
    case 2
    then show ?thesis
      using node_key.from_hex_ok_iff [of s] by (auto simp: s list_all_iff)
  next
    case 3
    obtain k where k: "k < 64" "NodePublic_from_hex (''nodekey:'' @ h) = Inl (InvalidHexDigit (h ! k) k)"
      "\<not> is_hex_char (h ! k)" "\<forall>j<k. is_hex_char (h ! j)"
      using node_key.from_hex_bad_digit [OF 3] by auto
    then have "length (takeWhile is_hex_char h) = k"
      using 3 by (intro first) auto
    with 3 k show ?thesis
      by (auto simp: s list_all_iff)
  qed
qed

text \<open>Dropping a private key leaves only zeros in its memory.\<close>

lemma private_key_drop:
  "MachinePrivate_drop k = replicate (length (machine_private_bytes k)) 0"
  "NodePrivate_drop n = replicate (length (node_private_bytes n)) 0"
  "DiscoPrivate_drop d = replicate (length (disco_private_bytes d)) 0"
  by (simp_all add: MachinePrivate_drop_def NodePrivate_drop_def DiscoPrivate_drop_def zeroize_def
      map_replicate_const)

lemma generated_key_public_hex:
  assumes "rand_key rnd g = (bs, g')" and "length (base_mult (static_secret rnd bs)) = KEY_LEN"
  shows "NodePublic_from_hex (NodePublic_to_hex (NodePrivate_public_key base_mult (fst (NodePrivate_generate rnd g))))
    = Inr (NodePublic (base_mult (static_secret rnd bs)))"
  using assms by (simp add: NodePrivate_generate_def NodePrivate_public_key_def node_key.from_to_hex)

end
