(* ===== verification/Capability.thy ===== *)
theory Capability
  imports Rust_Str
begin

text \<open>
  The control-plane capability version (\<^verbatim>\<open>crates/mitos/src/capability.rs\<close>): one constant from
  which the \<^verbatim>\<open>/key\<close> query, the initiation frame, the Noise prologue and the JSON
  \<^verbatim>\<open>Version\<close> fields are all derived.
\<close>

datatype CapabilityVersion = CapabilityVersion u16

definition CAPABILITY_VERSION :: CapabilityVersion where
  "CAPABILITY_VERSION = CapabilityVersion 71"

primrec version_to_be_bytes :: "CapabilityVersion \<Rightarrow> bytes" where
  "version_to_be_bytes (CapabilityVersion v) = u16_to_be_bytes v"

primrec version_as_u64 :: "CapabilityVersion \<Rightarrow> u64" where
  "version_as_u64 (CapabilityVersion v) = ucast v"

primrec version_fmt :: "CapabilityVersion \<Rightarrow> string" where
  "version_fmt (CapabilityVersion v) = show_nat (unat v)"

text \<open>The derived \<^verbatim>\<open>Ord\<close> compares the wrapped numbers.\<close>

primrec version_number :: "CapabilityVersion \<Rightarrow> u16" where
  "version_number (CapabilityVersion v) = v"

instantiation CapabilityVersion :: linorder
begin

definition less_eq_CapabilityVersion :: "CapabilityVersion \<Rightarrow> CapabilityVersion \<Rightarrow> bool" where
  "less_eq_CapabilityVersion v w = (version_number v \<le> version_number w)"

definition less_CapabilityVersion :: "CapabilityVersion \<Rightarrow> CapabilityVersion \<Rightarrow> bool" where
  "less_CapabilityVersion v w = (version_number v < version_number w)"

instance
proof
  fix v w :: CapabilityVersion
  assume "v \<le> w" and "w \<le> v"
  then show "v = w"
    by (cases v; cases w) (simp add: less_eq_CapabilityVersion_def)
qed (auto simp: less_eq_CapabilityVersion_def less_CapabilityVersion_def)

end

lemma unat_widen_u64: "unat (ucast (w :: u16) :: u64) = unat w"
proof -
  have "unat w < 2 ^ 64"
    by (rule less_trans [OF unat_u16_lt]) simp
  then show ?thesis
    by (simp add: unsigned_ucast_eq take_bit_nat_eq_self)
qed

text \<open>All renderings of a version denote the same number: the two-byte field read big endian,
  the widened value and the decimal text agree.\<close>

lemma version_bytes_value:
  "version_to_be_bytes v = [hi, lo] \<Longrightarrow>
     unat (version_as_u64 v) = unat (u16_from_be_bytes hi lo)"
proof -
  assume e: "version_to_be_bytes v = [hi, lo]"
  obtain w where v: "v = CapabilityVersion w"
    by (cases v)
  have "u16_from_be_bytes hi lo = w"
    using e by (simp add: v u16_be_roundtrip)
  then show ?thesis
    by (simp add: v unat_widen_u64)
qed

lemma version_fmt_value:
  "parse_unsigned 65535 (version_fmt v) = Some (unat (version_as_u64 v))"
proof -
  obtain w where v: "v = CapabilityVersion w"
    by (cases v)
  have "unat w \<le> 65535"
    using unat_u16_lt [of w] by linarith
  then show ?thesis
    by (simp add: v parse_unsigned_show_nat unat_widen_u64)
qed

text \<open>
  Every rendering of the capability version denotes the same number: the two big-endian
  bytes of the initiation frame, the widened number of the JSON \<^verbatim>\<open>Version\<close> fields and the decimal
  text of the key query and the prologue.
\<close>

lemma version_renderings_agree:
  "be16_dec (version_to_be_bytes v) = unat (version_as_u64 v)
   \<and> parse_u16 (version_fmt v) = Some (unat (version_as_u64 v))"
proof -
  obtain hi lo where e: "version_to_be_bytes v = [hi, lo]"
    by (cases v) (simp add: u16_to_be_bytes_def)
  show ?thesis
    using version_bytes_value [OF e] version_fmt_value [of v]
    by (simp add: e be16_dec_def parse_u16_def)
qed

end
