(* ===== verification/Config.thy ===== *)
theory Config
  imports Hamma_Prelude
begin

text \<open>
  The tuning knobs of \<^verbatim>\<open>crates/mitos/src/config/mod.rs\<close>: the three configuration structs with
  their defaults, the range checks, and the \<^verbatim>\<open>TryFrom\<close> conversions through which
  deserialization reaches the public types. Sizes are 64-bit words, so the saturating
  multiplication of \<^verbatim>\<open>key_response_max_bytes\<close> is modelled at its width.
\<close>

section \<open>Constants\<close>

definition DEFAULT_MAX_HEADER_BYTES :: usize where
  "DEFAULT_MAX_HEADER_BYTES = 8 * 1024"

definition DEFAULT_KEY_RESPONSE_BODY_MULTIPLIER :: usize where
  "DEFAULT_KEY_RESPONSE_BODY_MULTIPLIER = 4"

definition DEFAULT_HEADER_READ_INITIAL_CAPACITY :: usize where
  "DEFAULT_HEADER_READ_INITIAL_CAPACITY = 512"

definition DEFAULT_RESPONSE_READ_CHUNK_BYTES :: usize where
  "DEFAULT_RESPONSE_READ_CHUNK_BYTES = 4096"

definition DEFAULT_CONNECT_TIMEOUT_MS :: u64 where
  "DEFAULT_CONNECT_TIMEOUT_MS = 10000"

definition DEFAULT_MAX_FRAME_PAYLOAD :: usize where
  "DEFAULT_MAX_FRAME_PAYLOAD = 4096"

definition DEFAULT_HANDSHAKE_SCRATCH_BYTES :: usize where
  "DEFAULT_HANDSHAKE_SCRATCH_BYTES = 256"

definition NOISE_FRAME_TAG_OVERHEAD :: usize where
  "NOISE_FRAME_TAG_OVERHEAD = 16"

definition MAX_FRAME_PAYLOAD_CEILING :: usize where
  "MAX_FRAME_PAYLOAD_CEILING = 65535 - NOISE_FRAME_TAG_OVERHEAD"

definition MIN_FRAME_PAYLOAD :: usize where
  "MIN_FRAME_PAYLOAD = 256"

definition HANDSHAKE_SCRATCH_BOUNDS :: "usize \<times> usize" where
  "HANDSHAKE_SCRATCH_BOUNDS = (128, 4096)"

definition MAX_HEADER_BYTES_BOUNDS :: "usize \<times> usize" where
  "MAX_HEADER_BYTES_BOUNDS = (1024, 65536)"

definition KEY_RESPONSE_BODY_MULTIPLIER_BOUNDS :: "usize \<times> usize" where
  "KEY_RESPONSE_BODY_MULTIPLIER_BOUNDS = (1, 16)"

definition HEADER_READ_INITIAL_CAPACITY_MIN :: usize where
  "HEADER_READ_INITIAL_CAPACITY_MIN = 64"

definition RESPONSE_READ_CHUNK_BYTES_BOUNDS :: "usize \<times> usize" where
  "RESPONSE_READ_CHUNK_BYTES_BOUNDS = (512, 65536)"

definition CONNECT_TIMEOUT_MS_BOUNDS :: "u64 \<times> u64" where
  "CONNECT_TIMEOUT_MS_BOUNDS = (1000, 120000)"

lemmas config_constants =
  DEFAULT_MAX_HEADER_BYTES_def DEFAULT_KEY_RESPONSE_BODY_MULTIPLIER_def
  DEFAULT_HEADER_READ_INITIAL_CAPACITY_def DEFAULT_RESPONSE_READ_CHUNK_BYTES_def
  DEFAULT_CONNECT_TIMEOUT_MS_def DEFAULT_MAX_FRAME_PAYLOAD_def
  DEFAULT_HANDSHAKE_SCRATCH_BYTES_def NOISE_FRAME_TAG_OVERHEAD_def
  MAX_FRAME_PAYLOAD_CEILING_def MIN_FRAME_PAYLOAD_def HANDSHAKE_SCRATCH_BOUNDS_def
  MAX_HEADER_BYTES_BOUNDS_def KEY_RESPONSE_BODY_MULTIPLIER_BOUNDS_def
  HEADER_READ_INITIAL_CAPACITY_MIN_def RESPONSE_READ_CHUNK_BYTES_BOUNDS_def
  CONNECT_TIMEOUT_MS_BOUNDS_def

section \<open>Range checks\<close>

datatype ConfigError = OutOfRange string usize usize usize

fun check_range :: "string \<Rightarrow> usize \<Rightarrow> usize \<times> usize \<Rightarrow> (ConfigError, unit) result" where
  "check_range field val (mn, mx) =
     (if mn \<le> val \<and> val \<le> mx then Inr () else Inl (OutOfRange field mn mx val))"

text \<open>\<^verbatim>\<open>usize::try_from(u64)\<close>, which cannot fail where \<^verbatim>\<open>usize\<close> has 64 bits.\<close>

definition usize_try_from :: "u64 \<Rightarrow> usize option" where
  "usize_try_from v = Some v"

definition usize_or_max :: "u64 \<Rightarrow> usize" where
  "usize_or_max v = (case usize_try_from v of None \<Rightarrow> - 1 | Some w \<Rightarrow> w)"

definition check_connect_timeout_ms :: "u64 \<Rightarrow> (ConfigError, unit) result" where
  "check_connect_timeout_ms val =
     (if val = 0 then Inr ()
      else let (mn, mx) = CONNECT_TIMEOUT_MS_BOUNDS in
        if mn \<le> val \<and> val \<le> mx then Inr ()
        else Inl (OutOfRange ''wire.connect_timeout_ms'' (usize_or_max mn) (usize_or_max mx)
                    (usize_or_max val)))"

section \<open>WireConfig\<close>

record WireConfig =
  max_header_bytes :: usize
  key_response_body_multiplier :: usize
  header_read_initial_capacity :: usize
  response_read_chunk_bytes :: usize
  connect_timeout_ms :: u64

definition default_connect_timeout_ms :: u64 where
  "default_connect_timeout_ms = DEFAULT_CONNECT_TIMEOUT_MS"

definition WireConfig_default :: WireConfig where
  "WireConfig_default =
     \<lparr> max_header_bytes = DEFAULT_MAX_HEADER_BYTES,
       key_response_body_multiplier = DEFAULT_KEY_RESPONSE_BODY_MULTIPLIER,
       header_read_initial_capacity = DEFAULT_HEADER_READ_INITIAL_CAPACITY,
       response_read_chunk_bytes = DEFAULT_RESPONSE_READ_CHUNK_BYTES,
       connect_timeout_ms = DEFAULT_CONNECT_TIMEOUT_MS \<rparr>"

definition saturating_mul :: "usize \<Rightarrow> usize \<Rightarrow> usize" where
  "saturating_mul a b = (if unat a * unat b < 2 ^ 64 then a * b else - 1)"

definition key_response_max_bytes :: "WireConfig \<Rightarrow> usize" where
  "key_response_max_bytes c = saturating_mul (max_header_bytes c) (key_response_body_multiplier c)"

definition WireConfig_validate :: "WireConfig \<Rightarrow> (ConfigError, unit) result" where
  "WireConfig_validate c =
     bind_r (check_range ''wire.max_header_bytes'' (max_header_bytes c) MAX_HEADER_BYTES_BOUNDS) (\<lambda>_.
     bind_r (check_range ''wire.key_response_body_multiplier'' (key_response_body_multiplier c)
               KEY_RESPONSE_BODY_MULTIPLIER_BOUNDS) (\<lambda>_.
     bind_r (check_range ''wire.header_read_initial_capacity'' (header_read_initial_capacity c)
               (HEADER_READ_INITIAL_CAPACITY_MIN, max_header_bytes c)) (\<lambda>_.
     bind_r (check_range ''wire.response_read_chunk_bytes'' (response_read_chunk_bytes c)
               RESPONSE_READ_CHUNK_BYTES_BOUNDS) (\<lambda>_.
     check_connect_timeout_ms (connect_timeout_ms c)))))"

text \<open>A \<^verbatim>\<open>Duration\<close> is its number of milliseconds.\<close>

definition connect_timeout :: "WireConfig \<Rightarrow> nat option" where
  "connect_timeout c =
     (if connect_timeout_ms c \<noteq> 0 then Some (unat (connect_timeout_ms c)) else None)"

record WireConfigFields =
  f_max_header_bytes :: usize
  f_key_response_body_multiplier :: usize
  f_header_read_initial_capacity :: usize
  f_response_read_chunk_bytes :: usize
  f_connect_timeout_ms :: u64

definition WireConfig_of_fields :: "WireConfigFields \<Rightarrow> WireConfig" where
  "WireConfig_of_fields f =
     \<lparr> max_header_bytes = f_max_header_bytes f,
       key_response_body_multiplier = f_key_response_body_multiplier f,
       header_read_initial_capacity = f_header_read_initial_capacity f,
       response_read_chunk_bytes = f_response_read_chunk_bytes f,
       connect_timeout_ms = f_connect_timeout_ms f \<rparr>"

definition WireConfig_try_from :: "WireConfigFields \<Rightarrow> (ConfigError, WireConfig) result" where
  "WireConfig_try_from f =
     (let config = WireConfig_of_fields f in bind_r (WireConfig_validate config) (\<lambda>_. Inr config))"

section \<open>NoiseConfig\<close>

record NoiseConfig =
  max_frame_payload :: usize
  handshake_scratch_bytes :: usize

definition NoiseConfig_default :: NoiseConfig where
  "NoiseConfig_default =
     \<lparr> max_frame_payload = DEFAULT_MAX_FRAME_PAYLOAD,
       handshake_scratch_bytes = DEFAULT_HANDSHAKE_SCRATCH_BYTES \<rparr>"

definition NoiseConfig_validate :: "NoiseConfig \<Rightarrow> (ConfigError, unit) result" where
  "NoiseConfig_validate c =
     bind_r (check_range ''noise.max_frame_payload'' (max_frame_payload c)
               (MIN_FRAME_PAYLOAD, MAX_FRAME_PAYLOAD_CEILING)) (\<lambda>_.
     check_range ''noise.handshake_scratch_bytes'' (handshake_scratch_bytes c)
       HANDSHAKE_SCRATCH_BOUNDS)"

record NoiseConfigFields =
  f_max_frame_payload :: usize
  f_handshake_scratch_bytes :: usize

definition NoiseConfig_of_fields :: "NoiseConfigFields \<Rightarrow> NoiseConfig" where
  "NoiseConfig_of_fields f =
     \<lparr> max_frame_payload = f_max_frame_payload f,
       handshake_scratch_bytes = f_handshake_scratch_bytes f \<rparr>"

definition NoiseConfig_try_from :: "NoiseConfigFields \<Rightarrow> (ConfigError, NoiseConfig) result" where
  "NoiseConfig_try_from f =
     (let config = NoiseConfig_of_fields f in bind_r (NoiseConfig_validate config) (\<lambda>_. Inr config))"

section \<open>The top-level configuration\<close>

record HammaConfig =
  config_wire :: WireConfig
  config_noise :: NoiseConfig

definition Config_default :: HammaConfig where
  "Config_default = \<lparr> config_wire = WireConfig_default, config_noise = NoiseConfig_default \<rparr>"

definition Config_new :: HammaConfig where
  "Config_new = Config_default"

definition Config_validate :: "HammaConfig \<Rightarrow> (ConfigError, unit) result" where
  "Config_validate c =
     bind_r (WireConfig_validate (config_wire c)) (\<lambda>_. NoiseConfig_validate (config_noise c))"

section \<open>Facts about the checks\<close>

lemma check_range_ok_iff: "check_range f v (mn, mx) = Inr () \<longleftrightarrow> mn \<le> v \<and> v \<le> mx"
  by simp

lemma check_range_report:
  "check_range f v b = Inl (OutOfRange g mn mx w) \<Longrightarrow>
     g = f \<and> w = v \<and> b = (mn, mx) \<and> \<not> (mn \<le> w \<and> w \<le> mx)"
  by (cases b) (auto split: if_splits)

lemma check_connect_timeout_ok_iff:
  "check_connect_timeout_ms v = Inr () \<longleftrightarrow> v = 0 \<or> (1000 \<le> v \<and> v \<le> 120000)"
  by (simp add: check_connect_timeout_ms_def CONNECT_TIMEOUT_MS_BOUNDS_def)

lemma check_connect_timeout_report:
  "check_connect_timeout_ms v = Inl (OutOfRange g mn mx w) \<Longrightarrow>
     g = ''wire.connect_timeout_ms'' \<and> mn = 1000 \<and> mx = 120000 \<and> w = v \<and> \<not> (mn \<le> w \<and> w \<le> mx)"
  by (auto simp: check_connect_timeout_ms_def CONNECT_TIMEOUT_MS_BOUNDS_def usize_or_max_def
      usize_try_from_def split: if_splits)

text \<open>The documented ranges, as one predicate per struct.\<close>

definition wire_in_range :: "WireConfig \<Rightarrow> bool" where
  "wire_in_range c \<longleftrightarrow>
     1024 \<le> unat (max_header_bytes c) \<and> unat (max_header_bytes c) \<le> 65536
     \<and> 1 \<le> unat (key_response_body_multiplier c) \<and> unat (key_response_body_multiplier c) \<le> 16
     \<and> 64 \<le> unat (header_read_initial_capacity c)
     \<and> unat (header_read_initial_capacity c) \<le> unat (max_header_bytes c)
     \<and> 512 \<le> unat (response_read_chunk_bytes c) \<and> unat (response_read_chunk_bytes c) \<le> 65536
     \<and> (unat (connect_timeout_ms c) = 0
         \<or> (1000 \<le> unat (connect_timeout_ms c) \<and> unat (connect_timeout_ms c) \<le> 120000))"

definition noise_in_range :: "NoiseConfig \<Rightarrow> bool" where
  "noise_in_range c \<longleftrightarrow>
     256 \<le> unat (max_frame_payload c) \<and> unat (max_frame_payload c) \<le> 65519
     \<and> 128 \<le> unat (handshake_scratch_bytes c) \<and> unat (handshake_scratch_bytes c) \<le> 4096"

lemma wire_validate_words:
  "WireConfig_validate c = Inr () \<longleftrightarrow>
     1024 \<le> max_header_bytes c \<and> max_header_bytes c \<le> 65536
     \<and> 1 \<le> key_response_body_multiplier c \<and> key_response_body_multiplier c \<le> 16
     \<and> 64 \<le> header_read_initial_capacity c
     \<and> header_read_initial_capacity c \<le> max_header_bytes c
     \<and> 512 \<le> response_read_chunk_bytes c \<and> response_read_chunk_bytes c \<le> 65536
     \<and> (connect_timeout_ms c = 0
         \<or> (1000 \<le> connect_timeout_ms c \<and> connect_timeout_ms c \<le> 120000))"
  by (simp only: WireConfig_validate_def bind_r_Inr_iff ex_simps config_constants
      check_range_ok_iff check_connect_timeout_ok_iff unit_eq conj_assoc simp_thms) auto

lemma wire_validate_iff: "WireConfig_validate c = Inr () \<longleftrightarrow> wire_in_range c"
  by (simp add: wire_validate_words wire_in_range_def word_le_nat_alt word_unat_eq_iff)

lemma noise_validate_iff: "NoiseConfig_validate c = Inr () \<longleftrightarrow> noise_in_range c"
proof -
  have "NoiseConfig_validate c = Inr () \<longleftrightarrow>
      256 \<le> max_frame_payload c \<and> max_frame_payload c \<le> 65519
      \<and> 128 \<le> handshake_scratch_bytes c \<and> handshake_scratch_bytes c \<le> 4096"
    by (auto simp: NoiseConfig_validate_def bind_r_Inr_iff config_constants)
  then show ?thesis
    by (simp add: noise_in_range_def word_le_nat_alt)
qed

text \<open>
  The contract of a struct that is deserialized through a mirror of raw fields: the conversion
  builds the struct and lets it through only when its own check accepts it.
\<close>

locale validated_struct =
  fixes check :: "'c \<Rightarrow> (ConfigError, unit) result"
    and build :: "'f \<Rightarrow> 'c"
    and convert :: "'f \<Rightarrow> (ConfigError, 'c) result"
    and in_range :: "'c \<Rightarrow> bool"
  assumes convert_eq: "convert f = bind_r (check (build f)) (\<lambda>_. Inr (build f))"
    and check_iff: "check c = Inr () \<longleftrightarrow> in_range c"
begin

lemma convert_Inr_iff: "convert f = Inr c \<longleftrightarrow> c = build f \<and> in_range c"
  using check_iff [of "build f"] by (auto simp: convert_eq bind_r_Inr_iff)

lemma convert_Inl_iff: "convert f = Inl e \<longleftrightarrow> check (build f) = Inl e"
  by (auto simp: convert_eq bind_r_Inl_iff)

end

interpretation wire_struct: validated_struct WireConfig_validate WireConfig_of_fields
  WireConfig_try_from wire_in_range
  by unfold_locales (simp_all add: WireConfig_try_from_def Let_def wire_validate_iff)

interpretation noise_struct: validated_struct NoiseConfig_validate NoiseConfig_of_fields
  NoiseConfig_try_from noise_in_range
  by unfold_locales (simp_all add: NoiseConfig_try_from_def Let_def noise_validate_iff)

lemma unat_saturating_mul: "unat (saturating_mul a b) = min (unat a * unat b) (2 ^ 64 - 1)"
proof (cases "unat a * unat b < 2 ^ 64")
  case True
  then have "unat (a * b) = unat a * unat b"
    by (simp add: unat_word_ariths)
  with True show ?thesis
    by (simp add: saturating_mul_def)
next
  case False
  then show ?thesis
    by (simp add: saturating_mul_def unsigned_minus_1_eq_mask mask_eq_exp_minus_1)
qed

section \<open>Properties\<close>

text \<open>The documented ranges in declaration order: field name, value, minimum, maximum.\<close>

definition documented_ranges :: "HammaConfig \<Rightarrow> (string \<times> usize \<times> usize \<times> usize) list" where
  "documented_ranges c =
     [(''wire.max_header_bytes'', max_header_bytes (config_wire c), 1024, 65536),
      (''wire.key_response_body_multiplier'', key_response_body_multiplier (config_wire c), 1, 16),
      (''wire.header_read_initial_capacity'', header_read_initial_capacity (config_wire c), 64,
         max_header_bytes (config_wire c)),
      (''wire.response_read_chunk_bytes'', response_read_chunk_bytes (config_wire c), 512, 65536),
      (''wire.connect_timeout_ms'', connect_timeout_ms (config_wire c), 1000, 120000),
      (''noise.max_frame_payload'', max_frame_payload (config_noise c), 256, 65519),
      (''noise.handshake_scratch_bytes'', handshake_scratch_bytes (config_noise c), 128, 4096)]"

definition range_violated :: "string \<times> usize \<times> usize \<times> usize \<Rightarrow> bool" where
  "range_violated = (\<lambda>(f, v, mn, mx).
     \<not> (mn \<le> v \<and> v \<le> mx) \<and> \<not> (f = ''wire.connect_timeout_ms'' \<and> v = 0))"

definition first_violation :: "(string \<times> usize \<times> usize \<times> usize) list \<Rightarrow> (ConfigError, unit) result" where
  "first_violation rs =
     (case find range_violated rs of
        None \<Rightarrow> Inr ()
      | Some (f, v, mn, mx) \<Rightarrow> Inl (OutOfRange f mn mx v))"

lemma first_violation_Cons:
  "f \<noteq> ''wire.connect_timeout_ms'' \<Longrightarrow>
     first_violation ((f, v, mn, mx) # rs) =
       bind_r (check_range f v (mn, mx)) (\<lambda>_. first_violation rs)"
  by (simp add: first_violation_def range_violated_def)

lemma first_violation_timeout:
  "first_violation ((''wire.connect_timeout_ms'', v, 1000, 120000) # rs) =
     bind_r (check_connect_timeout_ms v) (\<lambda>_. first_violation rs)"
  by (simp add: first_violation_def range_violated_def check_connect_timeout_ms_def
      CONNECT_TIMEOUT_MS_BOUNDS_def usize_or_max_def usize_try_from_def)

lemma first_violation_Nil: "first_violation [] = Inr ()"
  by (simp add: first_violation_def)

text \<open>
  Claim C37. The top-level check reports exactly the first field, in declaration order, whose
  value lies outside its documented inclusive range, with that range and that value; a connect
  timeout of zero is exempt; when no field violates its range the check succeeds.
\<close>

theorem config_validate_first_violation:
  "Config_validate c = first_violation (documented_ranges c)"
  by (simp only: Config_validate_def WireConfig_validate_def NoiseConfig_validate_def
      documented_ranges_def config_constants bind_r_assoc)
     (simp add: first_violation_Cons first_violation_timeout first_violation_Nil bind_r_Inr
      del: check_range.simps)

text \<open>
  Deserialization yields a configuration only when every field lies in its documented
  range, and then exactly the configuration with the given fields; both conversions agree with
  the check of the top-level struct.
\<close>

lemma config_try_from_validated:
  "(WireConfig_try_from fw = Inr w \<and> NoiseConfig_try_from fn = Inr n) \<longleftrightarrow>
     (w = WireConfig_of_fields fw \<and> n = NoiseConfig_of_fields fn
       \<and> Config_validate \<lparr> config_wire = w, config_noise = n \<rparr> = Inr ())"
  by (auto simp: wire_struct.convert_Inr_iff noise_struct.convert_Inr_iff Config_validate_def
      bind_r_Inr_iff wire_validate_iff noise_validate_iff)

lemma key_response_max_value:
  assumes "wire_in_range c"
  shows "unat (key_response_max_bytes c) = unat (max_header_bytes c) * unat (key_response_body_multiplier c)"
    and "1024 \<le> unat (key_response_max_bytes c)" and "unat (key_response_max_bytes c) \<le> 1048576"
proof -
  define h m where "h = unat (max_header_bytes c)" and "m = unat (key_response_body_multiplier c)"
  have b: "1024 \<le> h" "h \<le> 65536" "1 \<le> m" "m \<le> 16"
    using assms by (simp_all add: wire_in_range_def h_def m_def)
  have p: "h * m \<le> 65536 * 16" "1024 * 1 \<le> h * m"
    using b by (intro mult_le_mono; simp)+
  then show "unat (key_response_max_bytes c) = unat (max_header_bytes c) * unat (key_response_body_multiplier c)"
    by (simp add: key_response_max_bytes_def unat_saturating_mul h_def [symmetric] m_def [symmetric])
  with p show "1024 \<le> unat (key_response_max_bytes c)" "unat (key_response_max_bytes c) \<le> 1048576"
    by (simp_all add: h_def [symmetric] m_def [symmetric])
qed

lemma wire_default_valid: "WireConfig_validate WireConfig_default = Inr ()"
  by (simp add: wire_validate_words WireConfig_default_def config_constants)

text \<open>
  For a validated configuration the cap on the key response is the true product of the
  header cap and the multiplier: the saturating multiplication never saturates, and the cap is
  at most one mebibyte and at least one kibibyte.
\<close>

lemma key_response_cap_exact:
  assumes "WireConfig_validate c = Inr ()"
  shows "unat (key_response_max_bytes c) =
           unat (max_header_bytes c) * unat (key_response_body_multiplier c)
         \<and> 1024 \<le> unat (key_response_max_bytes c) \<and> unat (key_response_max_bytes c) \<le> 1048576"
  using assms key_response_max_value [of c] by (simp add: wire_validate_iff)

end
