(* ===== verification/Noise.thy ===== *)
theory Noise
  imports Keys Capability Config
begin

text \<open>
  The Noise IK handshake and transport of \<^verbatim>\<open>crates/dictyon/src/noise/mod.rs\<close>: the initiator's
  state machine, the framing of its two messages, and the framing of transport messages. The
  cryptography is the \<^verbatim>\<open>snow\<close> crate, which the repository only calls: its functions are the
  fields of the record \<open>Snow_lib\<close>, an argument of every operation, and what the code relies on
  is stated by the predicates \<open>seals\<close> and \<open>session_pair\<close>.
\<close>

section \<open>The cryptographic library\<close>

text \<open>
  \<open>'h\<close> is \<^verbatim>\<open>HandshakeState\<close>, \<open>'t\<close> is \<^verbatim>\<open>TransportState\<close>, \<open>'e\<close> is \<^verbatim>\<open>snow::Error\<close>. A
  function that takes \<^verbatim>\<open>&mut self\<close> returns the new state; one that fills a buffer gets the
  buffer's length and returns the bytes it wrote at the front of it.
\<close>

record ('h, 't, 'e) Snow_lib =
  snow_initiator :: "string \<Rightarrow> bytes \<Rightarrow> bytes \<Rightarrow> bytes \<Rightarrow> ('e, 'h) result"
  snow_hs_write :: "'h \<Rightarrow> bytes \<Rightarrow> nat \<Rightarrow> ('e, bytes) result \<times> 'h"
  snow_hs_read :: "'h \<Rightarrow> bytes \<Rightarrow> nat \<Rightarrow> ('e, bytes) result \<times> 'h"
  snow_into_transport :: "'h \<Rightarrow> ('e, 't) result"
  snow_t_write :: "'t \<Rightarrow> bytes \<Rightarrow> nat \<Rightarrow> ('e, bytes) result \<times> 't"
  snow_t_read :: "'t \<Rightarrow> bytes \<Rightarrow> nat \<Rightarrow> ('e, bytes) result \<times> 't"
  snow_display :: "'e \<Rightarrow> string"

text \<open>\<open>Builder::write_message\<close> of a transport appends the 16-byte Poly1305 tag.\<close>

definition seals :: "('h, 't, 'e, 'x) Snow_lib_scheme \<Rightarrow> bool" where
  "seals sn \<longleftrightarrow>
     (\<forall>t pt n ct t'. snow_t_write sn t pt n = (Inr ct, t') \<longrightarrow> length ct = length pt + 16)"

text \<open>Two transports are in step (\<open>R\<close>): what one seals, the other opens, and they stay in step.\<close>

definition session_pair :: "('h, 't, 'e, 'x) Snow_lib_scheme \<Rightarrow> ('t \<Rightarrow> 't \<Rightarrow> bool) \<Rightarrow> bool" where
  "session_pair sn R \<longleftrightarrow>
     (\<forall>t u pt n ct t'. R t u \<longrightarrow> snow_t_write sn t pt n = (Inr ct, t') \<longrightarrow>
        (\<exists>u'. snow_t_read sn u ct (length ct) = (Inr pt, u') \<and> R t' u'))"

section \<open>Constants and errors\<close>

definition NOISE_PARAMS :: string where
  "NOISE_PARAMS = ''Noise_IK_25519_ChaChaPoly_BLAKE2s''"

definition MSG_TYPE_INITIATION :: u8 where
  "MSG_TYPE_INITIATION = 0x01"

definition MSG_TYPE_RESPONSE :: u8 where
  "MSG_TYPE_RESPONSE = 0x02"

definition MSG_TYPE_TRANSPORT :: u8 where
  "MSG_TYPE_TRANSPORT = 0x04"

definition TAG_LEN :: nat where
  "TAG_LEN = 16"

definition prologue :: bytes where
  "prologue = as_bytes (''Tailscale Control Protocol v'' @ version_fmt CAPABILITY_VERSION)"

datatype 'e NoiseError =
    HandshakeFailed string
  | DecryptionFailed string
  | FrameTooLarge string
  | InvalidState string
  | Snow 'e

section \<open>The handshake\<close>

datatype 'h HandshakePhase =
    Ready MachinePrivate MachinePublic
  | AwaitingResponse 'h
  | Completed

record 'h NoiseHandshake =
  hs_state :: "'h HandshakePhase"
  hs_config :: NoiseConfig

record 't NoiseTransport =
  transport :: 't
  nt_config :: NoiseConfig

definition NoiseHandshake_with_config ::
  "MachinePrivate \<Rightarrow> MachinePublic \<Rightarrow> NoiseConfig \<Rightarrow> 'h NoiseHandshake" where
  "NoiseHandshake_with_config machine_key server_public config =
     \<lparr> hs_state = Ready machine_key server_public, hs_config = config \<rparr>"

definition NoiseHandshake_new :: "MachinePrivate \<Rightarrow> MachinePublic \<Rightarrow> 'h NoiseHandshake" where
  "NoiseHandshake_new machine_key server_public =
     NoiseHandshake_with_config machine_key server_public NoiseConfig_default"

text \<open>The state is replaced by \<^verbatim>\<open>Completed\<close> before anything else happens and set to
  \<^verbatim>\<open>AwaitingResponse\<close> only at the end, so every early return leaves \<^verbatim>\<open>Completed\<close> behind.\<close>

definition initiation_message ::
  "('h, 't, 'e, 'x) Snow_lib_scheme \<Rightarrow> 'h NoiseHandshake
     \<Rightarrow> ('e NoiseError, bytes) result \<times> 'h NoiseHandshake" where
  "initiation_message sn self =
     (let done = self\<lparr> hs_state := Completed \<rparr> in
      case hs_state self of
        AwaitingResponse _ \<Rightarrow> (Inl (InvalidState ''initiation already generated''), done)
      | Completed \<Rightarrow> (Inl (InvalidState ''initiation already generated''), done)
      | Ready machine_key server_public \<Rightarrow>
          (case snow_initiator sn NOISE_PARAMS (machine_private_bytes machine_key)
                  (machine_public_bytes server_public) prologue of
             Inl e \<Rightarrow> (Inl (Snow e), done)
           | Inr handshake \<Rightarrow>
               (case snow_hs_write sn handshake [] (unat (handshake_scratch_bytes (hs_config self))) of
                  (Inl e, _) \<Rightarrow> (Inl (Snow e), done)
                | (Inr noise_msg, handshake') \<Rightarrow>
                    (case u16_try_from (length noise_msg) of
                       None \<Rightarrow> (Inl (HandshakeFailed ''initiation message too large''), done)
                     | Some payload_len \<Rightarrow>
                         (Inr (version_to_be_bytes CAPABILITY_VERSION @ [MSG_TYPE_INITIATION]
                                 @ u16_to_be_bytes payload_len @ noise_msg),
                          self\<lparr> hs_state := AwaitingResponse handshake' \<rparr>)))))"

text \<open>The part of \<^verbatim>\<open>process_response\<close> after the state has been taken apart.\<close>

definition response_payload :: "bytes \<Rightarrow> ('e NoiseError, bytes) result" where
  "response_payload response =
     (case get_to response 3 of
        Some [msg_type, len_hi, len_lo] \<Rightarrow>
          if msg_type \<noteq> MSG_TYPE_RESPONSE
          then Inl (HandshakeFailed (''unexpected message type: 0x'' @ hex_encode [msg_type]))
          else let payload_len = unat (u16_from_be_bytes len_hi len_lo) in
            ok_or (get_range response 3 (3 + payload_len))
              (HandshakeFailed ''response payload truncated'')
      | _ \<Rightarrow> Inl (HandshakeFailed ''response too short''))"

definition finish_handshake ::
  "('h, 't, 'e, 'x) Snow_lib_scheme \<Rightarrow> NoiseConfig \<Rightarrow> 'h \<Rightarrow> bytes
     \<Rightarrow> ('e NoiseError, 't NoiseTransport) result" where
  "finish_handshake sn config handshake noise_msg =
     (case snow_hs_read sn handshake noise_msg (unat (handshake_scratch_bytes config)) of
        (Inl e, _) \<Rightarrow> Inl (Snow e)
      | (Inr _, handshake') \<Rightarrow>
          (case snow_into_transport sn handshake' of
             Inl e \<Rightarrow> Inl (Snow e)
           | Inr t \<Rightarrow> Inr \<lparr> transport = t, nt_config = config \<rparr>))"

definition process_response ::
  "('h, 't, 'e, 'x) Snow_lib_scheme \<Rightarrow> 'h NoiseHandshake \<Rightarrow> bytes
     \<Rightarrow> ('e NoiseError, 't NoiseTransport) result" where
  "process_response sn self response =
     (case hs_state self of
        Ready _ _ \<Rightarrow> Inl (InvalidState ''initiation not yet sent'')
      | Completed \<Rightarrow> Inl (InvalidState ''handshake already completed'')
      | AwaitingResponse handshake \<Rightarrow>
          bind_r (response_payload response) (finish_handshake sn (hs_config self) handshake))"

section \<open>The transport\<close>

definition encrypt ::
  "('h, 't, 'e, 'x) Snow_lib_scheme \<Rightarrow> 't NoiseTransport \<Rightarrow> bytes
     \<Rightarrow> ('e NoiseError, bytes) result \<times> 't NoiseTransport" where
  "encrypt sn self plaintext =
     (let max_payload = unat (max_frame_payload (nt_config self)) in
      if max_payload < length plaintext
      then (Inl (FrameTooLarge (''payload too large: '' @ show_nat (length plaintext) @ '' > ''
                   @ show_nat max_payload)), self)
      else
        (case snow_t_write sn (transport self) plaintext (length plaintext + TAG_LEN) of
           (Inl e, t) \<Rightarrow> (Inl (Snow e), self\<lparr> transport := t \<rparr>)
         | (Inr ciphertext, t) \<Rightarrow>
             (case u16_try_from (length ciphertext) of
                None \<Rightarrow> (Inl (FrameTooLarge ''ciphertext too large for frame''), self\<lparr> transport := t \<rparr>)
              | Some frame_len \<Rightarrow>
                  (Inr ([MSG_TYPE_TRANSPORT] @ u16_to_be_bytes frame_len @ ciphertext),
                   self\<lparr> transport := t \<rparr>))))"

definition decrypt ::
  "('h, 't, 'e, 'x) Snow_lib_scheme \<Rightarrow> 't NoiseTransport \<Rightarrow> bytes
     \<Rightarrow> ('e NoiseError, bytes) result \<times> 't NoiseTransport" where
  "decrypt sn self ciphertext =
     (if length ciphertext < TAG_LEN
      then (Inl (DecryptionFailed ''ciphertext too short for authentication tag''), self)
      else
        (case snow_t_read sn (transport self) ciphertext (length ciphertext) of
           (Inl e, t) \<Rightarrow> (Inl (DecryptionFailed (snow_display sn e)), self\<lparr> transport := t \<rparr>)
         | (Inr plaintext, t) \<Rightarrow> (Inr plaintext, self\<lparr> transport := t \<rparr>)))"

definition NoiseTransport_from_snow_with_config :: "'t \<Rightarrow> NoiseConfig \<Rightarrow> 't NoiseTransport" where
  "NoiseTransport_from_snow_with_config t config = \<lparr> transport = t, nt_config = config \<rparr>"

definition NoiseTransport_from_snow :: "'t \<Rightarrow> 't NoiseTransport" where
  "NoiseTransport_from_snow t = \<lparr> transport = t, nt_config = NoiseConfig_default \<rparr>"

section \<open>Frames\<close>

lemma u16_try_from_length:
  "length xs < 65536 \<Longrightarrow> u16_try_from (length xs) = Some (of_nat (length xs))"
  by (simp add: u16_try_from_def)

lemma be16_enc_u16: "u16_try_from n = Some w \<Longrightarrow> u16_to_be_bytes w = be16_enc n"
  by (auto simp: u16_try_from_def be16_enc_def split: if_splits)

text \<open>The two outcomes of a transport write, with the frame it produces.\<close>

lemma encrypt_Inr:
  assumes "encrypt sn nt pt = (Inr frame, nt')"
  obtains ct t' where
    "snow_t_write sn (transport nt) pt (length pt + TAG_LEN) = (Inr ct, t')"
    "nt' = nt\<lparr> transport := t' \<rparr>" "length ct < 65536"
    "frame = MSG_TYPE_TRANSPORT # be16_enc (length ct) @ ct"
    "length pt \<le> unat (max_frame_payload (nt_config nt))"
proof -
  obtain r t' where w: "snow_t_write sn (transport nt) pt (length pt + TAG_LEN) = (r, t')"
    by fastforce
  with assms obtain ct where "r = Inr ct"
    by (cases r) (auto simp: encrypt_def Let_def split: if_splits)
  with assms w show thesis
    by (intro that [of ct t'])
       (auto simp: encrypt_def Let_def be16_enc_def u16_try_from_def split: if_splits)
qed

lemma response_payload_frame:
  assumes "length msg < 65536"
  shows "response_payload (MSG_TYPE_RESPONSE # be16_enc (length msg) @ msg @ rest) = Inr msg"
proof -
  obtain hi lo where e: "be16_enc (length msg) = [hi, lo]"
    and v: "unat (u16_from_be_bytes hi lo) = length msg"
    using be16_enc_pair [of "length msg" thesis] assms by blast
  have "get_to ([MSG_TYPE_RESPONSE, hi, lo] @ msg @ rest) 3 = Some [MSG_TYPE_RESPONSE, hi, lo]"
    by (rule get_to_append) simp
  moreover have "get_range ([MSG_TYPE_RESPONSE, hi, lo] @ msg @ rest) 3 (3 + length msg) = Some msg"
    by (rule get_range_append) simp_all
  ultimately show ?thesis
    by (simp add: response_payload_def e v Let_def)
qed

lemma response_payload_Inr:
  assumes "response_payload response = Inr msg"
  shows "\<exists>rest. response = MSG_TYPE_RESPONSE # be16_enc (length msg) @ msg @ rest \<and> length msg < 65536"
proof -
  obtain hi lo tail where r: "response = MSG_TYPE_RESPONSE # hi # lo # tail"
    and g: "get_range response 3 (3 + unat (u16_from_be_bytes hi lo)) = Some msg"
  proof (cases "get_to response 3")
    case None
    with assms show thesis
      by (simp add: response_payload_def)
  next
    case (Some h)
    then have h: "h = take 3 response" "length h = 3"
      by (auto simp: get_to_Some_iff)
    obtain a hi lo where a: "h = [a, hi, lo]"
      using h(2) by (auto simp: numeral_eq_Suc length_Suc_conv)
    then have "response = a # hi # lo # drop 3 response"
      using h by (metis append_Cons append_Nil append_take_drop_id)
    with assms Some a show thesis
      by (intro that [of hi lo "drop 3 response"])
         (auto simp: response_payload_def Let_def ok_or_Inr_iff split: if_splits)
  qed
  define n where "n = unat (u16_from_be_bytes hi lo)"
  have n: "n < 65536"
    unfolding n_def by (rule unat_u16_lt)
  have m: "msg = take n tail" "n \<le> length tail"
    using g by (auto simp: r get_range_def n_def [symmetric] split: if_splits)
  have "be16_enc n = [hi, lo]"
    unfolding n_def by (rule be16_enc_dec)
  with m n show ?thesis
    by (intro exI [of _ "drop n tail"]) (simp add: r min_def)
qed

section \<open>The initiator as a state machine\<close>

text \<open>
  A session starts as an initiator. Each event is one call with its outcome; \<^verbatim>\<open>process_response\<close>
  consumes the initiator, so a failed one ends the session.
\<close>

datatype ('h, 't) session =
    Initiator "'h NoiseHandshake"
  | Open "'t NoiseTransport"
  | Closed

datatype 'e hs_event =
    Initiated bytes
  | InitiationFailed "'e NoiseError"
  | Established bytes
  | ResponseFailed bytes "'e NoiseError"

inductive hs_step ::
  "('h, 't, 'e, 'x) Snow_lib_scheme \<Rightarrow> ('h, 't) session \<Rightarrow> 'e hs_event \<Rightarrow> ('h, 't) session \<Rightarrow> bool"
  for sn where
  init_ok: "initiation_message sn h = (Inr m, h') \<Longrightarrow> hs_step sn (Initiator h) (Initiated m) (Initiator h')"
| init_err: "initiation_message sn h = (Inl e, h') \<Longrightarrow>
    hs_step sn (Initiator h) (InitiationFailed e) (Initiator h')"
| resp_ok: "process_response sn h r = Inr t \<Longrightarrow> hs_step sn (Initiator h) (Established r) (Open t)"
| resp_err: "process_response sn h r = Inl e \<Longrightarrow> hs_step sn (Initiator h) (ResponseFailed r e) Closed"

inductive hs_run ::
  "('h, 't, 'e, 'x) Snow_lib_scheme \<Rightarrow> ('h, 't) session \<Rightarrow> 'e hs_event list \<Rightarrow> ('h, 't) session \<Rightarrow> bool"
  for sn where
  run_nil: "hs_run sn s [] s"
| run_cons: "hs_step sn s ev s' \<Longrightarrow> hs_run sn s' evs s'' \<Longrightarrow> hs_run sn s (ev # evs) s''"

inductive_cases hs_step_initiatorE: "hs_step sn (Initiator h) ev s'"
inductive_cases hs_step_openE: "hs_step sn (Open t) ev s'"
inductive_cases hs_step_closedE: "hs_step sn Closed ev s'"
inductive_cases hs_run_nilE: "hs_run sn s [] s'"
inductive_cases hs_run_consE: "hs_run sn s (ev # evs) s'"
inductive_simps hs_run_simps: "hs_run sn s [] s'" "hs_run sn s (ev # evs) s'"

lemma initiation_message_phase:
  "initiation_message sn h = (Inr m, h') \<Longrightarrow> \<exists>k p. hs_state h = Ready k p"
  "initiation_message sn h = (Inr m, h') \<Longrightarrow> \<exists>hs. hs_state h' = AwaitingResponse hs"
  "initiation_message sn h = (Inl e, h') \<Longrightarrow> hs_state h' = Completed"
  by (auto simp: initiation_message_def Let_def split: HandshakePhase.splits sum.splits option.splits
      prod.splits)

lemma process_response_phase:
  "process_response sn h r = Inr t \<Longrightarrow> \<exists>hs. hs_state h = AwaitingResponse hs"
  by (auto simp: process_response_def split: HandshakePhase.splits)

text \<open>From the terminal states nothing more happens, and a \<^verbatim>\<open>Completed\<close> initiator never opens.\<close>

lemma run_from_open: "hs_run sn (Open t) evs s \<Longrightarrow> evs = [] \<and> s = Open t"
  by (erule hs_run.cases) (auto elim: hs_step_openE)

lemma run_from_closed: "hs_run sn Closed evs s \<Longrightarrow> evs = [] \<and> s = Closed"
  by (erule hs_run.cases) (auto elim: hs_step_closedE)

lemma run_from_completed:
  "hs_run sn (Initiator h) evs s \<Longrightarrow> hs_state h = Completed \<Longrightarrow>
     s = Closed \<or> (\<exists>h'. s = Initiator h' \<and> hs_state h' = Completed)"
proof (induction evs arbitrary: h)
  case Nil
  then show ?case
    by (auto elim: hs_run_nilE)
next
  case (Cons ev evs)
  then show ?case
    by (auto elim!: hs_run_consE hs_step_initiatorE dest!: run_from_closed
        dest: initiation_message_phase process_response_phase)
qed

lemma run_from_awaiting:
  assumes "hs_run sn (Initiator h) evs (Open t)" and "\<exists>hs. hs_state h = AwaitingResponse hs"
  shows "\<exists>r. evs = [Established r] \<and> process_response sn h r = Inr t"
proof (cases evs)
  case Nil
  with assms show ?thesis
    by (auto elim: hs_run_nilE)
next
  case (Cons ev evs')
  with assms obtain s' where "hs_step sn (Initiator h) ev s'" "hs_run sn s' evs' (Open t)"
    by (auto elim: hs_run_consE)
  with assms(2) Cons show ?thesis
    by (auto elim!: hs_step_initiatorE dest: initiation_message_phase run_from_completed
        run_from_open run_from_closed)
qed

section \<open>A mock library\<close>

text \<open>
  An instance of the parameter on which the hypotheses of the properties hold: messages are sent
  in the clear with a 16-byte counter as their tag.
\<close>

definition mock_snow :: "(unit, nat, unit) Snow_lib" where
  "mock_snow =
     \<lparr> snow_initiator = (\<lambda>_ _ _ _. Inr ()),
       snow_hs_write = (\<lambda>h _ n. (if 96 \<le> n then Inr (replicate 96 0) else Inl (), h)),
       snow_hs_read = (\<lambda>h _ _. (Inr [], h)),
       snow_into_transport = (\<lambda>_. Inr 0),
       snow_t_write = (\<lambda>t pt n.
         if length pt + 16 \<le> n then (Inr (pt @ replicate 16 (of_nat t)), Suc t) else (Inl (), t)),
       snow_t_read = (\<lambda>t ct n.
         let k = length ct - 16 in
         if 16 \<le> length ct \<and> drop k ct = replicate 16 (of_nat t)
         then (Inr (take k ct), Suc t) else (Inl (), t)),
       snow_display = (\<lambda>_. ''mock'') \<rparr>"

lemma mock_seals: "seals mock_snow"
  by (auto simp: seals_def mock_snow_def split: if_splits)

lemma mock_session_pair: "session_pair mock_snow (=)"
  by (auto simp: session_pair_def mock_snow_def Let_def split: if_splits)

definition mock_handshake :: "unit NoiseHandshake" where
  "mock_handshake =
     NoiseHandshake_new (MachinePrivate (replicate 32 1)) (MachinePublic (replicate 32 2))"

definition mock_initiation :: bytes where
  "mock_initiation = [0x00, 0x47, 0x01, 0x00, 0x60] @ replicate 96 0"

lemma mock_initiation_message:
  "initiation_message mock_snow mock_handshake
     = (Inr mock_initiation, mock_handshake\<lparr> hs_state := AwaitingResponse () \<rparr>)"
  by (simp add: initiation_message_def mock_handshake_def NoiseHandshake_new_def
      NoiseHandshake_with_config_def NoiseConfig_default_def config_constants mock_snow_def
      mock_initiation_def u16_try_from_def CAPABILITY_VERSION_def u16_to_be_bytes_def
      MSG_TYPE_INITIATION_def)

lemma mock_process_response:
  "process_response mock_snow (mock_handshake\<lparr> hs_state := AwaitingResponse () \<rparr>) [0x02, 0x00, 0x01, 0x09]
     = Inr (NoiseTransport_from_snow 0)"
  by (simp add: process_response_def response_payload_def finish_handshake_def mock_handshake_def
      NoiseHandshake_new_def NoiseHandshake_with_config_def mock_snow_def NoiseTransport_from_snow_def
      get_to_def get_range_def MSG_TYPE_RESPONSE_def u16_from_be_bytes_def)

section \<open>Properties\<close>

text \<open>
  Claim C19. The only way to an open transport: for every library, every key pair and every
  sequence of calls, the session opens exactly when the calls were one successful
  \<^verbatim>\<open>initiation_message\<close> followed at once by one successful \<^verbatim>\<open>process_response\<close>. No retry after
  a failure, no second initiation and no response before the initiation ever leads to a transport.
\<close>

theorem handshake_opens_exactly_once:
  "hs_run sn (Initiator (NoiseHandshake_with_config k p c)) evs (Open t) \<longleftrightarrow>
     (\<exists>m h r. evs = [Initiated m, Established r]
        \<and> initiation_message sn (NoiseHandshake_with_config k p c) = (Inr m, h)
        \<and> process_response sn h r = Inr t)"
  (is "?lhs \<longleftrightarrow> ?rhs")
proof
  assume ?lhs
  then show ?rhs
  proof (cases evs)
    case Nil
    with \<open>?lhs\<close> show ?thesis
      by (auto elim: hs_run_nilE)
  next
    case (Cons ev evs')
    with \<open>?lhs\<close> obtain s' where s': "hs_step sn (Initiator (NoiseHandshake_with_config k p c)) ev s'"
      "hs_run sn s' evs' (Open t)"
      by (auto elim: hs_run_consE)
    have ready: "hs_state (NoiseHandshake_with_config k p c :: 'a NoiseHandshake) = Ready k p"
      by (simp add: NoiseHandshake_with_config_def)
    obtain m h where m: "initiation_message sn (NoiseHandshake_with_config k p c) = (Inr m, h)"
      "ev = Initiated m" "hs_run sn (Initiator h) evs' (Open t)"
      using s' by (auto elim!: hs_step_initiatorE simp: ready
          dest!: process_response_phase run_from_closed
          dest: initiation_message_phase(3) run_from_completed)
    obtain r where "evs' = [Established r]" "process_response sn h r = Inr t"
      using run_from_awaiting [OF m(3)] initiation_message_phase(2) [OF m(1)] by auto
    with Cons m show ?thesis
      by auto
  qed
next
  assume ?rhs
  then show ?lhs
    by (auto intro!: hs_run.intros intro: hs_step.intros)
qed

text \<open>
  The initiation frame: the capability version 71 big endian, the type byte, the length
  of the Noise message big endian and the message itself; and the initiator then awaits the
  response. A reader that decodes the two length bytes gets the message's length back.
\<close>

lemma initiation_frame:
  assumes "initiation_message sn h = (Inr m, h')"
  shows "\<exists>noise_msg handshake. m = [0x00, 0x47, 0x01] @ be16_enc (length noise_msg) @ noise_msg
    \<and> be16_dec (take 2 (drop 3 m)) = length noise_msg
    \<and> h' = h\<lparr> hs_state := AwaitingResponse handshake \<rparr>"
proof -
  obtain noise_msg handshake w where w: "u16_try_from (length noise_msg) = Some w"
    and m: "m = version_to_be_bytes CAPABILITY_VERSION @ [MSG_TYPE_INITIATION] @ u16_to_be_bytes w @ noise_msg"
    and h': "h' = h\<lparr> hs_state := AwaitingResponse handshake \<rparr>"
    using assms by (auto simp: initiation_message_def Let_def
        split: HandshakePhase.splits sum.splits option.splits prod.splits)
  have "length noise_msg < 65536"
    using w by (simp add: u16_try_from_Some_iff)
  then have "be16_dec (be16_enc (length noise_msg)) = length noise_msg"
    by (rule be16_dec_enc)
  moreover have "version_to_be_bytes CAPABILITY_VERSION = [0x00, 0x47]"
    by (simp add: CAPABILITY_VERSION_def u16_to_be_bytes_def)
  ultimately show ?thesis
    by (intro exI [of _ noise_msg] exI [of _ handshake])
       (simp add: m h' MSG_TYPE_INITIATION_def be16_enc_u16 [OF w])
qed

text \<open>
  The accepted responses: the handshake layer hands a Noise message to the library
  exactly when the response is the type byte 2, a big-endian length and at least that many bytes;
  it hands over those bytes and ignores what follows them.
\<close>

lemma response_language:
  "response_payload response = (Inr msg :: ('e NoiseError, bytes) result) \<longleftrightarrow>
     (\<exists>rest. response = 0x02 # be16_enc (length msg) @ msg @ rest \<and> length msg < 65536)"
  using response_payload_frame [of msg] response_payload_Inr [of response msg]
  by (auto simp: MSG_TYPE_RESPONSE_def)

text \<open>
  Claim C31. With a validated configuration and a library that appends a 16-byte tag, sealing never
  fails for the size of its ciphertext: a plaintext within the configured payload either gets an
  error of the library or a frame of the type byte 4, the big-endian length of plaintext and tag,
  and the ciphertext, of at most 65538 bytes; a longer plaintext is refused without touching the
  transport.
\<close>

theorem encrypt_fits_frame:
  assumes "NoiseConfig_validate (nt_config nt) = Inr ()" and "seals sn"
  shows "if unat (max_frame_payload (nt_config nt)) < length pt
    then (\<exists>e. encrypt sn nt pt = (Inl (FrameTooLarge e), nt))
    else (\<exists>e t. encrypt sn nt pt = (Inl (Snow e), nt\<lparr> transport := t \<rparr>))
      \<or> (\<exists>ct t. encrypt sn nt pt = (Inr (0x04 # be16_enc (length pt + 16) @ ct), nt\<lparr> transport := t \<rparr>)
           \<and> length ct = length pt + 16 \<and> length pt + 19 \<le> 65538)"
proof -
  have mx: "unat (max_frame_payload (nt_config nt)) \<le> 65519"
    using assms(1) by (simp add: noise_validate_iff noise_in_range_def)
  obtain r t where w: "snow_t_write sn (transport nt) pt (length pt + TAG_LEN) = (r, t)"
    by fastforce
  show ?thesis
  proof (cases r)
    case (Inl e)
    with w show ?thesis
      by (auto simp: encrypt_def)
  next
    case (Inr ct)
    with w assms(2) have "length ct = length pt + 16"
      unfolding seals_def by blast
    with w Inr mx show ?thesis
      by (auto simp: encrypt_def u16_try_from_def be16_enc_def MSG_TYPE_TRANSPORT_def)
  qed
qed

theorem encrypt_fits_frame_witness:
  "NoiseConfig_validate NoiseConfig_default = Inr ()
   \<and> (\<exists>ct t. encrypt mock_snow (NoiseTransport_from_snow 0) [1, 2, 3]
          = (Inr (0x04 # be16_enc 19 @ ct), (NoiseTransport_from_snow 0)\<lparr> transport := t \<rparr>)
        \<and> length ct = 19)"
proof -
  have v: "NoiseConfig_validate NoiseConfig_default = Inr ()"
    by (simp add: NoiseConfig_validate_def NoiseConfig_default_def config_constants)
  then have c: "NoiseConfig_validate (nt_config (NoiseTransport_from_snow 0)) = Inr ()"
    by (simp add: NoiseTransport_from_snow_def)
  have ok: "is_ok (fst (encrypt mock_snow (NoiseTransport_from_snow 0) [1, 2, 3]))"
    by (simp add: encrypt_def mock_snow_def NoiseTransport_from_snow_def NoiseConfig_default_def
        config_constants TAG_LEN_def u16_try_from_def)
  then show ?thesis
    using encrypt_fits_frame [OF c mock_seals, of "[1, 2, 3]"] v ok by (auto split: if_splits)
qed

end
