(* ===== verification/Transport.thy ===== *)
theory Transport
  imports Noise
begin

text \<open>
  The I/O-free control connection of \<^verbatim>\<open>crates/dictyon/src/transport.rs\<close>: building the upgrade
  request from the handshake's initiation, completing the handshake, and sealing and opening
  payloads. Base64 is the \<^verbatim>\<open>base64\<close> crate and an argument (\<open>b64\<close>).
\<close>

section \<open>Definitions\<close>

definition TRANSPORT_UPGRADE_PATH :: string where
  "TRANSPORT_UPGRADE_PATH = ''/ts2021''"

definition UPGRADE_HEADER_VALUE :: string where
  "UPGRADE_HEADER_VALUE = ''tailscale-control-protocol''"

datatype 'e TransportError =
    Noise "'e NoiseError"
  | InvalidUrl string

record 't ControlConnection =
  conn_noise :: "'t NoiseTransport"

record UpgradeRequest =
  upgrade_url :: string
  upgrade_headers :: "(string \<times> string) list"

definition from_transport :: "'t NoiseTransport \<Rightarrow> 't ControlConnection" where
  "from_transport noise = \<lparr> conn_noise = noise \<rparr>"

definition transport_upgrade_request ::
  "(bytes \<Rightarrow> string) \<Rightarrow> ('h, 't, 'e, 'x) Snow_lib_scheme \<Rightarrow> 'h NoiseHandshake \<Rightarrow> string
     \<Rightarrow> ('e TransportError, UpgradeRequest) result \<times> 'h NoiseHandshake" where
  "transport_upgrade_request b64 sn handshake control_url =
     (if control_url = [] then (Inl (TransportError.InvalidUrl control_url), handshake)
      else
        (case initiation_message sn handshake of
           (Inl e, handshake') \<Rightarrow> (Inl (TransportError.Noise e), handshake')
         | (Inr init_msg, handshake') \<Rightarrow>
             (Inr \<lparr> upgrade_url = trim_end_matches (CHR ''/'') control_url @ TRANSPORT_UPGRADE_PATH,
                    upgrade_headers =
                      [(''Upgrade'', UPGRADE_HEADER_VALUE),
                       (''Connection'', ''Upgrade''),
                       (''X-Tailscale-Handshake'', b64 init_msg)] \<rparr>,
              handshake')))"

definition complete_handshake ::
  "('h, 't, 'e, 'x) Snow_lib_scheme \<Rightarrow> 'h NoiseHandshake \<Rightarrow> bytes
     \<Rightarrow> ('e TransportError, 't ControlConnection) result" where
  "complete_handshake sn handshake response_body =
     bind_r (map_err TransportError.Noise (process_response sn handshake response_body)) (\<lambda>noise.
     Inr \<lparr> conn_noise = noise \<rparr>)"

definition send ::
  "('h, 't, 'e, 'x) Snow_lib_scheme \<Rightarrow> 't ControlConnection \<Rightarrow> bytes
     \<Rightarrow> ('e TransportError, bytes) result \<times> 't ControlConnection" where
  "send sn self payload =
     (case encrypt sn (conn_noise self) payload of
        (r, noise) \<Rightarrow> (map_err TransportError.Noise r, self\<lparr> conn_noise := noise \<rparr>))"

definition receive ::
  "('h, 't, 'e, 'x) Snow_lib_scheme \<Rightarrow> 't ControlConnection \<Rightarrow> bytes
     \<Rightarrow> ('e TransportError, bytes) result \<times> 't ControlConnection" where
  "receive sn self data =
     (case decrypt sn (conn_noise self) data of
        (r, noise) \<Rightarrow> (map_err TransportError.Noise r, self\<lparr> conn_noise := noise \<rparr>))"

section \<open>Sealing and opening\<close>

text \<open>The sender's and the receiver's library states of two connections are in step.\<close>

definition in_step :: "('t \<Rightarrow> 't \<Rightarrow> bool) \<Rightarrow> 't ControlConnection \<Rightarrow> 't ControlConnection \<Rightarrow> bool" where
  "in_step R c d = R (transport (conn_noise c)) (transport (conn_noise d))"

text \<open>A frame's header and body, and what the paired connection makes of the body.\<close>

lemma send_frame:
  assumes "seals sn" and "session_pair sn R" and "in_step R c d"
    and "send sn c payload = (Inr frame, c')"
  obtains ct d' where "frame = MSG_TYPE_TRANSPORT # be16_enc (length ct) @ ct" "length ct < 65536"
    "receive sn d ct = (Inr payload, d')" "in_step R c' d'"
proof -
  obtain nt' where e: "encrypt sn (conn_noise c) payload = (Inr frame, nt')"
    and c': "c' = c\<lparr> conn_noise := nt' \<rparr>"
    using assms(4) by (auto simp: send_def map_err_Inr_iff split: prod.splits)
  obtain ct t' where w: "snow_t_write sn (transport (conn_noise c)) payload (length payload + TAG_LEN) = (Inr ct, t')"
    and nt': "nt' = (conn_noise c)\<lparr> transport := t' \<rparr>" and lt: "length ct < 65536"
    and f: "frame = MSG_TYPE_TRANSPORT # be16_enc (length ct) @ ct"
    using e by (rule encrypt_Inr)
  have len: "length ct = length payload + 16"
    using assms(1) w unfolding seals_def by blast
  obtain u' where r: "snow_t_read sn (transport (conn_noise d)) ct (length ct) = (Inr payload, u')"
    and s: "R t' u'"
    using assms(2,3) w unfolding session_pair_def in_step_def by blast
  show thesis
  proof (rule that [OF f lt])
    show "receive sn d ct = (Inr payload, d\<lparr> conn_noise := (conn_noise d)\<lparr> transport := u' \<rparr> \<rparr>)"
      by (simp add: receive_def decrypt_def len TAG_LEN_def r [unfolded len])
    show "in_step R c' (d\<lparr> conn_noise := (conn_noise d)\<lparr> transport := u' \<rparr> \<rparr>)"
      using s by (simp add: in_step_def c' nt')
  qed
qed

section \<open>Properties\<close>

text \<open>
  The upgrade request addresses the upgrade path of the base URL whatever number of
  slashes the base URL ends with, carries the initiation in its handshake header, and leaves the
  handshake awaiting the response.
\<close>

lemma upgrade_request_url:
  assumes "initiation_message sn h = (Inr m, h')"
    and "url \<noteq> []" and "last url \<noteq> CHR ''/''"
  shows "\<exists>req. transport_upgrade_request b64 sn h (url @ replicate n (CHR ''/'')) = (Inr req, h')
    \<and> upgrade_url req = url @ ''/ts2021''
    \<and> map_of (upgrade_headers req) ''X-Tailscale-Handshake'' = Some (b64 m)
    \<and> (\<exists>hs. hs_state h' = AwaitingResponse hs)"
proof -
  have "trim_end_matches (CHR ''/'') (url @ replicate n (CHR ''/'')) = url"
  proof (induction n)
    case 0
    then show ?case
      using assms by (simp add: trim_end_matches_id)
  next
    case (Suc n)
    have "url @ replicate (Suc n) (CHR ''/'') = (url @ replicate n (CHR ''/'')) @ [CHR ''/'']"
      by (simp add: replicate_append_same)
    with Suc show ?case
      by (simp only: trim_end_matches_snoc)
  qed
  with assms(1,2) show ?thesis
    using initiation_message_phase(2) [OF assms(1)]
    by (simp add: transport_upgrade_request_def TRANSPORT_UPGRADE_PATH_def)
qed

end
