(* ===== verification/Serde_Json.thy ===== *)
theory Serde_Json
  imports Hamma_Prelude "HOL-Library.Char_ord" "HOL-Library.List_Lexorder" "HOL-Library.Multiset"
begin

text \<open>
  What the derived \<^verbatim>\<open>Serialize\<close> and \<^verbatim>\<open>Deserialize\<close> implementations of the program do with
  JSON. A document is its syntax tree \<open>json\<close>: object entries in the order of the text, repeated
  keys included. A derived struct deserializer is a pass over the entries (or over the elements
  of an array, which \<^verbatim>\<open>serde_json\<close> also accepts for a struct) followed by one read per field;
  a derived serializer emits the fields in declaration order and leaves out the skipped ones.
  The text itself is read and written by \<^verbatim>\<open>serde_json\<close>, which is not modelled.
\<close>

section \<open>JSON values\<close>

text \<open>A number is an unsigned or a negative 64-bit integer, or a float given by its bit pattern.\<close>

datatype json_number = PosInt u64 | NegInt u64 | FloatBits u64

datatype json =
    JNull
  | JBool bool
  | JNumber json_number
  | JString string
  | JArray "json list"
  | JObject "(string \<times> json) list"

text \<open>
  \<^verbatim>\<open>serde_json::Value\<close>: an object is a \<^verbatim>\<open>BTreeMap\<close>, so its entries are sorted by key and a
  repeated key keeps its last value.
\<close>

fun btree_insert :: "string \<Rightarrow> 'v \<Rightarrow> (string \<times> 'v) list \<Rightarrow> (string \<times> 'v) list" where
  "btree_insert k v [] = [(k, v)]"
| "btree_insert k v ((k', v') # m) =
     (if k < k' then (k, v) # (k', v') # m
      else if k = k' then (k, v) # m
      else (k', v') # btree_insert k v m)"

definition btree_of :: "(string \<times> 'v) list \<Rightarrow> (string \<times> 'v) list" where
  "btree_of es = fold (\<lambda>(k, v). btree_insert k v) es []"

primrec value_of :: "json \<Rightarrow> json" where
  "value_of JNull = JNull"
| "value_of (JBool b) = JBool b"
| "value_of (JNumber n) = JNumber n"
| "value_of (JString s) = JString s"
| "value_of (JArray xs) = JArray (map value_of xs)"
| "value_of (JObject es) = JObject (btree_of (map (map_prod id value_of) es))"

section \<open>Errors and primitive types\<close>

datatype de_error =
    InvalidType json string
  | InvalidValue json string
  | InvalidLength nat
  | TrailingElements
  | MissingField string
  | DuplicateField string
  | UnknownField string
  | NoVariant string
  | Custom string

type_synonym 'a decoder = "json \<Rightarrow> (de_error, 'a) result"

definition de_bool :: "bool decoder" where
  "de_bool j = (case j of JBool b \<Rightarrow> Inr b | _ \<Rightarrow> Inl (InvalidType j ''a boolean''))"

definition de_string :: "string decoder" where
  "de_string j = (case j of JString s \<Rightarrow> Inr s | _ \<Rightarrow> Inl (InvalidType j ''a string''))"

definition de_u64 :: "u64 decoder" where
  "de_u64 j =
     (case j of
        JNumber (PosInt w) \<Rightarrow> Inr w
      | JNumber (NegInt w) \<Rightarrow> Inl (InvalidValue j ''u64'')
      | _ \<Rightarrow> Inl (InvalidType j ''u64''))"

definition de_usize :: "usize decoder" where
  "de_usize j =
     (case j of
        JNumber (PosInt w) \<Rightarrow> Inr w
      | JNumber (NegInt w) \<Rightarrow> Inl (InvalidValue j ''usize'')
      | _ \<Rightarrow> Inl (InvalidType j ''usize''))"

definition de_i64 :: "i64 decoder" where
  "de_i64 j =
     (case j of
        JNumber (PosInt w) \<Rightarrow>
          if uint w < 2 ^ 63 then Inr (uint w) else Inl (InvalidValue j ''i64'')
      | JNumber (NegInt w) \<Rightarrow> Inr (sint w)
      | _ \<Rightarrow> Inl (InvalidType j ''i64''))"

definition de_value :: "json decoder" where
  "de_value j = Inr (value_of j)"

definition de_option :: "'a decoder \<Rightarrow> 'a option decoder" where
  "de_option d j = (if j = JNull then Inr None else bind_r (d j) (\<lambda>x. Inr (Some x)))"

fun de_elements :: "'a decoder \<Rightarrow> json list \<Rightarrow> (de_error, 'a list) result" where
  "de_elements d [] = Inr []"
| "de_elements d (j # js) = bind_r (d j) (\<lambda>x. bind_r (de_elements d js) (\<lambda>xs. Inr (x # xs)))"

definition de_vec :: "'a decoder \<Rightarrow> 'a list decoder" where
  "de_vec d j = (case j of JArray xs \<Rightarrow> de_elements d xs | _ \<Rightarrow> Inl (InvalidType j ''a sequence''))"

definition ser_i64 :: "i64 \<Rightarrow> json" where
  "ser_i64 i = JNumber (if 0 \<le> i then PosInt (word_of_int i) else NegInt (word_of_int i))"

definition ser_u64 :: "u64 \<Rightarrow> json" where
  "ser_u64 w = JNumber (PosInt w)"

definition ser_vec :: "('a \<Rightarrow> json) \<Rightarrow> 'a list \<Rightarrow> json" where
  "ser_vec f xs = JArray (map f xs)"

section \<open>Structs\<close>

text \<open>
  A field of a derived deserializer: its name in the text, whether an absent trailing array
  element is replaced by a default, and the error its type's deserializer reports for a value.
\<close>

record Field =
  fld_name :: string
  fld_default :: bool
  fld_error :: "json \<Rightarrow> de_error option"

definition decode_error :: "'a decoder \<Rightarrow> json \<Rightarrow> de_error option" where
  "decode_error d j = (case d j of Inl e \<Rightarrow> Some e | Inr _ \<Rightarrow> None)"

definition field_of :: "string \<Rightarrow> 'a decoder \<Rightarrow> Field" where
  "field_of k d = \<lparr> fld_name = k, fld_default = False, fld_error = decode_error d \<rparr>"

definition default_field :: "string \<Rightarrow> 'a decoder \<Rightarrow> Field" where
  "default_field k d = \<lparr> fld_name = k, fld_default = True, fld_error = decode_error d \<rparr>"

text \<open>\<open>visit_map\<close>: the entries in order; the first problem met is the error.\<close>

fun visit_map ::
  "bool \<Rightarrow> Field list \<Rightarrow> (string \<times> json) list \<Rightarrow> (string \<times> json) list
     \<Rightarrow> (de_error, (string \<times> json) list) result" where
  "visit_map deny fs seen [] = Inr seen"
| "visit_map deny fs seen ((k, v) # es) =
     (case find (\<lambda>f. fld_name f = k) fs of
        None \<Rightarrow> if deny then Inl (UnknownField k) else visit_map deny fs seen es
      | Some f \<Rightarrow>
          if map_of seen k \<noteq> None then Inl (DuplicateField k)
          else
            (case fld_error f v of
               Some e \<Rightarrow> Inl e
             | None \<Rightarrow> visit_map deny fs ((k, v) # seen) es))"

text \<open>\<open>visit_seq\<close>: the elements in declaration order of the fields.\<close>

fun visit_seq :: "Field list \<Rightarrow> nat \<Rightarrow> json list \<Rightarrow> (de_error, (string \<times> json) list) result" where
  "visit_seq [] i [] = Inr []"
| "visit_seq [] i (v # vs) = Inl TrailingElements"
| "visit_seq (f # fs) i [] = (if fld_default f then visit_seq fs (Suc i) [] else Inl (InvalidLength i))"
| "visit_seq (f # fs) i (v # vs) =
     (case fld_error f v of
        Some e \<Rightarrow> Inl e
      | None \<Rightarrow> bind_r (visit_seq fs (Suc i) vs) (\<lambda>m. Inr ((fld_name f, v) # m)))"

definition visit_struct ::
  "string \<Rightarrow> bool \<Rightarrow> Field list \<Rightarrow> json \<Rightarrow> (de_error, (string \<times> json) list) result" where
  "visit_struct name deny fs j =
     (case j of
        JObject es \<Rightarrow> visit_map deny fs [] es
      | JArray xs \<Rightarrow> visit_seq fs 0 xs
      | _ \<Rightarrow> Inl (InvalidType j (''struct '' @ name)))"

text \<open>The value of a field after the pass: required, of an \<^verbatim>\<open>Option\<close> type, or with a default.\<close>

definition required :: "(string \<times> json) list \<Rightarrow> string \<Rightarrow> 'a decoder \<Rightarrow> (de_error, 'a) result" where
  "required m k d = (case map_of m k of None \<Rightarrow> Inl (MissingField k) | Some v \<Rightarrow> d v)"

definition optional :: "(string \<times> json) list \<Rightarrow> string \<Rightarrow> 'a decoder \<Rightarrow> (de_error, 'a option) result" where
  "optional m k d = (case map_of m k of None \<Rightarrow> Inr None | Some v \<Rightarrow> de_option d v)"

definition defaulted ::
  "(string \<times> json) list \<Rightarrow> string \<Rightarrow> 'a \<Rightarrow> 'a decoder \<Rightarrow> (de_error, 'a) result" where
  "defaulted m k x d = (case map_of m k of None \<Rightarrow> Inr x | Some v \<Rightarrow> d v)"

text \<open>A derived serializer: the fields with their values, skipped ones left out.\<close>

definition emit :: "(string \<times> json option) list \<Rightarrow> (string \<times> json) list" where
  "emit es = List.map_filter (\<lambda>(k, v). map_option (Pair k) v) es"

section \<open>Values\<close>

lemma set_btree_insert:
  "set (btree_insert k v m) \<subseteq> insert (k, v) (set m)" "k \<in> fst ` set (btree_insert k v m)"
  by (induction m rule: btree_insert.induct) auto

lemma btree_insert_last:
  "(\<forall>k'\<in>fst ` set m. k' < k) \<Longrightarrow> btree_insert k v m = m @ [(k, v)]"
  by (induction m) (auto simp: not_less_iff_gr_or_eq)

lemma btree_insert_sorted:
  "sorted_wrt (<) (map fst m) \<Longrightarrow> sorted_wrt (<) (map fst (btree_insert k v m))"
proof (induction m)
  case (Cons e m)
  have "\<forall>k'\<in>fst ` set (btree_insert k v m). k' = k \<or> k' \<in> fst ` set m"
    using set_btree_insert(1) [of k v m] by force
  with Cons show ?case
    by (cases e) (fastforce simp: image_iff)
qed simp

lemma btree_of_sorted: "sorted_wrt (<) (map fst (btree_of es))"
proof -
  have "sorted_wrt (<) (map fst m) \<Longrightarrow>
      sorted_wrt (<) (map fst (fold (\<lambda>(k, v). btree_insert k v) es m))" for m :: "(string \<times> 'a) list"
    by (induction es arbitrary: m) (auto simp: btree_insert_sorted)
  then show ?thesis
    by (simp add: btree_of_def)
qed

lemma set_btree_of: "set (btree_of es) \<subseteq> set es"
proof -
  have "set (fold (\<lambda>(k, v). btree_insert k v) es m) \<subseteq> set es \<union> set m" for m
  proof (induction es arbitrary: m)
    case (Cons e es)
    then show ?case
      using set_btree_insert(1) [of "fst e" "snd e" m] by (cases e) fastforce
  qed simp
  from this [of "[]"] show ?thesis
    by (simp add: btree_of_def)
qed

lemma btree_of_id: "sorted_wrt (<) (map fst es) \<Longrightarrow> btree_of es = es"
proof -
  have "sorted_wrt (<) (map fst (m @ es)) \<Longrightarrow> fold (\<lambda>(k, v). btree_insert k v) es m = m @ es"
    for m
  proof (induction es arbitrary: m)
    case (Cons e es)
    from Cons.prems have "\<forall>k'\<in>fst ` set m. k' < fst e"
      by (auto simp: sorted_wrt_append)
    then have "btree_insert (fst e) (snd e) m = m @ [e]"
      by (simp add: btree_insert_last)
    with Cons show ?case
      by (cases e) simp
  qed simp
  from this [of "[]"] show "sorted_wrt (<) (map fst es) \<Longrightarrow> btree_of es = es"
    by (simp add: btree_of_def)
qed

text \<open>Looking a key up in the tree finds the last entry with that key.\<close>

lemma map_of_btree_insert:
  "map_of (btree_insert k v m) k' = (if k' = k then Some v else map_of m k')"
  by (induction k v m rule: btree_insert.induct) auto

lemma map_of_btree_of: "map_of (btree_of es) k = map_of (rev es) k"
proof -
  have "map_of (fold (\<lambda>(k, v). btree_insert k v) es m) k = (map_of m ++ map_of (rev es)) k" for m
    by (induction es arbitrary: m) (auto simp: map_of_btree_insert map_add_def split: option.split)
  from this [of "[]"] show ?thesis
    by (simp add: btree_of_def)
qed

text \<open>Reading a \<open>Value\<close> back gives the same \<open>Value\<close>.\<close>

lemma value_of_idem [simp]: "value_of (value_of j) = value_of j"
proof (induction j)
  case (JObject es)
  let ?m = "btree_of (map (map_prod id value_of) es)"
  have "value_of v = v" if kv: "(k, v) \<in> set ?m" for k v
  proof -
    from kv have "(k, v) \<in> set (map (map_prod id value_of) es)"
      using set_btree_of by blast
    then obtain u where "(k, u) \<in> set es" "v = value_of u"
      by auto
    with JObject show ?thesis
      by (auto simp: image_iff snds.simps)
  qed
  then have "map (map_prod id value_of) ?m = ?m"
    by (intro map_idI) auto
  then show ?case
    by (simp add: btree_of_id btree_of_sorted)
qed simp_all

lemma value_of_null [simp]: "value_of j = JNull \<longleftrightarrow> j = JNull"
  by (cases j) simp_all

section \<open>Passes over the entries of an object\<close>

definition names_of :: "Field list \<Rightarrow> string set" where
  "names_of fs = fld_name ` set fs"

lemma names_of_simps [simp]:
  "names_of [] = {}"
  "names_of (f # fs) = insert (fld_name f) (names_of fs)"
  by (simp_all add: names_of_def)

lemma fld_simps [simp]:
  "fld_name (field_of k d) = k" "fld_name (default_field k d) = k"
  "fld_default (field_of k d) \<longleftrightarrow> False" "fld_default (default_field k d) \<longleftrightarrow> True"
  "fld_error (field_of k d) = decode_error d" "fld_error (default_field k d) = decode_error d"
  by (simp_all add: field_of_def default_field_def)

lemma decode_error_None_iff: "decode_error d j = None \<longleftrightarrow> (\<exists>x. d j = Inr x)"
  by (cases "d j") (simp_all add: decode_error_def)

lemma find_field_None_iff: "find (\<lambda>f. fld_name f = k) fs = None \<longleftrightarrow> k \<notin> names_of fs"
  by (auto simp: find_None_iff names_of_def)

lemma find_field_name: "find (\<lambda>f. fld_name f = k) fs = Some f \<Longrightarrow> f \<in> set fs \<and> fld_name f = k"
  by (induction fs) (auto split: if_splits)

text \<open>An entry with an undeclared key changes nothing, or is the error, depending on the struct.\<close>

lemma visit_map_unknown:
  "k \<notin> names_of fs \<Longrightarrow>
     visit_map False fs seen (xs @ (k, v) # ys) = visit_map False fs seen (xs @ ys)"
proof (induction xs arbitrary: seen)
  case Nil
  then show ?case
    by (simp add: find_field_None_iff [symmetric])
next
  case (Cons e xs)
  then show ?case
    by (cases e) (simp split: option.split)
qed

lemma visit_map_denied:
  "k \<notin> names_of fs \<Longrightarrow> \<exists>e. visit_map True fs seen (xs @ (k, v) # ys) = Inl e"
proof (induction xs arbitrary: seen)
  case Nil
  then show ?case
    by (simp add: find_field_None_iff [symmetric])
next
  case (Cons e xs)
  then show ?case
    by (cases e) (simp split: option.split)
qed

text \<open>
  A pass succeeds exactly when no declared key is repeated, every declared value decodes and, for
  a struct that denies them, there is no undeclared key; it then collects the declared entries.
\<close>

definition declared :: "Field list \<Rightarrow> (string \<times> json) list \<Rightarrow> (string \<times> json) list" where
  "declared fs es = filter (\<lambda>e. fst e \<in> names_of fs) es"

definition entry_ok :: "bool \<Rightarrow> Field list \<Rightarrow> string \<times> json \<Rightarrow> bool" where
  "entry_ok deny fs = (\<lambda>(k, v).
     case find (\<lambda>f. fld_name f = k) fs of None \<Rightarrow> \<not> deny | Some f \<Rightarrow> fld_error f v = None)"

lemma entry_ok_pair:
  "entry_ok deny fs (k, v) =
     (case find (\<lambda>f. fld_name f = k) fs of None \<Rightarrow> \<not> deny | Some f \<Rightarrow> fld_error f v = None)"
  by (simp add: entry_ok_def)

lemma visit_map_Inr_iff:
  "distinct (map fst seen) \<Longrightarrow>
   visit_map deny fs seen es = Inr m \<longleftrightarrow>
     m = rev (declared fs es) @ seen \<and> distinct (map fst m) \<and> list_all (entry_ok deny fs) es"
proof (induction es arbitrary: seen)
  case Nil
  then show ?case
    by (auto simp: declared_def)
next
  case (Cons e es)
  obtain k v where e: "e = (k, v)"
    by (cases e)
  show ?case
  proof (cases "find (\<lambda>f. fld_name f = k) fs")
    case None
    then have "k \<notin> names_of fs"
      by (simp add: find_field_None_iff)
    then have "declared fs (e # es) = declared fs es"
      by (simp add: e declared_def)
    with None Cons.IH [OF Cons.prems] show ?thesis
      by (cases deny) (simp_all add: e entry_ok_pair)
  next
    case (Some f)
    then have k: "k \<in> names_of fs"
      using find_field_name by (auto simp: names_of_def)
    then have d: "rev (declared fs (e # es)) = rev (declared fs es) @ [(k, v)]"
      by (simp add: e declared_def)
    show ?thesis
    proof (cases "map_of seen k")
      case None
      then have "distinct (map fst ((k, v) # seen))"
        using Cons.prems by (simp add: map_of_eq_None_iff)
      from Cons.IH [OF this] Some None d show ?thesis
        by (cases "fld_error f v") (simp_all add: e entry_ok_pair)
    next
      case (Some w)
      then have "k \<in> fst ` set seen"
        by (metis domI dom_map_of_conv_image_fst)
      then have nd: "\<not> distinct (map fst (rev (declared fs (e # es)) @ seen))"
        by (simp add: d)
      have "visit_map deny fs seen (e # es) = Inl (DuplicateField k)"
        using Some \<open>find _ fs = Some f\<close> by (simp add: e)
      with nd show ?thesis
        by (metis sum.distinct(1))
    qed
  qed
qed

lemma visit_struct_object_iff:
  "visit_struct name deny fs (JObject es) = Inr m \<longleftrightarrow>
     m = rev (declared fs es) \<and> distinct (map fst (declared fs es)) \<and> list_all (entry_ok deny fs) es"
  by (auto simp: visit_struct_def visit_map_Inr_iff rev_map [symmetric])

text \<open>The order of the entries does not matter.\<close>

lemma visit_struct_order:
  assumes "mset es' = mset es" and "visit_struct name deny fs (JObject es) = Inr m"
  obtains m' where "visit_struct name deny fs (JObject es') = Inr m'" and "map_of m' = map_of m"
proof
  have s: "set es' = set es"
    using assms(1) by (rule mset_eq_setD)
  have p: "mset (declared fs es') = mset (declared fs es)"
    using assms(1) by (simp add: declared_def)
  have "mset (map fst (declared fs es')) = mset (map fst (declared fs es))"
    using p by simp
  then have d: "distinct (map fst (declared fs es')) \<longleftrightarrow> distinct (map fst (declared fs es))"
    by (rule mset_eq_imp_distinct_iff)
  show "visit_struct name deny fs (JObject es') = Inr (rev (declared fs es'))"
    using assms(2) d s by (simp add: visit_struct_object_iff list_all_iff)
  show "map_of (rev (declared fs es')) = map_of m"
    using assms(2) d mset_eq_setD [OF p]
    by (subst map_of_inject_set) (auto simp: visit_struct_object_iff rev_map [symmetric])
qed

text \<open>So a struct that reads the collected entries only as a map does not depend on it either.\<close>

lemma struct_order:
  assumes "\<And>j. de j = bind_r (visit_struct name deny fs j) rest"
    and "\<And>m m'. map_of m' = map_of m \<Longrightarrow> rest m' = rest m"
    and "mset es' = mset es"
  shows "de (JObject es') = Inr x \<longleftrightarrow> de (JObject es) = Inr x"
proof -
  have "de (JObject es1) = Inr x \<Longrightarrow> de (JObject es2) = Inr x" if eq: "mset es2 = mset es1" for es1 es2
  proof -
    assume "de (JObject es1) = Inr x"
    then obtain m where m: "visit_struct name deny fs (JObject es1) = Inr m" "rest m = Inr x"
      by (auto simp: assms(1) bind_r_Inr_iff)
    obtain m' where m': "visit_struct name deny fs (JObject es2) = Inr m'" "map_of m' = map_of m"
      using eq m(1) by (rule visit_struct_order)
    with m(2) assms(2) [OF m'(2)] show "de (JObject es2) = Inr x"
      by (simp add: assms(1))
  qed
  from this [of es' es] this [of es es'] assms(3) show ?thesis
    by auto
qed

text \<open>A declared value that does not decode fails the struct.\<close>

lemma visit_struct_bad_entry:
  assumes "(k, v) \<in> set es" and "find (\<lambda>f. fld_name f = k) fs = Some f" and "fld_error f v \<noteq> None"
  shows "\<exists>e. visit_struct name deny fs (JObject es) = Inl e"
proof -
  have "\<not> entry_ok deny fs (k, v)"
    using assms(2,3) by (simp add: entry_ok_pair)
  with assms(1) have "\<not> list_all (entry_ok deny fs) es"
    by (auto simp: list_all_iff)
  then have "visit_struct name deny fs (JObject es) \<noteq> Inr m" for m
    by (simp add: visit_struct_object_iff)
  then show ?thesis
    by (cases "visit_struct name deny fs (JObject es)") auto
qed

section \<open>Emitted objects\<close>

lemma emit_simps:
  "emit [] = []"
  "emit ((k, None) # es) = emit es"
  "emit ((k, Some v) # es) = (k, v) # emit es"
  by (simp_all add: emit_def List.map_filter_simps)

lemma set_emit: "(k, v) \<in> set (emit es) \<longleftrightarrow> (k, Some v) \<in> set es"
proof (induction es)
  case (Cons e es)
  then show ?case
    by (cases e; cases "snd e") (auto simp: emit_simps)
qed (simp add: emit_simps)

lemma emit_keys: "set (map fst (emit es)) \<subseteq> set (map fst es)"
proof -
  have "k \<in> fst ` set es" if "(k, v) \<in> set (emit es)" for k v
    using that by (force simp: set_emit)
  then show ?thesis
    by auto
qed

lemma emit_distinct: "distinct (map fst es) \<Longrightarrow> distinct (map fst (emit es))"
proof (induction es)
  case (Cons e es)
  then show ?case
    using emit_keys [of es] by (cases e; cases "snd e") (auto simp: emit_simps)
qed (simp add: emit_simps)

lemma map_of_emit:
  "distinct (map fst es) \<Longrightarrow> map_of (emit es) k = (case map_of es k of None \<Rightarrow> None | Some v \<Rightarrow> v)"
proof (induction es)
  case (Cons e es)
  have "map_of (emit es) k = None" if "k \<notin> fst ` set es"
    using emit_keys [of es] that by (auto simp: map_of_eq_None_iff)
  with Cons show ?case
    by (cases e; cases "snd e") (auto simp: emit_simps map_of_eq_None_iff [symmetric])
qed (simp add: emit_simps)

text \<open>
  The pass over an emitted object succeeds when the fields are declared in the order of emission
  and each emitted value decodes, whatever the struct says of undeclared keys; reading a field
  afterwards finds its value, or nothing when it was skipped.
\<close>

definition emits :: "Field list \<Rightarrow> (string \<times> json option) list \<Rightarrow> bool" where
  "emits fs es \<longleftrightarrow>
     list_all2 (\<lambda>f (k, v). fld_name f = k \<and> is_none_or v (\<lambda>j. fld_error f j = None)) fs es"

lemma emits_simps [simp]:
  "emits [] []"
  "emits (f # fs) ((k, v) # es) \<longleftrightarrow>
     fld_name f = k \<and> is_none_or v (\<lambda>j. fld_error f j = None) \<and> emits fs es"
  by (simp_all add: emits_def)

lemma emits_find:
  "emits fs es \<Longrightarrow> distinct (map fst es) \<Longrightarrow> (k, Some v) \<in> set es \<Longrightarrow>
     \<exists>f. find (\<lambda>f. fld_name f = k) fs = Some f \<and> fld_error f v = None"
proof (induction es arbitrary: fs)
  case (Cons e es)
  obtain k' o' where e: "e = (k', o')"
    by (cases e)
  from Cons.prems(1) obtain f fs' where fs: "fs = f # fs'" "fld_name f = k'"
    "is_none_or o' (\<lambda>j. fld_error f j = None)" "emits fs' es"
    by (auto simp: emits_def e list_all2_Cons2)
  show ?case
  proof (cases "k = k'")
    case True
    with Cons.prems have "o' = Some v"
      by (force simp: e)
    with True fs show ?thesis
      by simp
  next
    case False
    with Cons.prems have "(k, Some v) \<in> set es"
      by (simp add: e)
    with Cons.IH [OF fs(4)] Cons.prems(2) False fs show ?thesis
      by (simp add: e)
  qed
qed simp

lemma map_of_rev_distinct: "distinct (map fst es) \<Longrightarrow> map_of (rev es) = map_of es"
  by (subst map_of_inject_set) (simp_all add: rev_map [symmetric])

text \<open>What the pass over an emitted object collects.\<close>

definition read_back :: "(string \<times> json option) list \<Rightarrow> (string \<times> json) list" where
  "read_back es = rev (emit es)"

lemma map_of_read_back:
  "distinct (map fst es) \<Longrightarrow>
     map_of (read_back es) k = (case map_of es k of None \<Rightarrow> None | Some v \<Rightarrow> v)"
  using emit_distinct [of es] by (simp add: read_back_def map_of_rev_distinct map_of_emit)

lemma visit_emitted:
  assumes "emits fs es" and "distinct (map fst es)"
  shows "visit_struct name deny fs (JObject (emit es)) = Inr (read_back es)"
proof -
  have f: "(k, v) \<in> set (emit es) \<Longrightarrow>
      \<exists>f. find (\<lambda>f. fld_name f = k) fs = Some f \<and> fld_error f v = None" for k v
    using emits_find [OF assms] by (simp add: set_emit)
  have "k \<in> names_of fs" if "(k, v) \<in> set (emit es)" for k v
    using f [OF that] find_field_None_iff [of k fs] by auto
  then have "declared fs (emit es) = emit es"
    by (auto simp: declared_def filter_id_conv)
  moreover have "list_all (entry_ok deny fs) (emit es)"
    using f by (fastforce simp: list_all_iff entry_ok_pair)
  ultimately show ?thesis
    by (simp add: visit_struct_object_iff read_back_def emit_distinct [OF assms(2)])
qed

lemmas struct_roundtrip = visit_emitted map_of_read_back

section \<open>Decoders and codecs\<close>

text \<open>
  The contract of a deserializer: whatever it accepts is a value of the type's invariant. It
  carries over to vectors, options and the three ways of reading a field.
\<close>

locale decoder =
  fixes dec :: "'a decoder" and ok :: "'a \<Rightarrow> bool"
  assumes dec_ok: "dec j = Inr x \<Longrightarrow> ok x"
begin

lemma de_vec_ok: "de_vec dec j = Inr xs \<Longrightarrow> list_all ok xs"
proof -
  have "de_elements dec js = Inr xs \<Longrightarrow> list_all ok xs" for js xs
    by (induction js arbitrary: xs) (auto simp: bind_r_Inr_iff dest: dec_ok)
  then show "de_vec dec j = Inr xs \<Longrightarrow> list_all ok xs"
    by (auto simp: de_vec_def split: json.splits)
qed

lemma de_option_ok: "de_option dec j = Inr v \<Longrightarrow> is_none_or v ok"
  by (auto simp: de_option_def bind_r_Inr_iff split: if_splits dest: dec_ok)

lemma required_ok: "required m k dec = Inr x \<Longrightarrow> ok x"
  by (auto simp: required_def split: option.splits dest: dec_ok)

lemma optional_ok: "optional m k dec = Inr v \<Longrightarrow> is_none_or v ok"
  by (auto simp: optional_def split: option.splits dest: de_option_ok)

lemma defaulted_ok: "defaulted m k d dec = Inr x \<Longrightarrow> ok d \<Longrightarrow> ok x"
  by (auto simp: defaulted_def split: option.splits dest: dec_ok)

end

text \<open>
  The contract of a type that is written and read: a value of the invariant is read back as it
  was written, and no value is written as null, so an \<^verbatim>\<open>Option\<close> around the type can tell a
  written value from an absent one.
\<close>

locale codec = decoder dec ok
  for dec :: "'a decoder" and ok :: "'a \<Rightarrow> bool" +
  fixes enc :: "'a \<Rightarrow> json"
  assumes dec_enc: "ok x \<Longrightarrow> dec (enc x) = Inr x"
    and enc_not_null: "enc x \<noteq> JNull"
begin

lemma vec_dec_enc: "list_all ok xs \<Longrightarrow> de_vec dec (ser_vec enc xs) = Inr xs"
proof -
  have "list_all ok xs \<Longrightarrow> de_elements dec (map enc xs) = Inr xs"
    by (induction xs) (simp_all add: dec_enc)
  then show "list_all ok xs \<Longrightarrow> de_vec dec (ser_vec enc xs) = Inr xs"
    by (simp add: de_vec_def ser_vec_def)
qed

lemma error_enc: "ok x \<Longrightarrow> decode_error dec (enc x) = None"
  by (simp add: decode_error_None_iff dec_enc)

lemma option_error_enc:
  "is_none_or v ok \<Longrightarrow> is_none_or (map_option enc v) (\<lambda>j. decode_error (de_option dec) j = None)"
  by (cases v) (simp_all add: decode_error_None_iff de_option_def dec_enc enc_not_null)

lemma required_emitted: "map_of m k = Some (enc x) \<Longrightarrow> ok x \<Longrightarrow> required m k dec = Inr x"
  by (simp add: required_def dec_enc)

lemma defaulted_emitted: "map_of m k = Some (enc x) \<Longrightarrow> ok x \<Longrightarrow> defaulted m k d dec = Inr x"
  by (simp add: defaulted_def dec_enc)

lemma optional_emitted:
  "map_of m k = map_option enc v \<Longrightarrow> is_none_or v ok \<Longrightarrow> optional m k dec = Inr v"
  by (cases v) (simp_all add: optional_def de_option_def dec_enc enc_not_null)

lemmas emitted = error_enc option_error_enc required_emitted defaulted_emitted optional_emitted

end

lemma codec_vec:
  assumes "codec dec ok enc"
  shows "codec (de_vec dec) (list_all ok) (ser_vec enc)"
proof -
  have d: "decoder dec ok"
    using assms by (rule codec.axioms(1))
  show ?thesis
    by unfold_locales
      (simp_all add: decoder.de_vec_ok [OF d] codec.vec_dec_enc [OF assms], simp add: ser_vec_def)
qed

definition is_i64 :: "i64 \<Rightarrow> bool" where
  "is_i64 i \<longleftrightarrow> - (2 ^ 63) \<le> i \<and> i < 2 ^ 63"

abbreviation any :: "'a \<Rightarrow> bool" where
  "any x \<equiv> True"

lemma de_i64_range: "de_i64 j = Inr i \<Longrightarrow> is_i64 i"
  using sint_range_size [of w for w :: u64] uint_ge_0 [of w for w :: u64]
  by (auto simp: de_i64_def is_i64_def word_size split: json.splits json_number.splits if_splits
      intro: order_trans [of _ 0])

lemma de_i64_ser: "is_i64 i \<Longrightarrow> de_i64 (ser_i64 i) = Inr i"
proof (cases "0 \<le> i")
  case True
  moreover assume "is_i64 i"
  ultimately have "uint (word_of_int i :: u64) = i"
    by (simp add: is_i64_def uint_word_of_int)
  with True \<open>is_i64 i\<close> show ?thesis
    by (simp add: ser_i64_def de_i64_def is_i64_def)
next
  case False
  moreover assume "is_i64 i"
  ultimately have "sint (word_of_int i :: u64) = i"
    by (simp add: is_i64_def signed_of_int signed_take_bit_int_eq_self)
  with False show ?thesis
    by (simp add: ser_i64_def de_i64_def)
qed

interpretation bool_codec: codec de_bool any JBool
  by unfold_locales (simp_all add: de_bool_def)

interpretation string_codec: codec de_string any JString
  by unfold_locales (simp_all add: de_string_def)

interpretation u64_codec: codec de_u64 any ser_u64
  by unfold_locales (simp_all add: de_u64_def ser_u64_def)

interpretation usize_codec: codec de_usize any ser_u64
  by unfold_locales (simp_all add: de_usize_def ser_u64_def)

interpretation i64_codec: codec de_i64 is_i64 ser_i64
  by unfold_locales (simp_all add: de_i64_range de_i64_ser, simp add: ser_i64_def)

interpretation strings_codec: codec "de_vec de_string" "list_all any" "ser_vec JString"
  by (rule codec_vec) (rule string_codec.codec_axioms)

lemma list_all_any [simp]: "list_all any xs"
  by (simp add: list_all_iff)

lemma is_none_or_any [simp]: "is_none_or v any" "is_none_or vs (list_all any)"
  by (cases v; simp) (cases vs; simp)

end
