(* ===== verification/Types.thy ===== *)
theory Types
  imports Keys Serde_Json
begin

text \<open>
  The control-protocol data of \<^verbatim>\<open>crates/mitos/src/types/mod.rs\<close>: registration and map requests
  and responses, nodes, peer patches and removals, DNS and DERP data. Field names shared by
  several structs carry the struct's name as a prefix. An opaque \<^verbatim>\<open>serde_json::Value\<close> is
  a \<open>json\<close>; a 64-bit signed identifier is an integer.
\<close>

section \<open>Registration\<close>

datatype BackendLogId = BackendLogId (backend_log_id_str: string)

record Hostinfo =
  host_backend_log_id :: BackendLogId
  host_os :: string
  host_hostname :: string
  host_go_version :: string

record AuthInfo =
  auth_key :: "string option"

definition AuthInfo_new :: "string \<Rightarrow> AuthInfo" where
  "AuthInfo_new k = \<lparr> auth_key = Some k \<rparr>"

text \<open>The redacting \<^verbatim>\<open>Debug\<close>: whether a key is present, never the key.\<close>

definition AuthInfo_debug :: "AuthInfo \<Rightarrow> string" where
  "AuthInfo_debug a =
     ''AuthInfo { auth_key: '' @
     (case map_option (\<lambda>_. ''[REDACTED]'') (auth_key a) of
        None \<Rightarrow> ''None''
      | Some t \<Rightarrow> ''Some('' @ dq @ t @ dq @ '')'') @ '' }''"

record RegisterRequest =
  req_version :: u64
  req_node_key :: string
  req_old_node_key :: string
  req_auth :: "AuthInfo option"
  req_hostinfo :: Hostinfo
  req_followup :: "string option"

text \<open>
  The derived \<^verbatim>\<open>Debug\<close> of a request and of the host information in it, which calls into the
  manual one of \<^verbatim>\<open>AuthInfo\<close>. The quoting and escaping of a string by the standard library is
  the argument \<open>quote\<close>.
\<close>

definition option_debug :: "('a \<Rightarrow> string) \<Rightarrow> 'a option \<Rightarrow> string" where
  "option_debug f x = (case x of None \<Rightarrow> ''None'' | Some v \<Rightarrow> ''Some('' @ f v @ '')'')"

definition Hostinfo_debug :: "(string \<Rightarrow> string) \<Rightarrow> Hostinfo \<Rightarrow> string" where
  "Hostinfo_debug quote h =
     ''Hostinfo { backend_log_id: BackendLogId('' @ quote (backend_log_id_str (host_backend_log_id h))
     @ ''), os: '' @ quote (host_os h) @ '', hostname: '' @ quote (host_hostname h)
     @ '', go_version: '' @ quote (host_go_version h) @ '' }''"

definition RegisterRequest_debug :: "(string \<Rightarrow> string) \<Rightarrow> RegisterRequest \<Rightarrow> string" where
  "RegisterRequest_debug quote r =
     ''RegisterRequest { version: '' @ show_nat (unat (req_version r))
     @ '', node_key: '' @ quote (req_node_key r) @ '', old_node_key: '' @ quote (req_old_node_key r)
     @ '', auth: '' @ option_debug AuthInfo_debug (req_auth r)
     @ '', hostinfo: '' @ Hostinfo_debug quote (req_hostinfo r)
     @ '', followup: '' @ option_debug quote (req_followup r) @ '' }''"

record RegisterResponse =
  auth_url :: "string option"
  machine_authorized :: bool
  node_key_expired :: bool
  reg_error :: "string option"

section \<open>Nodes\<close>

record Node =
  node_id :: i64
  stable_id :: "string option"
  node_key :: string
  node_machine :: "string option"
  node_name :: string
  node_cap :: "u64 option"
  tags :: "string list option"
  addresses :: "string list"
  allowed_ips :: "string list option"
  node_endpoints :: "string list option"
  derp :: "string option"
  node_disco_key :: "string option"
  node_key_expiry :: "string option"
  node_last_seen :: "string option"
  node_online :: "bool option"

record PeerChange =
  change_node_id :: i64
  derp_region :: "i64 option"
  change_cap :: "u64 option"
  cap_map :: "json option"
  change_endpoints :: "string list option"
  change_key :: "string option"
  change_disco_key :: "string option"
  change_online :: "bool option"
  change_last_seen :: "string option"
  change_key_expiry :: "string option"

datatype PeerRemoval = NodeId i64 | NodeKey string

datatype PeerRemovalWire = WireNodeId i64 | WireNodeKey string | WireNodeIdObject i64

fun PeerRemoval_from :: "PeerRemovalWire \<Rightarrow> PeerRemoval" where
  "PeerRemoval_from (WireNodeId i) = NodeId i"
| "PeerRemoval_from (WireNodeIdObject i) = NodeId i"
| "PeerRemoval_from (WireNodeKey k) = NodeKey k"

section \<open>DNS and DERP\<close>

record DnsResolver =
  addr :: string

record DnsConfig =
  resolvers :: "DnsResolver list option"
  domains :: "string list option"

record DerpMap =
  regions :: "json option"

section \<open>Map request and response\<close>

record MapRequest =
  map_version :: u64
  compress :: "string option"
  map_node_key :: string
  map_disco_key :: string
  map_endpoints :: "string list"
  map_stream :: bool
  omit_peers :: bool
  map_hostinfo :: Hostinfo

record MapResponse =
  resp_node :: "Node option"
  resp_peers :: "Node list option"
  peers_changed :: "Node list option"
  peers_changed_patch :: "PeerChange list option"
  peers_removed :: "PeerRemoval list option"
  resp_dns_config :: "DnsConfig option"
  resp_derp_map :: "DerpMap option"
  keep_alive :: "bool option"

section \<open>Properties\<close>

text \<open>
  Claim C38. Secrets are never printed: the debug output of a registration request, and of the
  credentials in it, does not depend on the pre-auth key, only on whether there is one, which it
  does show; and the debug output of a private key does not depend on the key.
\<close>

theorem secrets_not_printed:
  "AuthInfo_debug (AuthInfo_new key) = AuthInfo_debug (AuthInfo_new key')
   \<and> RegisterRequest_debug quote (r\<lparr> req_auth := Some (AuthInfo_new key) \<rparr>)
       = RegisterRequest_debug quote (r\<lparr> req_auth := Some (AuthInfo_new key') \<rparr>)
   \<and> RegisterRequest_debug quote (r\<lparr> req_auth := Some auth \<rparr>)
       \<noteq> RegisterRequest_debug quote (r\<lparr> req_auth := None \<rparr>)
   \<and> MachinePrivate_debug mk = MachinePrivate_debug mk'
   \<and> NodePrivate_debug nk = NodePrivate_debug nk'
   \<and> DiscoPrivate_debug dk = DiscoPrivate_debug dk'"
  by (simp add: AuthInfo_debug_def AuthInfo_new_def RegisterRequest_debug_def option_debug_def
      MachinePrivate_debug_def NodePrivate_debug_def DiscoPrivate_debug_def)

end
