(* ===== verification/Wire_Support.thy ===== *)
theory Wire_Support
  imports Async_IO Transport Types
begin

text \<open>
  The helpers of the wire layer (\<^verbatim>\<open>crates/dictyon/src/wire/support.rs\<close>): splitting the control
  URL, the upgrade request, the chunked reads of the HTTP upgrade response and of the \<^verbatim>\<open>/key\<close>
  response with their limits, and the hand-over of the bytes that a header read took too many of.
\<close>

section \<open>Constants and errors\<close>

definition UPGRADE_PATH :: string where
  "UPGRADE_PATH = ''/ts2021''"

definition key_path :: string where
  "key_path = ''/key?v='' @ version_fmt CAPABILITY_VERSION"

definition UPGRADE_HEADER :: string where
  "UPGRADE_HEADER = ''tailscale-control-protocol''"

definition FRAME_TYPE_TRANSPORT :: u8 where
  "FRAME_TYPE_TRANSPORT = 0x04"

text \<open>\<open>'i\<close> is \<^verbatim>\<open>std::io::Error\<close>, \<open>'e\<close> is \<^verbatim>\<open>snow::Error\<close>.\<close>

datatype ('i, 'e) WireError =
    TcpConnect 'i
  | Tls 'i
  | InvalidUrl string
  | UnexpectedStatus string
  | MalformedHeaders string
  | KeyParse string
  | ServerKey KeyError
  | Noise "'e NoiseError"
  | Frame string
  | ConnectTimeout u64

definition crlf :: string where
  "crlf = [CHR 0x0D, CHR 0x0A]"

definition header_sep :: bytes where
  "header_sep = [0x0D, 0x0A, 0x0D, 0x0A]"

section \<open>The control URL\<close>

text \<open>\<^verbatim>\<open>s.split(c).next()\<close>, which always yields the part before the first \<open>c\<close>.\<close>

definition split_next :: "char \<Rightarrow> string \<Rightarrow> string option" where
  "split_next c s = Some (takeWhile (\<lambda>x. x \<noteq> c) s)"

definition parse_host_port :: "string \<Rightarrow> (('i, 'e) WireError, string \<times> nat) result" where
  "parse_host_port url =
     (let invalid = WireError.InvalidUrl url in
      bind_r (ok_or (strip_prefix ''https://'' (trim_end_matches (CHR ''/'') url)) invalid)
        (\<lambda>without_scheme.
      bind_r (ok_or (split_next (CHR ''/'') without_scheme) invalid) (\<lambda>host_port.
      case rfind (CHR '']'') host_port of
        Some bracket_end \<Rightarrow>
          bind_r (ok_or (get_from host_port (bracket_end + 1)) invalid) (\<lambda>after.
          bind_r (ok_or (get_to host_port (bracket_end + 1)) invalid) (\<lambda>host.
          case strip_prefix '':'' after of
            Some port_str \<Rightarrow> bind_r (ok_or (parse_u16 port_str) invalid) (\<lambda>port. Inr (host, port))
          | None \<Rightarrow> Inr (host, 443)))
      | None \<Rightarrow>
          (case rsplit_once (CHR '':'') host_port of
             Some (host, port_str) \<Rightarrow>
               bind_r (ok_or (parse_u16 port_str) invalid) (\<lambda>port. Inr (host, port))
           | None \<Rightarrow> Inr (host_port, 443)))))"

definition build_upgrade_request :: "string \<Rightarrow> string \<Rightarrow> string" where
  "build_upgrade_request host init_b64 =
     ''POST '' @ UPGRADE_PATH @ '' HTTP/1.1'' @ crlf
     @ ''Host: '' @ host @ crlf
     @ ''Upgrade: '' @ UPGRADE_HEADER @ crlf
     @ ''Connection: Upgrade'' @ crlf
     @ ''X-Tailscale-Handshake: '' @ init_b64 @ crlf
     @ ''Content-Length: 0'' @ crlf
     @ crlf"

section \<open>Bytes read too early\<close>

text \<open>The bytes moved into the buffer, and what is left of \<open>pending\<close>.\<close>

definition take_pending :: "bytes \<Rightarrow> nat \<Rightarrow> bytes \<times> bytes" where
  "take_pending pending out_len =
     (let n = min (length pending) out_len in (take n pending, drop n pending))"

text \<open>The state is the stream and the prefix, both of which the call mutates.\<close>

definition fill_from ::
  "('s, 'i, 'x) Stream_ops_scheme \<Rightarrow> nat \<Rightarrow> (('i, 'e) WireError, bytes, 's \<times> bytes) io" where
  "fill_from ops out_len = (\<lambda>(stream, pre).
     let (taken, pre') = take_pending pre out_len; rest = out_len - length taken in
     if rest = 0 then Some (Inr taken, (stream, pre'))
     else
       (case stream_read_exact ops rest stream of
          None \<Rightarrow> None
        | Some (Inl e, stream') \<Rightarrow> Some (Inl (Tls e), (stream', pre'))
        | Some (Inr bs, stream') \<Rightarrow> Some (Inr (taken @ buffer_fill rest bs), (stream', pre'))))"

definition read_noise_response_frame ::
  "('s, 'i, 'x) Stream_ops_scheme \<Rightarrow> bytes \<Rightarrow> (('i, 'e) WireError, bytes \<times> bytes, 's) io" where
  "read_noise_response_frame ops pre stream =
     (case bind_io (fill_from ops 3) (\<lambda>header.
             let payload_len = unat (u16_from_be_bytes (header ! 1) (header ! 2)) in
             bind_io (fill_from ops payload_len) (\<lambda>noise_msg.
             return_io (header @ noise_msg))) (stream, pre) of
        None \<Rightarrow> None
      | Some (Inl e, (stream', _)) \<Rightarrow> Some (Inl e, stream')
      | Some (Inr framed, (stream', pre')) \<Rightarrow> Some (Inr (framed, pre'), stream'))"

section \<open>The upgrade response\<close>

definition find_header_end :: "bytes \<Rightarrow> nat \<Rightarrow> nat option" where
  "find_header_end buf scanned =
     (let from = scanned - 3 in
      case get_from buf from of
        None \<Rightarrow> None
      | Some window \<Rightarrow> map_option (\<lambda>p. p + from) (position_window header_sep window))"

definition headers_exceeded :: "nat \<Rightarrow> ('i, 'e) WireError" where
  "headers_exceeded max_header =
     MalformedHeaders (''headers exceeded '' @ show_nat max_header @ '' bytes'')"

text \<open>The loop of \<^verbatim>\<open>read_until_header_end\<close>. Every iteration that goes on adds at least one byte to a
  buffer of at most \<open>max_header\<close> bytes, so the loop ends whatever the stream does.\<close>

function header_loop ::
  "('s, 'i, 'x) Stream_ops_scheme \<Rightarrow> nat \<Rightarrow> nat \<Rightarrow> bytes \<Rightarrow> nat \<Rightarrow> (('i, 'e) WireError, bytes, 's) io" where
  "header_loop ops max_header chunk buf scanned stream =
     (case find_header_end buf scanned of
        Some sep_pos \<Rightarrow>
          if max_header < sep_pos then Some (Inl (headers_exceeded max_header), stream)
          else Some (Inr buf, stream)
      | None \<Rightarrow>
          if max_header < length buf
          then Some (Inl (headers_exceeded max_header), stream)
          else
            (case stream_read ops chunk stream of
               None \<Rightarrow> None
             | Some (Inl e, stream') \<Rightarrow> Some (Inl (Tls e), stream')
             | Some (Inr bs, stream') \<Rightarrow>
                 if bs = []
                 then Some (Inl (MalformedHeaders ''connection closed before header terminator''), stream')
                 else if chunk < length bs
                 then Some (Inl (MalformedHeaders ''read returned more bytes than buffer''), stream')
                 else header_loop ops max_header chunk (buf @ bs) (length buf) stream'))"
  by pat_completeness auto
termination
  by (relation "measure (\<lambda>(ops, mx, chunk, buf, scanned, stream). Suc mx - length buf)")
     (auto simp flip: length_greater_0_conv)

definition read_until_header_end ::
  "('s, 'i, 'x) Stream_ops_scheme \<Rightarrow> WireConfig \<Rightarrow> (('i, 'e) WireError, bytes, 's) io" where
  "read_until_header_end ops cfg =
     header_loop ops (unat (max_header_bytes cfg)) (max (unat (response_read_chunk_bytes cfg)) 1) [] 0"

definition split_upgrade_response :: "bytes \<Rightarrow> (('i, 'e) WireError, string \<times> bytes) result" where
  "split_upgrade_response buf =
     bind_r (ok_or (position_window header_sep buf) (MalformedHeaders ''header terminator not found''))
       (\<lambda>sep_pos.
     bind_r (ok_or (get_to buf sep_pos)
               (MalformedHeaders ''header separator position out of bounds'')) (\<lambda>headers_bytes.
     bind_r (ok_or (get_from buf (sep_pos + 4))
               (MalformedHeaders ''header body position out of bounds'')) (\<lambda>body.
     bind_r (ok_or (from_utf8 headers_bytes) (MalformedHeaders ''headers are not valid UTF-8''))
       (\<lambda>headers_str.
     Inr (first_line headers_str, body)))))"

definition read_upgrade_response ::
  "('s, 'i, 'x) Stream_ops_scheme \<Rightarrow> WireConfig \<Rightarrow> (('i, 'e) WireError, string \<times> bytes, 's) io" where
  "read_upgrade_response ops cfg =
     bind_io (read_until_header_end ops cfg) (\<lambda>buf. lift_io (split_upgrade_response buf))"

section \<open>The key response\<close>

definition saturating_add :: "nat \<Rightarrow> nat \<Rightarrow> nat" where
  "saturating_add a b = min (a + b) (2 ^ 64 - 1)"

definition push_within_limit ::
  "bytes \<Rightarrow> bytes \<Rightarrow> nat \<Rightarrow> (('i, 'e) WireError, unit) result \<times> bytes" where
  "push_within_limit buf bs max_body =
     (if max_body < saturating_add (length buf) (length bs)
      then (Inl (KeyParse ''response too large''), buf)
      else (Inr (), buf @ bs))"

partial_function (option) full_loop ::
  "('s, 'i, 'x) Stream_ops_scheme \<Rightarrow> nat \<Rightarrow> nat \<Rightarrow> bytes \<Rightarrow> (('i, 'e) WireError, bytes, 's) io" where
  "full_loop ops max_body chunk buf stream =
     (case stream_read ops chunk stream of
        None \<Rightarrow> None
      | Some (r, stream') \<Rightarrow>
          (case r of
             Inl e \<Rightarrow> Some (Inl (Tls e), stream')
           | Inr bs \<Rightarrow>
               if bs = [] then Some (Inr buf, stream')
               else if chunk < length bs
               then Some (Inl (KeyParse ''read returned more bytes than buffer''), stream')
               else
                 (case push_within_limit buf bs max_body of
                    (p, buf') \<Rightarrow>
                      (case p of
                         Inl e \<Rightarrow> Some (Inl e, stream')
                       | Inr _ \<Rightarrow> full_loop ops max_body chunk buf' stream'))))"

definition read_full_response ::
  "('s, 'i, 'x) Stream_ops_scheme \<Rightarrow> WireConfig \<Rightarrow> (('i, 'e) WireError, bytes, 's) io" where
  "read_full_response ops cfg =
     full_loop ops (unat (key_response_max_bytes cfg)) (unat (response_read_chunk_bytes cfg)) []"

text \<open>\<open>from_slice\<close> is \<^verbatim>\<open>serde_json::from_slice\<close>, with the text of its error on the left.\<close>

definition json_get :: "string \<Rightarrow> json \<Rightarrow> json option" where
  "json_get k j = (case j of JObject kvs \<Rightarrow> map_of kvs k | _ \<Rightarrow> None)"

definition json_as_str :: "json \<Rightarrow> string option" where
  "json_as_str j = (case j of JString s \<Rightarrow> Some s | _ \<Rightarrow> None)"

definition parse_server_key_response ::
  "(bytes \<Rightarrow> string + json) \<Rightarrow> bytes \<Rightarrow> (('i, 'e) WireError, MachinePublic) result" where
  "parse_server_key_response from_slice response =
     (let body_start = (case position_window header_sep response of None \<Rightarrow> 0 | Some p \<Rightarrow> p + 4) in
      bind_r (ok_or (get_from response body_start)
                (KeyParse ''header separator position out of bounds'')) (\<lambda>body.
      bind_r (map_err KeyParse (from_slice body)) (\<lambda>j.
      bind_r (ok_or (Option.bind (json_get ''PublicKey'' j) json_as_str)
                (KeyParse (''missing '' @ [CHR 0x27] @ ''PublicKey'' @ [CHR 0x27] @ '' field'')))
        (\<lambda>key_str.
      map_err ServerKey (MachinePublic_from_hex key_str)))))"

section \<open>No byte is lost or reordered\<close>

lemma take_pending_split:
  "take_pending pending n = (a, b) \<Longrightarrow>
     pending = a @ b \<and> length a \<le> n \<and> (length a < n \<longrightarrow> b = [])"
  by (auto simp: take_pending_def Let_def min_def split: if_splits)

definition prefixed_content :: "('s \<Rightarrow> bytes) \<Rightarrow> 's \<times> bytes \<Rightarrow> bytes" where
  "prefixed_content content = (\<lambda>(stream, pre). pre @ content stream)"

locale reliable_stream =
  fixes ops :: "('s, 'i, 'x) Stream_ops_scheme"
    and content :: "'s \<Rightarrow> bytes"
  assumes stream_reliable: "reliable ops content"
begin

lemma read_takes:
  "stream_read ops n s = Some (Inr bs, s') \<Longrightarrow>
     content s = bs @ content s' \<and> length bs \<le> n \<and> (bs = [] \<longrightarrow> n = 0 \<or> content s = [])"
  using stream_reliable unfolding reliable_def by blast

lemma read_exact_takes:
  "stream_read_exact ops n s = Some (Inr bs, s') \<Longrightarrow> content s = bs @ content s' \<and> length bs = n"
  using stream_reliable unfolding reliable_def by blast

lemma write_keeps: "stream_write_all ops out s = Some (r, s') \<Longrightarrow> content s' = content s"
  using stream_reliable unfolding reliable_def by blast

lemma fill_from_takes:
  assumes "fill_from ops n s = Some (Inr bs, s')"
  shows "prefixed_content content s = bs @ prefixed_content content s' \<and> length bs = n"
proof -
  obtain stream pre where s: "s = (stream, pre)"
    by fastforce
  obtain taken left where t: "take_pending pre n = (taken, left)"
    by fastforce
  note split = take_pending_split [OF t]
  show ?thesis
  proof (cases "length taken < n")
    case False
    with split have n: "length taken = n"
      by simp
    with assms have "bs = taken" "s' = (stream, left)"
      by (simp_all add: s t fill_from_def)
    with split n show ?thesis
      by (simp add: s prefixed_content_def)
  next
    case True
    then have left: "left = []" and rest: "n - length taken \<noteq> 0"
      using split by auto
    then obtain rs stream' where
      r: "stream_read_exact ops (n - length taken) stream = Some (Inr rs, stream')"
      and out: "bs = taken @ buffer_fill (n - length taken) rs" "s' = (stream', [])"
      using assms by (auto simp: s t fill_from_def Let_def split: option.splits sum.splits)
    have "content stream = rs @ content stream'" "length rs = n - length taken"
      using read_exact_takes [OF r] by simp_all
    with True split left out show ?thesis
      by (simp add: s prefixed_content_def)
  qed
qed

end

sublocale reliable_stream \<subseteq> prefixed: byte_source "fill_from ops" "prefixed_content content"
  by unfold_locales (rule fill_from_takes)

locale prompt_stream = reliable_stream ops content
  for ops :: "('s, 'i, 'x) Stream_ops_scheme" and content :: "'s \<Rightarrow> bytes" +
  assumes stream_prompt: "prompt ops content"
begin

lemma read_returns: "\<exists>bs s'. stream_read ops n s = Some (Inr bs, s')"
  using stream_prompt unfolding prompt_def by blast

lemma read_exact_returns:
  "n \<le> length (content s) \<Longrightarrow> \<exists>bs s'. stream_read_exact ops n s = Some (Inr bs, s')"
  using stream_prompt unfolding prompt_def by blast

lemma fill_from_ready:
  assumes "n \<le> length (prefixed_content content s)"
  shows "\<exists>bs s'. fill_from ops n s = Some (Inr bs, s')"
proof -
  obtain stream pre where s: "s = (stream, pre)"
    by fastforce
  obtain taken left where t: "take_pending pre n = (taken, left)"
    by fastforce
  have "n - length taken \<le> length (content stream)"
    if "n - length taken \<noteq> 0"
    using take_pending_split [OF t] assms that by (auto simp: s prefixed_content_def)
  then show ?thesis
    using read_exact_returns [of "n - length taken" stream]
    by (auto simp: s t fill_from_def Let_def)
qed

end

sublocale prompt_stream \<subseteq> prefixed_ready: ready_source "fill_from ops" "prefixed_content content"
  by unfold_locales (rule fill_from_ready)

interpretation scripted: prompt_stream script_ops concat
  by unfold_locales (rule script_reliable, rule script_prompt)

context reliable_stream
begin

lemma noise_response_frame_takes:
  assumes "read_noise_response_frame ops pre s =
    Some (Inr (framed, left) :: (('i, 'e) WireError, bytes \<times> bytes) result, s')"
  shows "\<exists>t msg. framed = t # be16_enc (length msg) @ msg \<and> length msg < 65536
    \<and> pre @ content s = framed @ left @ content s'"
proof -
  obtain h s1 msg where
    h: "fill_from ops 3 (s, pre) = Some (Inr h :: (('i, 'e) WireError, bytes) result, s1)"
    and m: "fill_from ops (unat (u16_from_be_bytes (h ! 1) (h ! 2))) s1
      = Some (Inr msg :: (('i, 'e) WireError, bytes) result, (s', left))"
    and f: "framed = h @ msg"
    using assms by (auto simp: read_noise_response_frame_def Let_def bind_io_def
        split: option.splits sum.splits)
  have "length msg < 65536"
    using fill_from_takes [OF m] unat_u16_lt by simp
  moreover have "prefixed_content content (s, pre) = h @ msg @ prefixed_content content (s', left)
    \<and> h = h ! 0 # be16_enc (length msg)"
    by (rule prefixed.fill_frame [OF h m])
  ultimately show ?thesis
    by (intro exI [of _ "h ! 0"] exI [of _ msg]) (auto simp: f prefixed_content_def)
qed

end

context prompt_stream
begin

lemma noise_response_frame_ready:
  assumes "pre @ content s = t # be16_enc (length msg) @ msg @ rest" and "length msg < 65536"
  shows "\<exists>left s'. read_noise_response_frame ops pre s
      = Some (Inr (t # be16_enc (length msg) @ msg, left) :: (('i, 'e) WireError, bytes \<times> bytes) result, s')
    \<and> left @ content s' = rest"
proof -
  have "prefixed_content content (s, pre) = t # be16_enc (length msg) @ msg @ rest"
    using assms(1) by (simp add: prefixed_content_def)
  then have "\<exists>h s1 s2. fill_from ops 3 (s, pre) = Some (Inr h :: (('i, 'e) WireError, bytes) result, s1)
    \<and> h ! 0 = t
    \<and> fill_from ops (unat (u16_from_be_bytes (h ! 1) (h ! 2))) s1
        = Some (Inr msg :: (('i, 'e) WireError, bytes) result, s2)
    \<and> prefixed_content content s2 = rest"
    by (rule prefixed_ready.fill_frame_ready [OF _ assms(2)])
  then obtain h s1 s' left where
    h: "fill_from ops 3 (s, pre) = Some (Inr h :: (('i, 'e) WireError, bytes) result, s1)" "h ! 0 = t"
    and m: "fill_from ops (unat (u16_from_be_bytes (h ! 1) (h ! 2))) s1
      = Some (Inr msg :: (('i, 'e) WireError, bytes) result, (s', left))"
    and l: "prefixed_content content (s', left) = rest"
    by auto
  have "h = t # be16_enc (length msg)"
    using prefixed.fill_frame [OF h(1) m] h(2) by simp
  then show ?thesis
    using h(1) m l by (intro exI [of _ left] exI [of _ s'])
      (simp add: read_noise_response_frame_def prefixed_content_def)
qed

end

section \<open>Finding the header terminator\<close>

lemma header_sep_facts [simp]: "header_sep \<noteq> []" "length header_sep = 4"
  by (simp_all add: header_sep_def)

text \<open>Resuming three bytes before the scanned part finds what a search of the whole buffer would.\<close>

lemma find_header_end_full:
  assumes "scanned \<le> length buf" and "position_window header_sep (take scanned buf) = None"
  shows "find_header_end buf scanned = position_window header_sep buf"
proof -
  define start where "start = scanned - 3"
  have late: "start \<le> i" if "take 4 (drop i buf) = header_sep" for i
  proof (rule ccontr)
    assume "\<not> start \<le> i"
    then have "i + 4 \<le> scanned"
      by (simp add: start_def)
    then have "take 4 (drop i (take scanned buf)) = take 4 (drop i buf)"
      by (simp add: drop_take min_def)
    with that assms(2) show False
      by (simp add: position_window_None_iff)
  qed
  have found: "find_header_end buf scanned = map_option (\<lambda>p. p + start) (position_window header_sep (drop start buf))"
    using le_trans [OF diff_le_self assms(1), of 3]
    by (simp add: find_header_end_def start_def get_from_def Let_def)
  show ?thesis
  proof (cases "position_window header_sep buf")
    case None
    then have "position_window header_sep (drop start buf) = None"
      by (simp add: position_window_None_iff)
    with None found show ?thesis
      by simp
  next
    case (Some i)
    then have i: "take 4 (drop i buf) = header_sep" "\<forall>j<i. take 4 (drop j buf) \<noteq> header_sep"
      by (simp_all add: position_window_Some_iff)
    then have "start \<le> i"
      using late by blast
    then have "position_window header_sep (drop start buf) = Some (i - start)"
      using i by (simp add: position_window_Some_iff less_diff_conv)
    with \<open>start \<le> i\<close> Some found show ?thesis
      by simp
  qed
qed

section \<open>The header loop\<close>

declare header_loop.simps [simp del]

definition loop_inv :: "bytes \<Rightarrow> nat \<Rightarrow> bool" where
  "loop_inv buf scanned \<longleftrightarrow>
     scanned \<le> length buf \<and> position_window header_sep (take scanned buf) = None"

lemma loop_inv_start: "loop_inv [] 0"
  by (simp add: loop_inv_def)

lemma loop_inv_next: "position_window header_sep buf = None \<Longrightarrow> loop_inv (buf @ bs) (length buf)"
  by (simp add: loop_inv_def)

text \<open>One unfolding of the loop with the search of the whole buffer in place of the resumed one.\<close>

lemma header_loop_unfold:
  assumes "loop_inv buf scanned"
  shows "header_loop ops mx chunk buf scanned s =
    (case position_window header_sep buf of
       Some p \<Rightarrow> Some (if mx < p then Inl (headers_exceeded mx) else Inr buf, s)
     | None \<Rightarrow>
         if mx < length buf then Some (Inl (headers_exceeded mx), s)
         else bind_io (map_err_io Tls (stream_read ops chunk)) (\<lambda>bs.
                if bs = [] then fail_io (MalformedHeaders ''connection closed before header terminator'')
                else if chunk < length bs
                then fail_io (MalformedHeaders ''read returned more bytes than buffer'')
                else header_loop ops mx chunk (buf @ bs) (length buf)) s)"
  using find_header_end_full [of scanned buf] assms
  by (subst header_loop.simps)
     (auto simp: loop_inv_def bind_io_def map_err_io_def split: option.split sum.split)

context reliable_stream
begin

text \<open>What an accepted header block is: bytes in order off the stream, up to and including the
  read that completed the first terminator.\<close>

lemma header_loop_accepts:
  assumes "header_loop ops mx chunk buf scanned s
      = Some (Inr out :: (('i, 'e) WireError, bytes) result, s')"
    and "loop_inv buf scanned"
  shows "\<exists>more p. out = buf @ more \<and> content s = more @ content s'
    \<and> position_window header_sep out = Some p \<and> p \<le> mx
    \<and> length out \<le> max (length buf) (mx + chunk)"
  using assms
proof (induction "Suc mx - length buf" arbitrary: buf scanned s rule: less_induct)
  case less
  show ?case
  proof (cases "position_window header_sep buf")
    case (Some p)
    with less.prems show ?thesis
      by (auto simp: header_loop_unfold split: if_splits)
  next
    case None
    with less.prems obtain bs s1 where r: "stream_read ops chunk s = Some (Inr bs, s1)"
      and small: "\<not> mx < length buf" "bs \<noteq> []" "length bs \<le> chunk"
      and l: "header_loop ops mx chunk (buf @ bs) (length buf) s1
        = Some (Inr out :: (('i, 'e) WireError, bytes) result, s')"
      by (auto simp: header_loop_unfold bind_io_Inr_iff map_err_io_Inr_iff split: if_splits)
    have "Suc mx - length (buf @ bs) < Suc mx - length buf"
      using small by (simp add: diff_less_mono2 flip: length_greater_0_conv)
    from less.hyps [OF this l loop_inv_next [OF None]] obtain more p where
      "out = (buf @ bs) @ more" "content s1 = more @ content s'"
      "position_window header_sep out = Some p" "p \<le> mx"
      "length out \<le> max (length (buf @ bs)) (mx + chunk)"
      by blast
    with read_takes [OF r] small show ?thesis
      by (intro exI [of _ "bs @ more"] exI [of _ p]) auto
  qed
qed

end

text \<open>What the loop makes of the bytes it has and those still to come: its result \<open>r\<close>, with \<open>rest\<close> left
  on the stream.\<close>

definition header_verdict ::
  "nat \<Rightarrow> nat \<Rightarrow> bytes \<Rightarrow> bytes \<Rightarrow> (('i, 'e) WireError, bytes) result \<Rightarrow> bytes \<Rightarrow> bool" where
  "header_verdict mx chunk buf coming r rest =
     (case position_window header_sep (buf @ coming) of
        None \<Rightarrow> r = Inl (if mx < length (buf @ coming) then headers_exceeded mx
                       else MalformedHeaders ''connection closed before header terminator'')
      | Some p \<Rightarrow>
          (if p + 3 \<le> mx then is_ok r else if mx < p then \<not> is_ok r else True)
          \<and> (case r of
               Inl e \<Rightarrow> e = headers_exceeded mx
             | Inr out \<Rightarrow> buf @ coming = out @ rest \<and> p + 4 \<le> length out \<and> length out \<le> max (length buf) (mx + chunk)))"

lemma header_verdict_next:
  assumes "header_verdict mx chunk (buf @ bs) coming r rest" and "length buf \<le> mx" and "length bs \<le> chunk"
  shows "header_verdict mx chunk buf (bs @ coming) r rest"
proof (cases "position_window header_sep ((buf @ bs) @ coming)")
  case None
  with assms(1) show ?thesis
    by (simp add: header_verdict_def)
next
  case (Some p)
  have "max (length (buf @ bs)) (mx + chunk) \<le> max (length buf) (mx + chunk)"
    using assms(2,3) by simp
  with Some assms(1) show ?thesis
    by (auto simp: header_verdict_def split: sum.splits)
qed

context prompt_stream
begin

text \<open>The loop returns with that verdict, whatever the reads were.\<close>

lemma header_loop_verdict:
  assumes "loop_inv buf scanned" and "0 < chunk"
  shows "\<exists>r s'. header_loop ops mx chunk buf scanned s = Some (r :: (('i, 'e) WireError, bytes) result, s')
    \<and> header_verdict mx chunk buf (content s) r (content s')"
  using assms
proof (induction "Suc mx - length buf" arbitrary: buf scanned s rule: less_induct)
  case less
  note unfold = header_loop_unfold [OF less.prems(1)]
  show ?case
  proof (cases "position_window header_sep buf")
    case (Some p)
    have w: "position_window header_sep (buf @ content s) = Some p"
      using position_window_append [OF _ Some] by simp
    have "p + 4 \<le> length buf"
      using position_window_bound [OF _ Some] by simp
    with Some w show ?thesis
      by (simp add: unfold header_verdict_def)
  next
    case None
    show ?thesis
    proof (cases "mx < length buf")
      case True
      have "mx < p + 3" if "position_window header_sep (buf @ content s) = Some p" for p
        using position_window_append_None [OF _ None that] True by simp
      with None True show ?thesis
        by (auto simp: unfold header_verdict_def split: option.split)
    next
      case False
      obtain bs s1 where r: "stream_read ops chunk s = Some (Inr bs, s1)"
        using read_returns by blast
      note t = read_takes [OF r]
      show ?thesis
      proof (cases "bs = []")
        case True
        then have "content s = []"
          using t less.prems(2) by auto
        with None False True r show ?thesis
          by (simp add: unfold header_verdict_def bind_io_def map_err_io_def)
      next
        case ne: False
        have "Suc mx - length (buf @ bs) < Suc mx - length buf"
          using False ne by (simp add: diff_less_mono2 flip: length_greater_0_conv)
        from less.hyps [OF this loop_inv_next [OF None] less.prems(2), of s1]
        obtain r' s' where "header_loop ops mx chunk (buf @ bs) (length buf) s1
            = Some (r' :: (('i, 'e) WireError, bytes) result, s')"
          and "header_verdict mx chunk (buf @ bs) (content s1) r' (content s')"
          by blast
        moreover have "header_verdict mx chunk buf (content s) r' (content s')"
          using header_verdict_next [OF \<open>header_verdict mx chunk (buf @ bs) _ _ _\<close>] t False by simp
        ultimately show ?thesis
          using None False ne t r by (simp add: unfold bind_io_def map_err_io_def not_less)
      qed
    qed
  qed
qed

end

text \<open>The split of the accepted buffer, with the rest of the stream.\<close>

lemma split_upgrade_response_Inr:
  assumes "split_upgrade_response buf = (Inr (line, body) :: (('i, 'e) WireError, string \<times> bytes) result)"
  shows "\<exists>hdr. buf = hdr @ header_sep @ body \<and> position_window header_sep buf = Some (length hdr)
    \<and> utf8_valid hdr \<and> line = first_line (str_of_bytes hdr)"
proof -
  obtain p where p: "position_window header_sep buf = Some p"
    and v: "utf8_valid (take p buf)" and l: "line = first_line (str_of_bytes (take p buf))"
    and b: "body = drop (p + 4) buf"
    using assms by (auto simp: split_upgrade_response_def bind_r_Inr_iff ok_or_Inr_iff get_to_Some_iff
        get_from_Some_iff from_utf8_def split: if_splits)
  have "p \<le> length buf"
    using position_window_bound [OF _ p] by simp
  with position_window_split [OF _ p] p v l b show ?thesis
    by (intro exI [of _ "take p buf"]) simp
qed

section \<open>The key response loop\<close>

context prompt_stream
begin

lemma full_loop_result:
  assumes "0 < chunk" and "mx < 2 ^ 64 - 1" and "length buf \<le> mx"
  shows "\<exists>s'. full_loop ops mx chunk buf s =
    Some (if length buf + length (content s) \<le> mx then Inr (buf @ content s)
          else (Inl (KeyParse ''response too large'') :: (('i, 'e) WireError, bytes) result), s')"
  using assms(3)
proof (induction "length (content s)" arbitrary: buf s rule: less_induct)
  case less
  obtain bs s1 where r: "stream_read ops chunk s = Some (Inr bs, s1)"
    using read_returns by blast
  note t = read_takes [OF r]
  show ?case
  proof (cases "bs = []")
    case True
    then have "content s = []"
      using t assms(1) by auto
    with True less.prems r show ?thesis
      by (subst full_loop.simps) simp
  next
    case False
    have sat: "mx < saturating_add (length buf) (length bs) \<longleftrightarrow> mx < length buf + length bs"
      using assms(2) by (auto simp: saturating_add_def)
    show ?thesis
    proof (cases "mx < length buf + length bs")
      case True
      with t sat False r show ?thesis
        by (subst full_loop.simps) (simp add: push_within_limit_def not_less)
    next
      case fits: False
      have "length (content s1) < length (content s)"
        using t False by simp
      moreover have "length (buf @ bs) \<le> mx"
        using fits by simp
      ultimately obtain s' where "full_loop ops mx chunk (buf @ bs) s1 =
        Some (if length (buf @ bs) + length (content s1) \<le> mx then Inr ((buf @ bs) @ content s1)
          else (Inl (KeyParse ''response too large'') :: (('i, 'e) WireError, bytes) result), s')"
        using less.hyps by blast
      moreover have "full_loop ops mx chunk buf s
        = (full_loop ops mx chunk (buf @ bs) s1 :: ((('i, 'e) WireError, bytes) result \<times> 's) option)"
        using t sat False fits r by (subst full_loop.simps) (simp add: push_within_limit_def not_less)
      ultimately show ?thesis
        using t by simp
    qed
  qed
qed

end

section \<open>Splitting the URL\<close>

lemma takeWhile_no: "c \<notin> set a \<Longrightarrow> takeWhile (\<lambda>x. x \<noteq> c) (a @ c # b) = a"
  by (induction a) auto

lemma trim_end_matches_append:
  "a \<noteq> [] \<Longrightarrow> last a \<noteq> c \<Longrightarrow> trim_end_matches c (a @ b) = a @ trim_end_matches c b"
proof (induction b rule: rev_induct)
  case Nil
  then show ?case
    by (simp add: trim_end_matches_id)
next
  case (snoc x b)
  then show ?case
    by (cases "x = c")
       (simp_all add: trim_end_matches_id flip: append_assoc)
qed

lemma trim_end_matches_hd:
  "trim_end_matches c s = [] \<or> (s \<noteq> [] \<and> hd (trim_end_matches c s) = hd s)"
proof (induction s rule: rev_induct)
  case Nil
  then show ?case by (simp add: trim_end_matches_def)
next
  case (snoc x xs)
  then show ?case
    by (cases "x = c"; cases xs) (auto simp: trim_end_matches_id trim_end_matches_def)
qed

text \<open>The host part of a URL: scheme, a non-empty host part without slash, nothing or a path.\<close>

lemma parse_host_port_parts:
  assumes "CHR ''/'' \<notin> set hp" and "hp \<noteq> []" and "path = [] \<or> hd path = CHR ''/''"
  shows "\<exists>rest. strip_prefix ''https://'' (trim_end_matches (CHR ''/'') (''https://'' @ hp @ path)) = Some rest
    \<and> split_next (CHR ''/'') rest = Some hp"
proof -
  have "last hp \<noteq> CHR ''/''"
    using assms by (metis last_in_set)
  then have "trim_end_matches (CHR ''/'') ((''https://'' @ hp) @ path)
      = (''https://'' @ hp) @ trim_end_matches (CHR ''/'') path"
    using assms(2) by (intro trim_end_matches_append) simp_all
  then have "strip_prefix ''https://'' (trim_end_matches (CHR ''/'') (''https://'' @ hp @ path))
      = Some (hp @ trim_end_matches (CHR ''/'') path)"
    by (simp add: strip_prefix_Some_iff)
  moreover have "split_next (CHR ''/'') (hp @ trim_end_matches (CHR ''/'') path) = Some hp"
  proof (cases "trim_end_matches (CHR ''/'') path")
    case Nil
    then show ?thesis
      using assms(1) by (auto simp: split_next_def takeWhile_eq_all_conv)
  next
    case (Cons x xs)
    then have "x = CHR ''/''"
      using trim_end_matches_hd [of "CHR ''/''" path] assms(3) by auto
    with Cons assms(1) show ?thesis
      by (simp add: split_next_def takeWhile_no)
  qed
  ultimately show ?thesis
    by blast
qed

text \<open>The two shapes of a host: without colons and brackets, or enclosed in brackets.\<close>

definition plain_host :: "string \<Rightarrow> bool" where
  "plain_host host \<longleftrightarrow>
     host \<noteq> [] \<and> CHR ''/'' \<notin> set host \<and> CHR '':'' \<notin> set host \<and> CHR '']'' \<notin> set host"

definition bracketed_host :: "string \<Rightarrow> bool" where
  "bracketed_host host \<longleftrightarrow>
     2 \<le> length host \<and> hd host = CHR ''['' \<and> last host = CHR '']''
     \<and> CHR ''/'' \<notin> set host \<and> CHR '']'' \<notin> set (butlast host)"

lemma show_nat_chars:
  "CHR ''/'' \<notin> set (show_nat n)" "CHR '']'' \<notin> set (show_nat n)" "CHR '':'' \<notin> set (show_nat n)"
  using show_nat_digits [of _ n] by (force simp: digit_val_def)+

lemma parse_u16_show_nat: "port < 65536 \<Longrightarrow> parse_u16 (show_nat port) = Some port"
  by (simp add: parse_u16_def parse_unsigned_show_nat)

text \<open>The parser on a host part without bracket, and on one that ends a bracketed host.\<close>

lemma parse_host_port_unbracketed:
  assumes "CHR ''/'' \<notin> set hp" and "hp \<noteq> []" and "path = [] \<or> hd path = CHR ''/''" and "CHR '']'' \<notin> set hp"
  shows "rsplit_once (CHR '':'') hp = None \<Longrightarrow> parse_host_port (''https://'' @ hp @ path)
      = (Inr (hp, 443) :: (('i, 'e) WireError, string \<times> nat) result)"
    and "rsplit_once (CHR '':'') hp = Some (host, port_str) \<Longrightarrow> parse_u16 port_str = Some port \<Longrightarrow>
      parse_host_port (''https://'' @ hp @ path) = (Inr (host, port) :: (('i, 'e) WireError, string \<times> nat) result)"
proof -
  obtain rest where r: "strip_prefix ''https://'' (trim_end_matches (CHR ''/'') (''https://'' @ hp @ path)) = Some rest"
    "split_next (CHR ''/'') rest = Some hp"
    using parse_host_port_parts [OF assms(1-3)] by blast
  have "rfind (CHR '']'') hp = None"
    using assms(4) by (simp add: rfind_None_iff)
  with r show "rsplit_once (CHR '':'') hp = None \<Longrightarrow> parse_host_port (''https://'' @ hp @ path)
      = (Inr (hp, 443) :: (('i, 'e) WireError, string \<times> nat) result)"
    and "rsplit_once (CHR '':'') hp = Some (host, port_str) \<Longrightarrow> parse_u16 port_str = Some port \<Longrightarrow>
      parse_host_port (''https://'' @ hp @ path) = (Inr (host, port) :: (('i, 'e) WireError, string \<times> nat) result)"
    by (simp_all add: parse_host_port_def)
qed

lemma parse_host_port_bracketed:
  assumes "bracketed_host host" and "CHR ''/'' \<notin> set tail" and "CHR '']'' \<notin> set tail"
    and "path = [] \<or> hd path = CHR ''/''"
  shows "tail = [] \<Longrightarrow> parse_host_port (''https://'' @ (host @ tail) @ path)
      = (Inr (host, 443) :: (('i, 'e) WireError, string \<times> nat) result)"
    and "tail = '':'' @ port_str \<Longrightarrow> parse_u16 port_str = Some port \<Longrightarrow>
      parse_host_port (''https://'' @ (host @ tail) @ path)
        = (Inr (host, port) :: (('i, 'e) WireError, string \<times> nat) result)"
proof -
  have h: "host \<noteq> []" "CHR ''/'' \<notin> set host" "last host = CHR '']''"
    using assms(1) by (auto simp: bracketed_host_def)
  have no: "CHR ''/'' \<notin> set (host @ tail)" "host @ tail \<noteq> []"
    using h assms(2) by simp_all
  obtain rest where r: "strip_prefix ''https://'' (trim_end_matches (CHR ''/'') (''https://'' @ (host @ tail) @ path)) = Some rest"
    "split_next (CHR ''/'') rest = Some (host @ tail)"
    using parse_host_port_parts [OF no assms(4)] by blast
  have f: "rfind (CHR '']'') (host @ tail) = Some (length host - 1)"
  proof -
    have l: "length host - 1 < length host"
      using h(1) by simp
    then have "length host - 1 < length (host @ tail)" "(host @ tail) ! (length host - 1) = CHR '']''"
      using h(3) last_conv_nth [OF h(1)] by (simp_all add: nth_append)
    moreover have "drop (Suc (length host - 1)) (host @ tail) = tail"
      using l by simp
    ultimately show ?thesis
      using assms(3) by (simp only: rfind_Some_iff) simp
  qed
  have "length host - 1 + 1 = length host"
    using h(1) by simp
  then have g: "get_from (host @ tail) (length host - 1 + 1) = Some tail"
    "get_to (host @ tail) (length host - 1 + 1) = Some host"
    by (simp_all only:) (simp_all add: get_from_def)
  note red = parse_host_port_def Let_def r ok_or_simps bind_r_simps f option.case g
  show "tail = [] \<Longrightarrow> parse_host_port (''https://'' @ (host @ tail) @ path)
      = (Inr (host, 443) :: (('i, 'e) WireError, string \<times> nat) result)"
    unfolding red by (simp add: strip_prefix_def)
  show "tail = '':'' @ port_str \<Longrightarrow> parse_u16 port_str = Some port \<Longrightarrow>
      parse_host_port (''https://'' @ (host @ tail) @ path)
        = (Inr (host, port) :: (('i, 'e) WireError, string \<times> nat) result)"
    unfolding red by (simp add: strip_prefix_def)
qed

lemma plain_host_url:
  assumes "plain_host host" and "path = [] \<or> hd path = CHR ''/''" and "port < 65536"
  shows "parse_host_port (''https://'' @ host @ path)
      = (Inr (host, 443) :: (('i, 'e) WireError, string \<times> nat) result)"
    and "parse_host_port (''https://'' @ host @ '':'' @ show_nat port @ path)
      = (Inr (host, port) :: (('i, 'e) WireError, string \<times> nat) result)"
proof -
  show "parse_host_port (''https://'' @ host @ path)
      = (Inr (host, 443) :: (('i, 'e) WireError, string \<times> nat) result)"
    using assms by (intro parse_host_port_unbracketed) (simp_all add: plain_host_def rsplit_once_None_iff)
  have "parse_host_port (''https://'' @ (host @ '':'' @ show_nat port) @ path)
      = (Inr (host, port) :: (('i, 'e) WireError, string \<times> nat) result)"
    using assms show_nat_chars [of port]
    by (intro parse_host_port_unbracketed(2) [where port_str = "show_nat port"])
       (simp_all add: plain_host_def rsplit_once_Some_iff parse_u16_show_nat)
  then show "parse_host_port (''https://'' @ host @ '':'' @ show_nat port @ path)
      = (Inr (host, port) :: (('i, 'e) WireError, string \<times> nat) result)"
    by simp
qed

lemma bracketed_host_url:
  assumes "bracketed_host host" and "path = [] \<or> hd path = CHR ''/''" and "port < 65536"
  shows "parse_host_port (''https://'' @ host @ path)
      = (Inr (host, 443) :: (('i, 'e) WireError, string \<times> nat) result)"
    and "parse_host_port (''https://'' @ host @ '':'' @ show_nat port @ path)
      = (Inr (host, port) :: (('i, 'e) WireError, string \<times> nat) result)"
proof -
  have "parse_host_port (''https://'' @ (host @ []) @ path)
      = (Inr (host, 443) :: (('i, 'e) WireError, string \<times> nat) result)"
    by (rule parse_host_port_bracketed(1) [OF assms(1) _ _ assms(2)]) simp_all
  then show "parse_host_port (''https://'' @ host @ path)
      = (Inr (host, 443) :: (('i, 'e) WireError, string \<times> nat) result)"
    by simp
  have "parse_host_port (''https://'' @ (host @ '':'' @ show_nat port) @ path)
      = (Inr (host, port) :: (('i, 'e) WireError, string \<times> nat) result)"
    using show_nat_chars [of port]
    by (intro parse_host_port_bracketed(2) [OF assms(1) _ _ assms(2) refl parse_u16_show_nat [OF assms(3)]]) simp_all
  then show "parse_host_port (''https://'' @ host @ '':'' @ show_nat port @ path)
      = (Inr (host, port) :: (('i, 'e) WireError, string \<times> nat) result)"
    by simp
qed

text \<open>A header block of 1024 bytes under a limit of 1024.\<close>

definition tight_config :: WireConfig where
  "tight_config = WireConfig_default\<lparr> max_header_bytes := 1024 \<rparr>"

definition tight_block :: bytes where
  "tight_block = replicate 1024 0x41 @ header_sep"

lemma position_window_plain:
  "position_window header_sep (replicate n 0x41 @ header_sep) = Some n"
  "position_window header_sep (replicate n 0x41 @ [0x0D]) = None"
  by (induction n) (simp_all add: header_sep_def)

lemma tight_length: "length tight_block = 1028" "tight_block \<noteq> []"
  by (simp_all add: tight_block_def)

lemma tight_window: "position_window header_sep tight_block = Some 1024"
  unfolding tight_block_def by (rule position_window_plain)

lemma tight_window_cut: "position_window header_sep (take 1025 tight_block) = None"
proof -
  have "take 1025 tight_block = replicate 1024 0x41 @ [0x0D]"
    by (simp add: tight_block_def header_sep_def)
  then show ?thesis
    using position_window_plain(2) [of 1024] by simp
qed

section \<open>Properties\<close>

text \<open>
  Claim C27. What the header reader does with every header block, on a stream that keeps delivering
  and however it splits the bytes into reads. The reader always returns. Without a terminator in
  the whole content the result is the error for a closed connection if the content fits into the
  limit, and the error for too long headers if not. With a first terminator at \<open>p\<close>, the block is
  read if the terminator ends within the limit and refused as too long if it starts beyond the
  limit; in between it is one or the other. A block that is read is a prefix of the content that
  holds the first terminator, by at most one read longer than the limit, and the stream is left
  with exactly the bytes that follow it.
\<close>

theorem header_limit:
  assumes "reliable ops content" and "prompt ops content"
  shows "\<exists>r s'. read_until_header_end ops cfg s = Some (r :: (('i, 'e) WireError, bytes) result, s')
    \<and> (case position_window header_sep (content s) of
         None \<Rightarrow> r = Inl (if unat (max_header_bytes cfg) < length (content s)
                        then headers_exceeded (unat (max_header_bytes cfg))
                        else MalformedHeaders ''connection closed before header terminator'')
       | Some p \<Rightarrow>
           (if p + 3 \<le> unat (max_header_bytes cfg) then is_ok r
            else if unat (max_header_bytes cfg) < p then \<not> is_ok r else True)
           \<and> (case r of
                Inl e \<Rightarrow> e = headers_exceeded (unat (max_header_bytes cfg))
              | Inr out \<Rightarrow> content s = out @ content s' \<and> p + 4 \<le> length out
                  \<and> length out \<le> unat (max_header_bytes cfg) + max (unat (response_read_chunk_bytes cfg)) 1))"
proof -
  let ?mx = "unat (max_header_bytes cfg)" and ?chunk = "max (unat (response_read_chunk_bytes cfg)) 1"
  have ps: "prompt_stream ops content"
    using assms by unfold_locales
  have "\<exists>r s'. header_loop ops ?mx ?chunk [] 0 s = Some (r :: (('i, 'e) WireError, bytes) result, s')
      \<and> header_verdict ?mx ?chunk [] (content s) r (content s')"
    by (rule prompt_stream.header_loop_verdict [OF ps loop_inv_start]) simp
  then show ?thesis
    unfolding read_until_header_end_def header_verdict_def append_Nil list.size(3) max_0L .
qed

definition sample_header :: bytes where
  "sample_header = as_bytes ''HTTP/1.1 101 Switching'' @ header_sep"

theorem header_limit_witness:
  "\<exists>out s'. read_until_header_end script_ops WireConfig_default [sample_header, [0x02]]
     = Some (Inr out :: ((unit, unit) WireError, bytes) result, s') \<and> 26 \<le> length out"
proof -
  have "position_window header_sep (concat [sample_header, [0x02]]) = Some 22"
    by (simp add: sample_header_def header_sep_def as_bytes_def byte_of_char_def)
  moreover have "22 + 3 \<le> unat (max_header_bytes WireConfig_default)"
    by (simp add: WireConfig_default_def DEFAULT_MAX_HEADER_BYTES_def)
  moreover obtain r s' where
    "read_until_header_end script_ops WireConfig_default [sample_header, [0x02]]
      = Some (r :: ((unit, unit) WireError, bytes) result, s')"
    "(case position_window header_sep (concat [sample_header, [0x02]]) of
         None \<Rightarrow> r = Inl (if unat (max_header_bytes WireConfig_default) < length (concat [sample_header, [0x02]])
                        then headers_exceeded (unat (max_header_bytes WireConfig_default))
                        else MalformedHeaders ''connection closed before header terminator'')
       | Some p \<Rightarrow>
           (if p + 3 \<le> unat (max_header_bytes WireConfig_default) then is_ok r
            else if unat (max_header_bytes WireConfig_default) < p then \<not> is_ok r else True)
           \<and> (case r of
                Inl e \<Rightarrow> e = headers_exceeded (unat (max_header_bytes WireConfig_default))
              | Inr out \<Rightarrow> concat [sample_header, [0x02]] = out @ concat s' \<and> p + 4 \<le> length out
                  \<and> length out \<le> unat (max_header_bytes WireConfig_default)
                      + max (unat (response_read_chunk_bytes WireConfig_default)) 1))"
    using header_limit [OF script_reliable script_prompt, of WireConfig_default "[sample_header, [0x02]]"]
    by blast
  ultimately show ?thesis
    by (auto simp: is_ok_iff)
qed

text \<open>
  Reading the whole key response from a stream that keeps delivering returns: the
  complete content of the stream when it fits into the limit, the error otherwise, so the buffer
  never holds more than the limit.
\<close>

lemma full_response_within_limit:
  assumes "reliable ops content" and "prompt ops content" and "WireConfig_validate cfg = Inr ()"
  shows "\<exists>s'. read_full_response ops cfg s =
    Some (if length (content s) \<le> unat (key_response_max_bytes cfg) then Inr (content s)
          else (Inl (KeyParse ''response too large'') :: (('i, 'e) WireError, bytes) result), s')"
proof -
  have ps: "prompt_stream ops content"
    using assms(1,2) by unfold_locales
  have r: "wire_in_range cfg"
    using assms(3) by (simp add: wire_validate_iff)
  have "0 < unat (response_read_chunk_bytes cfg)" and "unat (key_response_max_bytes cfg) < 2 ^ 64 - 1"
    using r key_response_max_value(3) [OF r] by (simp_all add: wire_in_range_def)
  then have "\<exists>s'. full_loop ops (unat (key_response_max_bytes cfg)) (unat (response_read_chunk_bytes cfg)) [] s =
    Some (if length ([] :: bytes) + length (content s) \<le> unat (key_response_max_bytes cfg)
          then Inr ([] @ content s)
          else (Inl (KeyParse ''response too large'') :: (('i, 'e) WireError, bytes) result), s')"
    by (intro prompt_stream.full_loop_result [OF ps]) simp_all
  then show ?thesis
    by (simp add: read_full_response_def split: if_splits)
qed

lemma full_response_within_limit_witness:
  "\<exists>s'. read_full_response script_ops WireConfig_default [[1, 2], [], [3]]
     = Some (Inr [1, 2, 3] :: ((unit, unit) WireError, bytes) result, s')"
proof -
  have "\<exists>s'. read_full_response script_ops WireConfig_default [[1, 2], [], [3]] =
    Some (if length (concat [[1, 2], [], [3]] :: bytes) \<le> unat (key_response_max_bytes WireConfig_default)
          then Inr (concat [[1, 2], [], [3]])
          else (Inl (KeyParse ''response too large'') :: ((unit, unit) WireError, bytes) result), s')"
    by (rule full_response_within_limit [OF script_reliable script_prompt wire_default_valid])
  then show ?thesis
    by (simp add: WireConfig_default_def key_response_max_bytes_def saturating_mul_def config_constants)
qed

text \<open>
  Claim C28. The control URL: from a secure URL whose host is a name, an IPv4 address or an IPv6
  address in brackets, with any path and any number of trailing slashes, the host is taken as
  written, its brackets included, and the port is the decimal port given, or 443 when none is
  given. The bracketed address may hold colons, which are not taken for the port's.
\<close>

theorem control_url_parts:
  assumes "plain_host host \<or> bracketed_host host" and "path = [] \<or> hd path = CHR ''/''" and "port < 65536"
  shows "parse_host_port (''https://'' @ host @ path)
      = (Inr (host, 443) :: (('i, 'e) WireError, string \<times> nat) result)
    \<and> parse_host_port (''https://'' @ host @ '':'' @ show_nat port @ path)
      = (Inr (host, port) :: (('i, 'e) WireError, string \<times> nat) result)"
  using assms(1)
proof
  assume "plain_host host"
  from plain_host_url [OF this assms(2,3)] show ?thesis ..
next
  assume "bracketed_host host"
  from bracketed_host_url [OF this assms(2,3)] show ?thesis ..
qed

theorem control_url_parts_witness:
  "parse_host_port ''https://hs.example/a/'' = (Inr (''hs.example'', 443) :: ((unit, unit) WireError, string \<times> nat) result)
   \<and> parse_host_port (''https://[fd7a::1]:'' @ show_nat 8443 @ ''/a/'')
     = (Inr (''[fd7a::1]'', 8443) :: ((unit, unit) WireError, string \<times> nat) result)"
proof -
  have p: "plain_host ''hs.example'' \<or> bracketed_host ''hs.example''"
    and b: "plain_host ''[fd7a::1]'' \<or> bracketed_host ''[fd7a::1]''"
    by (simp_all add: plain_host_def bracketed_host_def)
  show ?thesis
    using conjunct1 [OF control_url_parts [OF p, of "''/a/''" 8443]]
      conjunct2 [OF control_url_parts [OF b, of "''/a/''" 8443]] by simp
qed

text \<open>
  Near the limit the verdict depends on how the bytes arrive: with a validated
  configuration of 1024 header bytes, a header block whose terminator starts exactly at the limit
  is accepted when it arrives in one read, and the same bytes are refused when a read ends one
  byte into the terminator, because the loop also compares the bytes buffered so far with the
  limit.
\<close>

lemma header_limit_depends_on_chunks:
  "WireConfig_validate tight_config = Inr ()
   \<and> concat [tight_block] = concat [take 1025 tight_block, drop 1025 tight_block]
   \<and> read_until_header_end script_ops tight_config [tight_block]
       = (Some (Inr tight_block, [[]]) :: (((unit, unit) WireError, bytes) result \<times> bytes list) option)
   \<and> read_until_header_end script_ops tight_config [take 1025 tight_block, drop 1025 tight_block]
       = (Some (Inl (headers_exceeded 1024), [[], drop 1025 tight_block])
          :: (((unit, unit) WireError, bytes) result \<times> bytes list) option)"
proof (intro conjI)
  show "WireConfig_validate tight_config = Inr ()"
    by (simp add: wire_validate_words tight_config_def WireConfig_default_def config_constants)
  show "concat [tight_block] = concat [take 1025 tight_block, drop 1025 tight_block]"
    by simp
  have read: "read_until_header_end script_ops tight_config s
      = (header_loop script_ops 1024 4096 [] 0 s
          :: (((unit, unit) WireError, bytes) result \<times> bytes list) option)" for s
    by (simp add: read_until_header_end_def tight_config_def WireConfig_default_def config_constants)
  have step: "header_loop script_ops 1024 4096 [] 0 (b # bs)
      = (header_loop script_ops 1024 4096 ([] @ b) (length ([] :: bytes)) ([] # bs)
          :: (((unit, unit) WireError, bytes) result \<times> bytes list) option)"
    if "b \<noteq> []" "length b \<le> 4096" for b bs
    using that by (subst header_loop_unfold [OF loop_inv_start])
      (simp add: script_ops_def script_read_def bind_io_def map_err_io_def)
  have inv: "loop_inv ([] @ b) (length ([] :: bytes))" for b
    by (rule loop_inv_next) simp
  show "read_until_header_end script_ops tight_config [tight_block]
       = (Some (Inr tight_block, [[]]) :: (((unit, unit) WireError, bytes) result \<times> bytes list) option)"
    unfolding read by (subst step) (simp_all add: header_loop_unfold [OF inv, simplified] tight_window tight_length)
  show "read_until_header_end script_ops tight_config [take 1025 tight_block, drop 1025 tight_block]
       = (Some (Inl (headers_exceeded 1024), [[], drop 1025 tight_block])
          :: (((unit, unit) WireError, bytes) result \<times> bytes list) option)"
    unfolding read by (subst step)
      (simp_all add: header_loop_unfold [OF inv, simplified] tight_window_cut tight_length)
qed

end
