(* ===== verification/Wire.thy ===== *)
theory Wire
  imports Wire_Support
begin

text \<open>
  The asynchronous wire layer (\<^verbatim>\<open>crates/dictyon/src/wire/mod.rs\<close> and the connect functions of
  \<^verbatim>\<open>wire/support.rs\<close>): the established stream with its pending bytes, sending and receiving one
  message, fetching the server key, connecting, and the deadline over each of them. TCP, TLS,
  server-name parsing, base64, JSON parsing and the timer are the fields of \<open>Net_ops\<close>.
\<close>

section \<open>The network\<close>

text \<open>
  The first argument of \<open>net_tcp_connect\<close> and \<open>net_elapsed\<close> numbers the connection attempt:
  \<^verbatim>\<open>connect\<close> makes two, for the key and for the control stream. \<open>net_elapsed k ms c\<close> tells whether
  a timer of \<open>ms\<close> milliseconds fires first, where \<open>c\<close> tells whether the future ever completes.
\<close>

record ('tcp, 'n, 'tls, 's, 'i) Net_ops =
  net_tcp_connect :: "nat \<Rightarrow> string \<Rightarrow> ('i, 'tcp) result option"
  net_server_name :: "string \<Rightarrow> 'n option"
  net_tls_connect :: "'tls \<Rightarrow> 'n \<Rightarrow> 'tcp \<Rightarrow> ('i, 's) result option"
  net_webpki_tls :: 'tls
  net_stream :: "('s, 'i) Stream_ops"
  net_elapsed :: "nat \<Rightarrow> nat \<Rightarrow> bool \<Rightarrow> bool"
  net_base64 :: "bytes \<Rightarrow> string"
  net_json :: "bytes \<Rightarrow> string + json"

text \<open>\<^verbatim>\<open>tokio::time::timeout\<close> always fires over a future that never completes.\<close>

definition timer_fires :: "('tcp, 'n, 'tls, 's, 'i, 'x) Net_ops_scheme \<Rightarrow> bool" where
  "timer_fires net \<longleftrightarrow> (\<forall>k ms. net_elapsed net k ms False)"

definition with_connect_deadline ::
  "('tcp, 'n, 'tls, 's, 'i, 'x) Net_ops_scheme \<Rightarrow> nat \<Rightarrow> WireConfig
     \<Rightarrow> (('i, 'e) WireError, 'a) result option \<Rightarrow> (('i, 'e) WireError, 'a) result option" where
  "with_connect_deadline net k cfg fut =
     (case connect_timeout cfg of
        None \<Rightarrow> fut
      | Some deadline \<Rightarrow>
          if net_elapsed net k deadline (fut \<noteq> None)
          then Some (Inl (ConnectTimeout (connect_timeout_ms cfg)))
          else fut)"

section \<open>The established stream\<close>

record ControlConfig =
  control_url :: string
  cc_machine_key :: MachinePrivate
  cc_config :: HammaConfig

definition ControlConfig_new :: "string \<Rightarrow> MachinePrivate \<Rightarrow> ControlConfig" where
  "ControlConfig_new url machine_key =
     \<lparr> control_url = url, cc_machine_key = machine_key, cc_config = Config_default \<rparr>"

record ('s, 't) AsyncControlStream =
  acs_stream :: 's
  acs_conn :: "'t ControlConnection"
  acs_pending :: bytes

definition fill_exact ::
  "('s, 'i, 'x) Stream_ops_scheme \<Rightarrow> nat \<Rightarrow> (('i, 'e) WireError, bytes, ('s, 't) AsyncControlStream) io" where
  "fill_exact ops out_len self =
     (let (taken, pending') = take_pending (acs_pending self) out_len;
          self' = self\<lparr> acs_pending := pending' \<rparr>;
          rest = out_len - length taken in
      if rest = 0 then Some (Inr taken, self')
      else
        (case stream_read_exact ops rest (acs_stream self) of
           None \<Rightarrow> None
         | Some (Inl e, stream') \<Rightarrow> Some (Inl (Tls e), self'\<lparr> acs_stream := stream' \<rparr>)
         | Some (Inr bs, stream') \<Rightarrow>
             Some (Inr (taken @ buffer_fill rest bs), self'\<lparr> acs_stream := stream' \<rparr>)))"

fun noise_of_transport :: "'e TransportError \<Rightarrow> ('i, 'e) WireError" where
  "noise_of_transport (TransportError.Noise e) = WireError.Noise e"
| "noise_of_transport (TransportError.InvalidUrl url) = WireError.Noise (InvalidState url)"

definition send_message ::
  "('h, 't, 'e, 'y) Snow_lib_scheme \<Rightarrow> ('s, 'i, 'x) Stream_ops_scheme \<Rightarrow> bytes
     \<Rightarrow> (('i, 'e) WireError, unit, ('s, 't) AsyncControlStream) io" where
  "send_message sn ops payload self =
     (case send sn (acs_conn self) payload of
        (Inl e, conn') \<Rightarrow> Some (Inl (noise_of_transport e), self\<lparr> acs_conn := conn' \<rparr>)
      | (Inr frame, conn') \<Rightarrow>
          (case stream_write_all ops frame (acs_stream self) of
             None \<Rightarrow> None
           | Some (Inl e, stream') \<Rightarrow>
               Some (Inl (Tls e), self\<lparr> acs_conn := conn', acs_stream := stream' \<rparr>)
           | Some (Inr _, stream') \<Rightarrow>
               Some (Inr (), self\<lparr> acs_conn := conn', acs_stream := stream' \<rparr>)))"

definition open_frame ::
  "('h, 't, 'e, 'y) Snow_lib_scheme \<Rightarrow> bytes \<Rightarrow> (('i, 'e) WireError, bytes, ('s, 't) AsyncControlStream) io" where
  "open_frame sn ciphertext self =
     (case receive sn (acs_conn self) ciphertext of
        (r, conn') \<Rightarrow> Some (map_err noise_of_transport r, self\<lparr> acs_conn := conn' \<rparr>))"

definition recv_message ::
  "('h, 't, 'e, 'y) Snow_lib_scheme \<Rightarrow> ('s, 'i, 'x) Stream_ops_scheme
     \<Rightarrow> (('i, 'e) WireError, bytes, ('s, 't) AsyncControlStream) io" where
  "recv_message sn ops =
     bind_io (fill_exact ops 3) (\<lambda>header.
     if header ! 0 \<noteq> FRAME_TYPE_TRANSPORT
     then fail_io (Frame (''unexpected frame type: 0x'' @ hex_encode [header ! 0]))
     else
       let body_len = unat (u16_from_be_bytes (header ! 1) (header ! 2)) in
       bind_io (fill_exact ops body_len) (\<lambda>ciphertext. open_frame sn ciphertext))"

section \<open>Fetching the server key\<close>

definition key_request :: "string \<Rightarrow> string" where
  "key_request host =
     ''GET '' @ key_path @ '' HTTP/1.1'' @ crlf @ ''Host: '' @ host @ crlf
     @ ''Connection: close'' @ crlf @ crlf"

definition open_tls ::
  "('tcp, 'n, 'tls, 's, 'i, 'x) Net_ops_scheme \<Rightarrow> nat \<Rightarrow> 'tls \<Rightarrow> string
     \<Rightarrow> (('i, 'e) WireError, string \<times> 's) result option" where
  "open_tls net k tls url =
     bind_async (Some (parse_host_port url)) (\<lambda>(host, port).
     bind_async (map_option (map_err TcpConnect)
                   (net_tcp_connect net k (host @ '':'' @ show_nat port))) (\<lambda>tcp.
     bind_async (Some (ok_or (net_server_name net host) (WireError.InvalidUrl url))) (\<lambda>server_name.
     bind_async (map_option (map_err Tls) (net_tls_connect net tls server_name tcp)) (\<lambda>stream.
     Some (Inr (host, stream))))))"

definition fetch_server_key_with_tls_and_config_inner ::
  "('tcp, 'n, 'tls, 's, 'i, 'x) Net_ops_scheme \<Rightarrow> nat \<Rightarrow> string \<Rightarrow> 'tls \<Rightarrow> WireConfig
     \<Rightarrow> (('i, 'e) WireError, MachinePublic) result option" where
  "fetch_server_key_with_tls_and_config_inner net k url tls cfg =
     bind_async (open_tls net k tls url) (\<lambda>(host, stream).
     map_option fst
       (bind_io (map_err_io Tls (stream_write_all (net_stream net) (as_bytes (key_request host)))) (\<lambda>_.
        bind_io (read_full_response (net_stream net) cfg) (\<lambda>response.
        lift_io (parse_server_key_response (net_json net) response))) stream))"

definition fetch_server_key_with_config_inner ::
  "('tcp, 'n, 'tls, 's, 'i, 'x) Net_ops_scheme \<Rightarrow> nat \<Rightarrow> string \<Rightarrow> WireConfig
     \<Rightarrow> (('i, 'e) WireError, MachinePublic) result option" where
  "fetch_server_key_with_config_inner net k url cfg =
     bind_async (open_tls net k (net_webpki_tls net) url) (\<lambda>(host, stream).
     map_option fst
       (bind_io (map_err_io Tls (stream_write_all (net_stream net) (as_bytes (key_request host)))) (\<lambda>_.
        bind_io (read_full_response (net_stream net) cfg) (\<lambda>response.
        lift_io (parse_server_key_response (net_json net) response))) stream))"

definition fetch_server_key_with_config ::
  "('tcp, 'n, 'tls, 's, 'i, 'x) Net_ops_scheme \<Rightarrow> nat \<Rightarrow> string \<Rightarrow> WireConfig
     \<Rightarrow> (('i, 'e) WireError, MachinePublic) result option" where
  "fetch_server_key_with_config net k url cfg =
     with_connect_deadline net k cfg (fetch_server_key_with_config_inner net k url cfg)"

definition fetch_server_key ::
  "('tcp, 'n, 'tls, 's, 'i, 'x) Net_ops_scheme \<Rightarrow> nat \<Rightarrow> string
     \<Rightarrow> (('i, 'e) WireError, MachinePublic) result option" where
  "fetch_server_key net k url = fetch_server_key_with_config net k url WireConfig_default"

definition fetch_server_key_with_tls_and_config ::
  "('tcp, 'n, 'tls, 's, 'i, 'x) Net_ops_scheme \<Rightarrow> nat \<Rightarrow> string \<Rightarrow> 'tls \<Rightarrow> WireConfig
     \<Rightarrow> (('i, 'e) WireError, MachinePublic) result option" where
  "fetch_server_key_with_tls_and_config net k url tls cfg =
     with_connect_deadline net k cfg (fetch_server_key_with_tls_and_config_inner net k url tls cfg)"

definition fetch_server_key_with_tls ::
  "('tcp, 'n, 'tls, 's, 'i, 'x) Net_ops_scheme \<Rightarrow> nat \<Rightarrow> string \<Rightarrow> 'tls
     \<Rightarrow> (('i, 'e) WireError, MachinePublic) result option" where
  "fetch_server_key_with_tls net k url tls =
     fetch_server_key_with_tls_and_config net k url tls WireConfig_default"

section \<open>Connecting\<close>

text \<open>From the upgrade request on: write it, read the response headers, check the status, read the
  Noise response frame, complete the handshake.\<close>

definition upgrade_exchange ::
  "('h, 't, 'e, 'y) Snow_lib_scheme \<Rightarrow> ('s, 'i, 'x) Stream_ops_scheme \<Rightarrow> WireConfig \<Rightarrow> 'h NoiseHandshake \<Rightarrow> string
     \<Rightarrow> (('i, 'e) WireError, 't ControlConnection \<times> bytes, 's) io" where
  "upgrade_exchange sn ops cfg handshake request =
     bind_io (map_err_io Tls (stream_write_all ops (as_bytes request))) (\<lambda>_.
     bind_io (read_upgrade_response ops cfg) (\<lambda>(status_line, after_headers).
     if \<not> str_contains ''101'' status_line then fail_io (UnexpectedStatus status_line)
     else
       bind_io (read_noise_response_frame ops after_headers) (\<lambda>(noise_body, pending).
       bind_io (lift_io (map_err noise_of_transport (complete_handshake sn handshake noise_body))) (\<lambda>conn.
       return_io (conn, pending)))))"

definition connect_with_key_and_tls_inner ::
  "('h, 't, 'e, 'y) Snow_lib_scheme \<Rightarrow> ('tcp, 'n, 'tls, 's, 'i, 'x) Net_ops_scheme \<Rightarrow> nat \<Rightarrow> ControlConfig
     \<Rightarrow> MachinePublic \<Rightarrow> 'tls \<Rightarrow> (('i, 'e) WireError, ('s, 't) AsyncControlStream) result option" where
  "connect_with_key_and_tls_inner sn net k config server_key tls =
     bind_async (open_tls net k tls (control_url config)) (\<lambda>(host, stream).
     case initiation_message sn
            (NoiseHandshake_with_config (MachinePrivate (machine_private_bytes (cc_machine_key config)))
               server_key (config_noise (cc_config config))) of
       (Inl e, _) \<Rightarrow> Some (Inl (WireError.Noise e))
     | (Inr init_msg, handshake) \<Rightarrow>
         (case upgrade_exchange sn (net_stream net) (config_wire (cc_config config)) handshake
                 (build_upgrade_request host (net_base64 net init_msg)) stream of
            None \<Rightarrow> None
          | Some (Inl e, _) \<Rightarrow> Some (Inl e)
          | Some (Inr (conn, pending), stream') \<Rightarrow>
              Some (Inr \<lparr> acs_stream = stream', acs_conn = conn, acs_pending = pending \<rparr>)))"

definition connect_with_key_and_tls ::
  "('h, 't, 'e, 'y) Snow_lib_scheme \<Rightarrow> ('tcp, 'n, 'tls, 's, 'i, 'x) Net_ops_scheme \<Rightarrow> nat \<Rightarrow> ControlConfig
     \<Rightarrow> MachinePublic \<Rightarrow> 'tls \<Rightarrow> (('i, 'e) WireError, ('s, 't) AsyncControlStream) result option" where
  "connect_with_key_and_tls sn net k config server_key tls =
     with_connect_deadline net k (config_wire (cc_config config))
       (connect_with_key_and_tls_inner sn net k config server_key tls)"

definition connect_with_key ::
  "('h, 't, 'e, 'y) Snow_lib_scheme \<Rightarrow> ('tcp, 'n, 'tls, 's, 'i, 'x) Net_ops_scheme \<Rightarrow> nat \<Rightarrow> ControlConfig
     \<Rightarrow> MachinePublic \<Rightarrow> (('i, 'e) WireError, ('s, 't) AsyncControlStream) result option" where
  "connect_with_key sn net k config server_key =
     connect_with_key_and_tls sn net k config server_key (net_webpki_tls net)"

definition connect ::
  "('h, 't, 'e, 'y) Snow_lib_scheme \<Rightarrow> ('tcp, 'n, 'tls, 's, 'i, 'x) Net_ops_scheme \<Rightarrow> ControlConfig
     \<Rightarrow> (('i, 'e) WireError, ('s, 't) AsyncControlStream) result option" where
  "connect sn net config =
     bind_async (fetch_server_key_with_config net 0 (control_url config) (config_wire (cc_config config)))
       (\<lambda>server_key. connect_with_key sn net 1 config server_key)"

definition connect_with_tls ::
  "('h, 't, 'e, 'y) Snow_lib_scheme \<Rightarrow> ('tcp, 'n, 'tls, 's, 'i, 'x) Net_ops_scheme \<Rightarrow> ControlConfig \<Rightarrow> 'tls
     \<Rightarrow> (('i, 'e) WireError, ('s, 't) AsyncControlStream) result option" where
  "connect_with_tls sn net config tls =
     bind_async (fetch_server_key_with_tls_and_config net 0 (control_url config) tls
                   (config_wire (cc_config config)))
       (\<lambda>server_key. connect_with_key_and_tls sn net 1 config server_key tls)"

section \<open>The stream as a byte source\<close>

definition acs_avail :: "('s \<Rightarrow> bytes) \<Rightarrow> ('s, 't) AsyncControlStream \<Rightarrow> bytes" where
  "acs_avail content a = acs_pending a @ content (acs_stream a)"

text \<open>\<^verbatim>\<open>fill_exact\<close> is \<^verbatim>\<open>fill_from\<close> on the stream and the pending bytes of the object.\<close>

lemma fill_exact_fill_from:
  "fill_exact ops n a =
     map_option (\<lambda>(r, (s, p)). (r, a\<lparr> acs_stream := s, acs_pending := p \<rparr>))
       (fill_from ops n (acs_stream a, acs_pending a))"
  by (cases a)
     (auto simp: fill_exact_def fill_from_def Let_def split: prod.splits option.splits sum.splits)

lemma fill_exact_conn:
  "fill_exact ops n a = Some (r, a') \<Longrightarrow> acs_conn a' = acs_conn a"
  by (auto simp: fill_exact_fill_from)

lemma fill_exact_Inr:
  assumes "fill_exact ops n a = Some (Inr bs :: (('i, 'e) WireError, bytes) result, a')"
  shows "fill_from ops n (acs_stream a, acs_pending a)
    = Some (Inr bs :: (('i, 'e) WireError, bytes) result, (acs_stream a', acs_pending a'))"
  using assms by (auto simp: fill_exact_fill_from)


context reliable_stream
begin

lemma fill_exact_takes:
  assumes "fill_exact ops n a = Some (Inr bs, a')"
  shows "acs_avail content a = bs @ acs_avail content a' \<and> length bs = n"
  using fill_from_takes [OF fill_exact_Inr [OF assms]]
  by (simp add: acs_avail_def prefixed_content_def)

end

sublocale reliable_stream \<subseteq> pending: byte_source "fill_exact ops" "acs_avail content"
  by unfold_locales (rule fill_exact_takes)

context prompt_stream
begin

lemma fill_exact_ready:
  assumes "n \<le> length (acs_avail content a)"
  shows "\<exists>bs a'. fill_exact ops n a = Some (Inr bs :: (('i, 'e) WireError, bytes) result, a')"
proof -
  have "\<exists>bs s'. fill_from ops n (acs_stream a, acs_pending a)
      = Some (Inr bs :: (('i, 'e) WireError, bytes) result, s')"
    using assms by (intro fill_from_ready) (simp add: acs_avail_def prefixed_content_def)
  then show ?thesis
    by (auto simp: fill_exact_fill_from)
qed

end

sublocale prompt_stream \<subseteq> pending_ready: ready_source "fill_exact ops" "acs_avail content"
  by unfold_locales (rule fill_exact_ready)

section \<open>Messages\<close>

text \<open>Sending a list of payloads (the frames in order), and receiving \<open>n\<close> messages.\<close>

fun seal_all ::
  "('h, 't, 'e, 'y) Snow_lib_scheme \<Rightarrow> 't ControlConnection \<Rightarrow> bytes list
     \<Rightarrow> (bytes list \<times> 't ControlConnection) option" where
  "seal_all sn c [] = Some ([], c)"
| "seal_all sn c (m # ms) =
     (case send sn c m of
        (Inl _, _) \<Rightarrow> None
      | (Inr frame, c') \<Rightarrow> map_option (\<lambda>(fs, c''). (frame # fs, c'')) (seal_all sn c' ms))"

fun recv_all ::
  "('h, 't, 'e, 'y) Snow_lib_scheme \<Rightarrow> ('s, 'i, 'x) Stream_ops_scheme \<Rightarrow> nat
     \<Rightarrow> (('i, 'e) WireError, bytes list, ('s, 't) AsyncControlStream) io" where
  "recv_all sn ops 0 = return_io []"
| "recv_all sn ops (Suc n) =
     bind_io (recv_message sn ops) (\<lambda>m. bind_io (recv_all sn ops n) (\<lambda>ms. return_io (m # ms)))"

context prompt_stream
begin

text \<open>One frame on the wire: one of another type costs its header only, one of the transport type is
  consumed whole, whatever the library makes of its body.\<close>

lemma recv_message_any_frame:
  assumes "acs_avail content a = t # be16_enc (length ct) @ ct @ rest" and "length ct < 65536"
  shows "\<exists>a'. recv_message sn ops a = Some
      (if t = MSG_TYPE_TRANSPORT then map_err noise_of_transport (fst (receive sn (acs_conn a) ct))
       else Inl (Frame (''unexpected frame type: 0x'' @ hex_encode [t])) :: (('i, 'e) WireError, bytes) result, a')
    \<and> acs_avail content a' = (if t = MSG_TYPE_TRANSPORT then rest else ct @ rest)
    \<and> acs_conn a' = (if t = MSG_TYPE_TRANSPORT then snd (receive sn (acs_conn a) ct) else acs_conn a)"
proof -
  have "\<exists>h a1 a2. fill_exact ops 3 a = Some (Inr h :: (('i, 'e) WireError, bytes) result, a1)
    \<and> h ! 0 = t
    \<and> fill_exact ops (unat (u16_from_be_bytes (h ! 1) (h ! 2))) a1
        = Some (Inr ct :: (('i, 'e) WireError, bytes) result, a2)
    \<and> acs_avail content a2 = rest"
    by (rule pending_ready.fill_frame_ready [OF assms])
  then obtain h a1 a2 where
    h: "fill_exact ops 3 a = Some (Inr h :: (('i, 'e) WireError, bytes) result, a1)" "h ! 0 = t"
    and b: "fill_exact ops (unat (u16_from_be_bytes (h ! 1) (h ! 2))) a1
        = Some (Inr ct :: (('i, 'e) WireError, bytes) result, a2)"
    and rest: "acs_avail content a2 = rest"
    by blast
  have c: "acs_conn a1 = acs_conn a" "acs_conn a2 = acs_conn a"
    using fill_exact_conn [OF h(1)] fill_exact_conn [OF b] by simp_all
  show ?thesis
  proof (cases "t = MSG_TYPE_TRANSPORT")
    case True
    obtain r d' where r: "receive sn (acs_conn a) ct = (r, d')"
      by fastforce
    then have "recv_message sn ops a = Some (map_err noise_of_transport r
        :: (('i, 'e) WireError, bytes) result, a2\<lparr> acs_conn := d' \<rparr>)"
      using h b c True
      by (simp add: recv_message_def open_frame_def FRAME_TYPE_TRANSPORT_def MSG_TYPE_TRANSPORT_def)
    with r rest True show ?thesis
      by (intro exI [of _ "a2\<lparr> acs_conn := d' \<rparr>"]) (simp add: acs_avail_def)
  next
    case False
    have "acs_avail content a1 = ct @ rest"
      using fill_exact_takes [OF b] rest by simp
    with h c False show ?thesis
      by (intro exI [of _ a1]) (simp add: recv_message_def FRAME_TYPE_TRANSPORT_def MSG_TYPE_TRANSPORT_def)
  qed
qed

lemma recv_message_frame:
  assumes "acs_avail content a = MSG_TYPE_TRANSPORT # be16_enc (length ct) @ ct @ rest"
    and "length ct < 65536" and "receive sn (acs_conn a) ct = (Inr payload, d')"
  shows "\<exists>a'. recv_message sn ops a = Some (Inr payload :: (('i, 'e) WireError, bytes) result, a')
    \<and> acs_avail content a' = rest \<and> acs_conn a' = d'"
  using recv_message_any_frame [OF assms(1,2), of sn] assms(3) by simp

lemma recv_all_sealed:
  assumes "seals sn" and "session_pair sn R" and "in_step R c (acs_conn a)"
    and "seal_all sn c msgs = Some (frames, c')"
    and "acs_avail content a = concat frames @ rest"
  shows "\<exists>a'. recv_all sn ops (length msgs) a
      = Some (Inr msgs :: (('i, 'e) WireError, bytes list) result, a')
    \<and> acs_avail content a' = rest \<and> in_step R c' (acs_conn a')"
  using assms(3-5)
proof (induction msgs arbitrary: c a frames)
  case Nil
  then show ?case
    by simp
next
  case (Cons m ms)
  obtain f c1 where s: "send sn c m = (Inr f, c1)"
    using Cons.prems(2) by (auto split: prod.splits sum.splits)
  then obtain fs where fs: "seal_all sn c1 ms = Some (fs, c')" "frames = f # fs"
    using Cons.prems(2) by auto
  obtain ct d' where f: "f = MSG_TYPE_TRANSPORT # be16_enc (length ct) @ ct" "length ct < 65536"
    and r: "receive sn (acs_conn a) ct = (Inr m, d')" and d': "in_step R c1 d'"
    using send_frame [OF assms(1,2) Cons.prems(1) s] by blast
  have "acs_avail content a = MSG_TYPE_TRANSPORT # be16_enc (length ct) @ ct @ concat fs @ rest"
    using Cons.prems(3) by (simp add: fs f)
  from recv_message_frame [OF this f(2) r] obtain a1 where
    a1: "recv_message sn ops a = Some (Inr m :: (('i, 'e) WireError, bytes) result, a1)"
      "acs_avail content a1 = concat fs @ rest" "acs_conn a1 = d'"
    by blast
  obtain a2 where "recv_all sn ops (length ms) a1
      = Some (Inr ms :: (('i, 'e) WireError, bytes list) result, a2)"
    "acs_avail content a2 = rest" "in_step R c' (acs_conn a2)"
    using Cons.IH [OF _ fs(1) a1(2)] d' a1(3) by auto
  with a1(1) show ?case
    by auto
qed

end

section \<open>The upgrade\<close>

context reliable_stream
begin

lemma upgrade_exchange_takes:
  assumes "upgrade_exchange sn ops cfg handshake request s
    = Some (Inr (conn, pending) :: (('i, 'e) WireError, 't ControlConnection \<times> bytes) result, s')"
  shows "\<exists>hdr t msg. content s
      = hdr @ header_sep @ (t # be16_enc (length msg) @ msg) @ pending @ content s'
    \<and> length msg < 65536 \<and> position_window header_sep (content s) = Some (length hdr)
    \<and> length hdr \<le> unat (max_header_bytes cfg)
    \<and> str_contains ''101'' (first_line (str_of_bytes hdr))
    \<and> process_response sn handshake (t # be16_enc (length msg) @ msg) = Inr (conn_noise conn)"
proof -
  obtain s1 u line after_headers s2 framed s3 where
    w: "stream_write_all ops (as_bytes request) s = Some (Inr u, s1)"
    and r: "read_upgrade_response ops cfg s1
      = Some (Inr (line, after_headers) :: (('i, 'e) WireError, string \<times> bytes) result, s2)"
    and ok: "str_contains ''101'' line"
    and f: "read_noise_response_frame ops after_headers s2
      = Some (Inr (framed, pending) :: (('i, 'e) WireError, bytes \<times> bytes) result, s3)"
    and c: "complete_handshake sn handshake framed = Inr conn" and s3: "s3 = s'"
    using assms by (auto simp: upgrade_exchange_def bind_io_Inr_iff map_err_io_Inr_iff map_err_Inr_iff
        split: prod.splits if_splits)
  obtain buf where b: "header_loop ops (unat (max_header_bytes cfg))
      (max (unat (response_read_chunk_bytes cfg)) 1) [] 0 s1
      = Some (Inr buf :: (('i, 'e) WireError, bytes) result, s2)"
    and sp: "split_upgrade_response buf
      = (Inr (line, after_headers) :: (('i, 'e) WireError, string \<times> bytes) result)"
    using r by (auto simp: read_upgrade_response_def read_until_header_end_def bind_io_Inr_iff)
  obtain p where p: "content s1 = buf @ content s2" "position_window header_sep buf = Some p"
    "p \<le> unat (max_header_bytes cfg)"
    using header_loop_accepts [OF b loop_inv_start] by auto
  obtain hdr where hdr: "buf = hdr @ header_sep @ after_headers" "p = length hdr"
    "line = first_line (str_of_bytes hdr)"
    using split_upgrade_response_Inr [OF sp] p(2) by auto
  obtain t msg where m: "framed = t # be16_enc (length msg) @ msg" "length msg < 65536"
    "after_headers @ content s2 = framed @ pending @ content s3"
    using noise_response_frame_takes [OF f] by blast
  have "content s = hdr @ header_sep @ framed @ pending @ content s'"
    using write_keeps [OF w] p(1) hdr(1) m(3) s3 by simp
  moreover have "position_window header_sep (content s) = Some (length hdr)"
    using position_window_append [OF _ p(2), of "content s2"] write_keeps [OF w] p(1) hdr(2) by simp
  moreover have "process_response sn handshake framed = Inr (conn_noise conn)"
    using c by (auto simp: complete_handshake_def bind_r_Inr_iff map_err_Inr_iff)
  ultimately show ?thesis
    using p(3) hdr(2,3) ok m(1,2) by blast
qed

end

lemma with_connect_deadline_Inr:
  "with_connect_deadline net k cfg fut = Some (Inr x) \<Longrightarrow> fut = Some (Inr x)"
  by (auto simp: with_connect_deadline_def split: option.splits if_splits)

lemma with_connect_deadline_returns:
  "timer_fires net \<Longrightarrow> connect_timeout_ms cfg \<noteq> 0 \<Longrightarrow> with_connect_deadline net k cfg fut \<noteq> None"
  by (cases fut) (auto simp: with_connect_deadline_def connect_timeout_def timer_fires_def)

section \<open>A sample network\<close>

text \<open>
  An instance of the network: the first connection answers with a server key, the second upgrades,
  sends the handshake response, and already a first transport frame in the same chunk; the timer
  fires only over a future that never completes.
\<close>

definition sample_tail :: bytes where
  "sample_tail = [0x15, 1, 0, 0, 0, 0x7b] @ replicate 16 0"

definition sample_upgrade :: "bytes list" where
  "sample_upgrade = [sample_header @ [0x02, 0x00, 0x01, 0x09] @ [0x04, 0x00], sample_tail]"

definition sample_net :: "(nat, unit, unit, bytes list, unit) Net_ops" where
  "sample_net =
     \<lparr> net_tcp_connect = (\<lambda>k _. Some (Inr k)),
       net_server_name = (\<lambda>_. Some ()),
       net_tls_connect = (\<lambda>_ _ k. Some (Inr (if k = 0 then [as_bytes ''key''] else sample_upgrade))),
       net_webpki_tls = (),
       net_stream = script_ops,
       net_elapsed = (\<lambda>_ _ completes. \<not> completes),
       net_base64 = str_of_bytes,
       net_json = (\<lambda>_. Inr (JObject [(''PublicKey'', JString (MachinePublic_to_hex (MachinePublic (replicate 32 2))))])) \<rparr>"

definition sample_config :: ControlConfig where
  "sample_config = ControlConfig_new ''https://c.example'' (MachinePrivate (replicate 32 1))"

definition sample_established :: "(bytes list, nat) AsyncControlStream" where
  "sample_established =
     \<lparr> acs_stream = [[], sample_tail], acs_conn = \<lparr> conn_noise = NoiseTransport_from_snow 0 \<rparr>,
       acs_pending = [0x04, 0x00] \<rparr>"

lemma sample_url: "parse_host_port ''https://c.example''
    = (Inr (''c.example'', 443) :: ((unit, unit) WireError, string \<times> nat) result)"
  by (simp add: parse_host_port_def trim_end_matches_def strip_prefix_def split_next_def
      rfind_def rsplit_once_def)

lemma sample_open_tls:
  "open_tls sample_net 1 () ''https://c.example''
     = (Some (Inr (''c.example'', sample_upgrade)) :: ((unit, unit) WireError, string \<times> bytes list) result option)"
  by (simp add: open_tls_def sample_url sample_net_def)

lemma sample_handshake:
  "NoiseHandshake_with_config (MachinePrivate (replicate 32 1)) (MachinePublic (replicate 32 2)) NoiseConfig_default
     = mock_handshake"
  by (simp add: mock_handshake_def NoiseHandshake_new_def)

definition sample_first_read :: bytes where
  "sample_first_read = sample_header @ [0x02, 0x00, 0x01, 0x09, 0x04, 0x00]"

lemma sample_first_read_window: "position_window header_sep sample_first_read = Some 22"
  by (simp add: sample_first_read_def sample_header_def header_sep_def as_bytes_def byte_of_char_def)

lemma sample_read_loop:
  "header_loop script_ops 8192 4096 [] 0 sample_upgrade
     = (Some (Inr sample_first_read, [[], sample_tail])
        :: (((unit, unit) WireError, bytes) result \<times> bytes list) option)"
proof -
  have len: "length sample_first_read \<le> 4096" "sample_first_read \<noteq> []"
    by (simp_all add: sample_first_read_def sample_header_def)
  have up: "sample_upgrade = [sample_first_read, sample_tail]"
    by (simp add: sample_upgrade_def sample_first_read_def)
  have none: "position_window header_sep [] = None"
    by simp
  have "header_loop script_ops 8192 4096 ([] @ sample_first_read) (length ([] :: bytes)) [[], sample_tail]
     = (Some (Inr sample_first_read, [[], sample_tail])
        :: (((unit, unit) WireError, bytes) result \<times> bytes list) option)"
    using sample_first_read_window by (subst header_loop_unfold [OF loop_inv_next [OF none]]) simp
  with len show ?thesis
    by (subst header_loop_unfold [OF loop_inv_start])
       (simp add: up script_ops_def script_read_def bind_io_def map_err_io_def)
qed

lemma sample_split:
  "split_upgrade_response sample_first_read
     = (Inr (''HTTP/1.1 101 Switching'', [0x02, 0x00, 0x01, 0x09, 0x04, 0x00])
        :: ((unit, unit) WireError, string \<times> bytes) result)"
proof -
  let ?h = "as_bytes ''HTTP/1.1 101 Switching''"
  have e: "sample_first_read = ?h @ header_sep @ [0x02, 0x00, 0x01, 0x09, 0x04, 0x00]"
    by (simp add: sample_first_read_def sample_header_def)
  have "utf8_valid ?h"
    by (rule utf8_valid_ascii) (simp add: as_bytes_def byte_of_char_def)
  then have u: "from_utf8 ?h = Some ''HTTP/1.1 101 Switching''"
    by (simp only: from_utf8_def str_of_bytes_as_bytes if_True)
  have t: "get_to sample_first_read 22 = Some ?h"
    unfolding e by (rule get_to_append) simp
  have d: "get_from sample_first_read (22 + 4) = Some [0x02, 0x00, 0x01, 0x09, 0x04, 0x00]"
    unfolding e by (simp add: get_from_def header_sep_def)
  show ?thesis
    unfolding split_upgrade_response_def sample_first_read_window
    by (simp only: ok_or_simps bind_r_simps t d u) (simp add: first_line_def)
qed

lemma sample_upgrade_read:
  "read_upgrade_response script_ops WireConfig_default sample_upgrade
     = (Some (Inr (''HTTP/1.1 101 Switching'', [0x02, 0x00, 0x01, 0x09, 0x04, 0x00]), [[], sample_tail])
        :: (((unit, unit) WireError, string \<times> bytes) result \<times> bytes list) option)"
  by (simp add: read_upgrade_response_def read_until_header_end_def WireConfig_default_def
      config_constants sample_read_loop sample_split)

lemma sample_frame_read:
  "read_noise_response_frame script_ops [0x02, 0x00, 0x01, 0x09, 0x04, 0x00] [[], sample_tail]
     = (Some (Inr ([0x02, 0x00, 0x01, 0x09], [0x04, 0x00]), [[], sample_tail])
        :: (((unit, unit) WireError, bytes \<times> bytes) result \<times> bytes list) option)"
  by (simp add: read_noise_response_frame_def bind_io_def fill_from_def take_pending_def Let_def
      u16_from_be_bytes_def)

lemma sample_connects:
  "connect_with_key_and_tls mock_snow sample_net 1 sample_config (MachinePublic (replicate 32 2)) ()
     = Some (Inr sample_established)"
proof -
  have "upgrade_exchange mock_snow script_ops WireConfig_default
      (mock_handshake\<lparr> hs_state := AwaitingResponse () \<rparr>) request sample_upgrade
    = Some (Inr (\<lparr> conn_noise = NoiseTransport_from_snow 0 \<rparr>, [0x04, 0x00]), [[], sample_tail])" for request
  proof -
    have w: "stream_write_all script_ops bs s = Some (Inr (), s)" for bs s
      by (simp add: script_ops_def)
    have c: "complete_handshake mock_snow (mock_handshake\<lparr> hs_state := AwaitingResponse () \<rparr>)
        [0x02, 0x00, 0x01, 0x09] = Inr \<lparr> conn_noise = NoiseTransport_from_snow 0 \<rparr>"
      by (simp add: complete_handshake_def mock_process_response)
    have s: "str_contains ''101'' ''HTTP/1.1 101 Switching''"
      by (simp add: str_contains_def)
    show ?thesis
      using w by (simp add: upgrade_exchange_def bind_io_def map_err_io_def sample_upgrade_read s
          sample_frame_read c)
  qed
  then have "connect_with_key_and_tls_inner mock_snow sample_net 1 sample_config
      (MachinePublic (replicate 32 2)) () = Some (Inr sample_established)"
    by (simp add: connect_with_key_and_tls_inner_def sample_config_def ControlConfig_new_def
        sample_open_tls [unfolded One_nat_def] Config_default_def sample_handshake mock_initiation_message
        sample_established_def) (simp add: sample_net_def)
  then show ?thesis
    by (simp add: connect_with_key_and_tls_def with_connect_deadline_def sample_net_def
        split: option.split)
qed

text \<open>What a successful connect has taken from the stream, and what it leaves.\<close>

lemma connect_takes:
  fixes a :: "('s, 't) AsyncControlStream" and sn :: "('h, 't, 'e, 'y) Snow_lib_scheme"
  assumes "reliable (net_stream net) content"
    and "connect_with_key_and_tls sn net k config server_key tls = Some (Inr a)"
  shows "\<exists>host s m h hdr t msg.
    (open_tls net k tls (control_url config) :: (('i, 'e) WireError, string \<times> 's) result option)
      = Some (Inr (host, s))
    \<and> initiation_message sn (NoiseHandshake_with_config (cc_machine_key config) server_key
        (config_noise (cc_config config))) = (Inr m, h)
    \<and> content s = hdr @ header_sep @ (t # be16_enc (length msg) @ msg) @ acs_avail content a
    \<and> length msg < 65536
    \<and> position_window header_sep (content s) = Some (length hdr)
    \<and> length hdr \<le> unat (max_header_bytes (config_wire (cc_config config)))
    \<and> str_contains ''101'' (first_line (str_of_bytes hdr))
    \<and> process_response sn h (t # be16_enc (length msg) @ msg) = Inr (conn_noise (acs_conn a))"
proof -
  have "connect_with_key_and_tls_inner sn net k config server_key tls = Some (Inr a)"
    using assms(2) unfolding connect_with_key_and_tls_def by (rule with_connect_deadline_Inr)
  then obtain host s where
    o: "open_tls net k tls (control_url config) = (Some (Inr (host, s)) :: (('i, 'e) WireError, string \<times> 's) result option)"
    and body: "(case initiation_message sn (NoiseHandshake_with_config (cc_machine_key config) server_key
            (config_noise (cc_config config))) of
          (Inl e, _) \<Rightarrow> Some (Inl (WireError.Noise e))
        | (Inr m, h) \<Rightarrow>
            (case upgrade_exchange sn (net_stream net) (config_wire (cc_config config)) h
                (build_upgrade_request host (net_base64 net m)) s of
               None \<Rightarrow> None
             | Some (Inl e, _) \<Rightarrow> Some (Inl e)
             | Some (Inr (conn, pending), s') \<Rightarrow>
                 Some (Inr \<lparr> acs_stream = s', acs_conn = conn, acs_pending = pending \<rparr>)))
      = (Some (Inr a) :: (('i, 'e) WireError, ('s, 't) AsyncControlStream) result option)"
    unfolding connect_with_key_and_tls_inner_def by (auto simp: bind_async_Inr_iff)
  obtain m h where
    i: "initiation_message sn (NoiseHandshake_with_config (cc_machine_key config) server_key
        (config_noise (cc_config config))) = (Inr m, h)"
    using body by (auto split: prod.splits sum.splits)
  obtain s' where
    u: "upgrade_exchange sn (net_stream net) (config_wire (cc_config config)) h
        (build_upgrade_request host (net_base64 net m)) s
        = Some (Inr (acs_conn a, acs_pending a) :: (('i, 'e) WireError, 't ControlConnection \<times> bytes) result, s')"
    and s': "acs_stream a = s'"
    using body by (auto simp: i split: prod.splits sum.splits option.splits)
  have "reliable_stream (net_stream net) content"
    using assms(1) by unfold_locales
  from reliable_stream.upgrade_exchange_takes [OF this u] o i s' show ?thesis
    unfolding acs_avail_def by blast
qed

section \<open>Properties\<close>

text \<open>
  Claim C3. Connecting loses no byte. On any stream that delivers bytes in order, a successful
  connect has consumed exactly the header block up to the first terminator, which starts within
  the limit and whose first line names status 101, and one response frame, on which the
  handshake completed; the bytes read beyond the frame wait in the pending buffer, in front of
  what is still to come.
\<close>

theorem connect_hands_over_every_byte:
  fixes a :: "('s, 't) AsyncControlStream" and sn :: "('h, 't, 'e, 'y) Snow_lib_scheme"
  assumes "reliable (net_stream net) content"
    and "connect_with_key_and_tls sn net k config server_key tls = Some (Inr a)"
  shows "\<exists>host s m h hdr t msg.
    (open_tls net k tls (control_url config) :: (('i, 'e) WireError, string \<times> 's) result option)
      = Some (Inr (host, s))
    \<and> initiation_message sn (NoiseHandshake_with_config (cc_machine_key config) server_key
        (config_noise (cc_config config))) = (Inr m, h)
    \<and> content s = hdr @ header_sep @ (t # be16_enc (length msg) @ msg) @ acs_avail content a
    \<and> length msg < 65536
    \<and> position_window header_sep (content s) = Some (length hdr)
    \<and> length hdr \<le> unat (max_header_bytes (config_wire (cc_config config)))
    \<and> str_contains ''101'' (first_line (str_of_bytes hdr))
    \<and> process_response sn h (t # be16_enc (length msg) @ msg) = Inr (conn_noise (acs_conn a))"
  by (rule connect_takes [OF assms])

theorem connect_hands_over_every_byte_witness:
  "\<exists>hdr t msg. concat sample_upgrade
     = hdr @ header_sep @ (t # be16_enc (length msg) @ msg) @ acs_avail concat sample_established"
proof -
  have "reliable (net_stream sample_net) concat"
    by (simp add: sample_net_def script_reliable)
  from connect_hands_over_every_byte [OF this sample_connects] show ?thesis
    using sample_open_tls by (auto simp: sample_config_def ControlConfig_new_def)
qed

text \<open>
  Messages arrive as sent: when the frames that one end seals, one after the other, are
  what the other end's stream delivers (partly from the pending buffer), the other end receives
  exactly the sent messages, in order, and is left with exactly the bytes that follow them.
\<close>

lemma messages_arrive_as_sent:
  assumes "reliable ops content" and "prompt ops content"
    and "seals sn" and "session_pair sn R" and "in_step R c (acs_conn a)"
    and "seal_all sn c msgs = Some (frames, c')"
    and "acs_avail content a = concat frames @ rest"
  shows "\<exists>a'. recv_all sn ops (length msgs) a
      = Some (Inr msgs :: (('i, 'e) WireError, bytes list) result, a')
    \<and> acs_avail content a' = rest \<and> in_step R c' (acs_conn a')"
proof -
  have "prompt_stream ops content"
    using assms(1,2) by unfold_locales
  then show ?thesis
    by (rule prompt_stream.recv_all_sealed [OF _ assms(3-7)])
qed

definition sample_frames :: "bytes list" where
  "sample_frames =
     [[0x04, 0x00, 0x11, 1] @ replicate 16 0, [0x04, 0x00, 0x12, 2, 3] @ replicate 16 1]"

definition sample_receiver :: "(bytes list, nat) AsyncControlStream" where
  "sample_receiver =
     \<lparr> acs_stream = [drop 2 (concat sample_frames) @ [9]],
       acs_conn = \<lparr> conn_noise = NoiseTransport_from_snow 0 \<rparr>,
       acs_pending = take 2 (concat sample_frames) \<rparr>"

lemma messages_arrive_as_sent_witness:
  "\<exists>a'. recv_all mock_snow script_ops 2 sample_receiver
      = Some (Inr [[1], [2, 3]] :: ((unit, unit) WireError, bytes list) result, a')
    \<and> acs_avail concat a' = [9]"
proof -
  have f: "seal_all mock_snow \<lparr> conn_noise = NoiseTransport_from_snow 0 \<rparr> [[1], [2, 3]]
    = Some (sample_frames, \<lparr> conn_noise = NoiseTransport_from_snow 2 \<rparr>)"
    by (simp add: send_def encrypt_def mock_snow_def NoiseTransport_from_snow_def
        NoiseConfig_default_def config_constants TAG_LEN_def u16_try_from_def u16_to_be_bytes_def
        MSG_TYPE_TRANSPORT_def sample_frames_def)
  have c: "in_step (=) \<lparr> conn_noise = NoiseTransport_from_snow 0 \<rparr> (acs_conn sample_receiver)"
    and r: "acs_avail concat sample_receiver = concat sample_frames @ [9]"
    by (simp_all add: in_step_def sample_receiver_def acs_avail_def)
  have "\<exists>a'. recv_all mock_snow script_ops (length [[1], [2, 3] :: bytes]) sample_receiver
      = Some (Inr [[1], [2, 3]] :: ((unit, unit) WireError, bytes list) result, a')
    \<and> acs_avail concat a' = [9] \<and> in_step (=) \<lparr> conn_noise = NoiseTransport_from_snow 2 \<rparr> (acs_conn a')"
    by (rule messages_arrive_as_sent [OF script_reliable script_prompt mock_seals mock_session_pair c f r])
  then show ?thesis
    by (auto simp: numeral_2_eq_2)
qed

text \<open>
  Claim C6. Where a received frame leaves the connection. A transport frame is consumed whole and the
  next call starts at the following frame, whether its body decrypts or not. A frame of any other
  type is reported by its type byte with only its header consumed and the Noise state untouched: its
  body is what the next call reads first.
\<close>

theorem recv_message_position:
  assumes "reliable ops content" and "prompt ops content"
    and "acs_avail content a = t # be16_enc (length ct) @ ct @ rest" and "length ct < 65536"
  shows "\<exists>a'. recv_message sn ops a = Some
      (if t = 0x04 then map_err noise_of_transport (fst (receive sn (acs_conn a) ct))
       else Inl (Frame (''unexpected frame type: 0x'' @ hex_encode [t])) :: (('i, 'e) WireError, bytes) result, a')
    \<and> acs_avail content a' = (if t = 0x04 then rest else ct @ rest)
    \<and> acs_conn a' = (if t = 0x04 then snd (receive sn (acs_conn a) ct) else acs_conn a)"
proof -
  have "prompt_stream ops content"
    using assms(1,2) by unfold_locales
  from prompt_stream.recv_message_any_frame [OF this assms(3,4), of sn] show ?thesis
    by (simp only: MSG_TYPE_TRANSPORT_def)
qed

theorem recv_message_position_witness:
  "\<exists>a'. recv_message mock_snow script_ops
      \<lparr> acs_stream = [[0x05, 0x00], [0x01, 0x07, 0x04]], acs_conn = \<lparr> conn_noise = NoiseTransport_from_snow 0 \<rparr>,
        acs_pending = [] \<rparr>
      = Some (Inl (Frame ''unexpected frame type: 0x05'') :: ((unit, unit) WireError, bytes) result, a')
    \<and> acs_avail concat a' = [0x07, 0x04]"
proof -
  let ?a = "\<lparr> acs_stream = [[0x05, 0x00], [0x01, 0x07, 0x04]],
    acs_conn = \<lparr> conn_noise = NoiseTransport_from_snow 0 \<rparr>, acs_pending = [] \<rparr>
    :: (bytes list, nat) AsyncControlStream"
  have b: "acs_avail concat ?a = 0x05 # be16_enc (length [0x07 :: u8]) @ [0x07] @ [0x04]"
    by (simp add: acs_avail_def be16_enc_def u16_to_be_bytes_def)
  have "hex_encode [0x05] = ''05''"
    by code_simp
  with recv_message_position [OF script_reliable script_prompt b, of mock_snow] show ?thesis
    by auto
qed

text \<open>
  Claim C32. With a connect timeout configured, connecting always returns: whichever of the TCP
  connect, the TLS handshake, the key response, the upgrade and the Noise response never comes,
  the deadline turns it into an error.
\<close>

theorem connect_always_returns:
  assumes "timer_fires net" and "connect_timeout_ms (config_wire (cc_config config)) \<noteq> 0"
  shows "connect sn net config \<noteq> None \<and> connect_with_tls sn net config tls \<noteq> None"
  by (simp add: with_connect_deadline_returns [OF assms] connect_def connect_with_tls_def fetch_server_key_with_config_def connect_with_key_def
      fetch_server_key_with_tls_and_config_def connect_with_key_and_tls_def bind_async_None_iff
      del: not_None_eq)

theorem connect_always_returns_witness:
  "connect mock_snow sample_net sample_config \<noteq> None"
proof -
  have "timer_fires sample_net"
    by (simp add: timer_fires_def sample_net_def)
  moreover have "connect_timeout_ms (config_wire (cc_config sample_config)) \<noteq> 0"
    by (simp add: sample_config_def ControlConfig_new_def Config_default_def WireConfig_default_def
        config_constants)
  ultimately show ?thesis
    by (intro conjunct1 [OF connect_always_returns])
qed

end
