(* ===== verification/Register.thy ===== *)
theory Register
  imports Types
begin

text \<open>
  Domain validation of registration responses (\<^verbatim>\<open>crates/dictyon/src/control/register.rs\<close>): a
  wire response is classified into exactly one outcome by a fixed precedence over its four
  fields.
\<close>

datatype NonEmptyUrl = NonEmptyUrl (url_str: string)

datatype RegisterFault = AuthorizedWithPendingUrl | UnauthorizedWithoutExplanation

datatype RegisterOutcome =
    Authorized RegisterResponse
  | NeedsAuth NonEmptyUrl
  | RotateNodeKey
  | Rejected string
  | Contradictory RegisterFault

definition non_empty :: "string option \<Rightarrow> string option" where
  "non_empty s = option_filter (\<lambda>v. v \<noteq> []) s"

definition classify_register_response :: "RegisterResponse \<Rightarrow> RegisterOutcome" where
  "classify_register_response resp =
     (case non_empty (reg_error resp) of
        Some reason \<Rightarrow> Rejected reason
      | None \<Rightarrow>
          if node_key_expired resp then RotateNodeKey
          else
            let url = map_option NonEmptyUrl (non_empty (auth_url resp)) in
            (case (machine_authorized resp, url) of
               (True, None) \<Rightarrow> Authorized resp
             | (True, Some _) \<Rightarrow> Contradictory AuthorizedWithPendingUrl
             | (False, Some u) \<Rightarrow> NeedsAuth u
             | (False, None) \<Rightarrow> Contradictory UnauthorizedWithoutExplanation))"

section \<open>Properties\<close>

text \<open>A field that is absent or holds the empty string carries no information.\<close>

definition unset :: "string option \<Rightarrow> bool" where
  "unset s \<longleftrightarrow> s = None \<or> s = Some []"

lemma non_empty_None_iff: "non_empty s = None \<longleftrightarrow> unset s"
  by (cases s) (auto simp: non_empty_def unset_def)

lemma non_empty_Some_iff: "non_empty s = Some v \<longleftrightarrow> s = Some v \<and> v \<noteq> []"
  by (auto simp: non_empty_def option_filter_Some_iff)

lemma classify_cases:
  "classify_register_response r =
     (if \<not> unset (reg_error r) then Rejected (the (reg_error r))
      else if node_key_expired r then RotateNodeKey
      else if machine_authorized r \<and> unset (auth_url r) then Authorized r
      else if machine_authorized r then Contradictory AuthorizedWithPendingUrl
      else if unset (auth_url r) then Contradictory UnauthorizedWithoutExplanation
      else NeedsAuth (NonEmptyUrl (the (auth_url r))))"
  by (cases "reg_error r"; cases "auth_url r"; cases "machine_authorized r")
     (auto simp: classify_register_response_def non_empty_def unset_def)

text \<open>
  A node is taken to be authorized exactly when the server says so and no other field
  speaks against it: no rejection reason, no expired key and no pending login address, where an
  empty string counts as absent. The outcome then carries the unchanged response.
\<close>

lemma authorized_iff:
  "classify_register_response r = Authorized r' \<longleftrightarrow>
     r' = r \<and> machine_authorized r \<and> \<not> node_key_expired r \<and> unset (reg_error r) \<and> unset (auth_url r)"
  by (auto simp: classify_cases)

text \<open>
  The remaining outcomes are exactly determined as well: a non-empty error always
  rejects with that reason; without one an expired key always asks for rotation; otherwise a
  login address is asked for exactly when the node is unauthorized and the address is non-empty,
  and the two contradictory combinations are reported as such.
\<close>

lemma outcome_iff:
  "(classify_register_response r = Rejected reason \<longleftrightarrow> reg_error r = Some reason \<and> reason \<noteq> [])
   \<and> (classify_register_response r = RotateNodeKey \<longleftrightarrow> unset (reg_error r) \<and> node_key_expired r)
   \<and> (classify_register_response r = NeedsAuth u \<longleftrightarrow>
        unset (reg_error r) \<and> \<not> node_key_expired r \<and> \<not> machine_authorized r
        \<and> auth_url r = Some (url_str u) \<and> url_str u \<noteq> [])
   \<and> (classify_register_response r = Contradictory f \<longleftrightarrow>
        unset (reg_error r) \<and> \<not> node_key_expired r
        \<and> machine_authorized r = (\<not> unset (auth_url r))
        \<and> f = (if machine_authorized r then AuthorizedWithPendingUrl
               else UnauthorizedWithoutExplanation))"
  by (cases u; cases "reg_error r"; cases "auth_url r") (auto simp: classify_cases unset_def)

text \<open>
  Replacing an absent error or login address by the empty string, as the reference
  server does, never changes the outcome (up to the echoed response of an authorized node).
\<close>

lemma empty_string_is_absent:
  "classify_register_response (r\<lparr> auth_url := Some [], reg_error := None \<rparr>)
     = (case classify_register_response (r\<lparr> auth_url := None, reg_error := Some [] \<rparr>) of
          Authorized _ \<Rightarrow> Authorized (r\<lparr> auth_url := Some [], reg_error := None \<rparr>)
        | other \<Rightarrow> other)"
  by (simp add: classify_cases unset_def)

end
