(* ===== verification/Rust_Net.thy ===== *)
theory Rust_Net
  imports Rust_Str
begin

text \<open>
  The address parsers of Rust's standard library (\<^verbatim>\<open>core::net::parser\<close>) that the validation
  layer calls: \<^verbatim>\<open>IpAddr::from_str\<close> and \<^verbatim>\<open>SocketAddr::from_str\<close>. A parser takes the unread
  characters and gives the value with what is left, or fails with the input untouched.
\<close>

section \<open>Numbers\<close>

definition to_digit :: "nat \<Rightarrow> char \<Rightarrow> nat option" where
  "to_digit radix c =
     (let n = (of_char c :: nat);
          d = (if 48 \<le> n \<and> n \<le> 57 then n - 48
               else if 97 \<le> n \<and> n \<le> 122 then n - 87
               else if 65 \<le> n \<and> n \<le> 90 then n - 55
               else radix)
      in if d < radix then Some d else None)"

text \<open>The digit loop: with a digit limit it fails past the limit, without one it fails on
  overflow of the target type (maximum \<open>bound\<close>).\<close>

fun number_loop :: "nat \<Rightarrow> nat option \<Rightarrow> nat \<Rightarrow> nat \<Rightarrow> nat \<Rightarrow> string \<Rightarrow> (nat \<times> nat \<times> string) option"
where
  "number_loop radix limit bound result count [] = Some (result, count, [])"
| "number_loop radix limit bound result count (c # cs) =
     (case to_digit radix c of
        None \<Rightarrow> Some (result, count, c # cs)
      | Some d \<Rightarrow>
          (case limit of
             Some m \<Rightarrow>
               if m < count + 1 then None
               else number_loop radix limit bound (result * radix + d) (count + 1) cs
           | None \<Rightarrow>
               if bound < result * radix + d then None
               else number_loop radix limit bound (result * radix + d) (count + 1) cs))"

definition read_number :: "nat \<Rightarrow> nat option \<Rightarrow> bool \<Rightarrow> nat \<Rightarrow> string \<Rightarrow> (nat \<times> string) option" where
  "read_number radix limit allow_zero_prefix bound s =
     (case number_loop radix limit bound 0 0 s of
        None \<Rightarrow> None
      | Some (result, count, rest) \<Rightarrow>
          if count = 0 then None
          else if \<not> allow_zero_prefix \<and> take 1 s = ''0'' \<and> 1 < count then None
          else if result \<le> bound then Some (result, rest) else None)"

definition read_given_char :: "char \<Rightarrow> string \<Rightarrow> string option" where
  "read_given_char c s = (case s of [] \<Rightarrow> None | x # xs \<Rightarrow> if x = c then Some xs else None)"

definition read_separator ::
  "char \<Rightarrow> nat \<Rightarrow> (string \<Rightarrow> ('a \<times> string) option) \<Rightarrow> string \<Rightarrow> ('a \<times> string) option" where
  "read_separator sep i inner s =
     (if 0 < i then Option.bind (read_given_char sep s) inner else inner s)"

section \<open>IPv4 and IPv6 addresses\<close>

datatype IpAddr = V4 "nat list" | V6 "nat list"

fun read_octets :: "nat \<Rightarrow> nat \<Rightarrow> string \<Rightarrow> (nat list \<times> string) option" where
  "read_octets i 0 s = Some ([], s)"
| "read_octets i (Suc k) s =
     Option.bind (read_separator (CHR ''.'') i (read_number 10 (Some 3) False 255) s) (\<lambda>(g, s').
     Option.bind (read_octets (Suc i) k s') (\<lambda>(gs, s'').
     Some (g # gs, s'')))"

definition read_ipv4_addr :: "string \<Rightarrow> (nat list \<times> string) option" where
  "read_ipv4_addr s = read_octets 0 4 s"

text \<open>\<open>read_groups i k\<close>: at most \<open>k\<close> further groups, the next one having index \<open>i\<close>. The
  flag tells whether a trailing embedded IPv4 address was read.\<close>

fun read_groups :: "nat \<Rightarrow> nat \<Rightarrow> string \<Rightarrow> nat list \<times> bool \<times> string" where
  "read_groups i 0 s = ([], False, s)"
| "read_groups i (Suc k) s =
     (case (if 0 < k then read_separator (CHR '':'') i read_ipv4_addr s else None) of
        Some (os, s') \<Rightarrow>
          ([256 * os ! 0 + os ! 1, 256 * os ! 2 + os ! 3], True, s')
      | None \<Rightarrow>
          (case read_separator (CHR '':'') i (read_number 16 (Some 4) True 65535) s of
             None \<Rightarrow> ([], False, s)
           | Some (g, s') \<Rightarrow>
               (let (gs, v4, s'') = read_groups (Suc i) k s' in (g # gs, v4, s''))))"

definition read_ipv6_addr :: "string \<Rightarrow> (nat list \<times> string) option" where
  "read_ipv6_addr s =
     (let (head, head_v4, s1) = read_groups 0 8 s in
      if length head = 8 then Some (head, s1)
      else if head_v4 then None
      else Option.bind (read_given_char (CHR '':'') s1) (\<lambda>s2.
           Option.bind (read_given_char (CHR '':'') s2) (\<lambda>s3.
           let (tail, _, s4) = read_groups 0 (8 - (length head + 1)) s3 in
           Some (head @ replicate (8 - length head - length tail) 0 @ tail, s4))))"

definition read_ip_addr :: "string \<Rightarrow> (IpAddr \<times> string) option" where
  "read_ip_addr s =
     (case read_ipv4_addr s of
        Some (os, r) \<Rightarrow> Some (V4 os, r)
      | None \<Rightarrow> map_option (\<lambda>(gs, r). (V6 gs, r)) (read_ipv6_addr s))"

section \<open>Socket addresses\<close>

definition read_port :: "string \<Rightarrow> (nat \<times> string) option" where
  "read_port s = Option.bind (read_given_char (CHR '':'') s) (read_number 10 None True 65535)"

definition read_scope_id :: "string \<Rightarrow> (nat \<times> string) option" where
  "read_scope_id s = Option.bind (read_given_char (CHR ''%'') s) (read_number 10 None True 4294967295)"

datatype SocketAddr = SockV4 "nat list" nat | SockV6 "nat list" nat nat

definition read_socket_addr_v4 :: "string \<Rightarrow> (SocketAddr \<times> string) option" where
  "read_socket_addr_v4 s =
     Option.bind (read_ipv4_addr s) (\<lambda>(ip, s1).
     Option.bind (read_port s1) (\<lambda>(port, s2).
     Some (SockV4 ip port, s2)))"

definition read_socket_addr_v6 :: "string \<Rightarrow> (SocketAddr \<times> string) option" where
  "read_socket_addr_v6 s =
     Option.bind (read_given_char (CHR ''['') s) (\<lambda>s1.
     Option.bind (read_ipv6_addr s1) (\<lambda>(ip, s2).
     let (scope, s3) = (case read_scope_id s2 of Some r \<Rightarrow> r | None \<Rightarrow> (0, s2)) in
     Option.bind (read_given_char (CHR '']'') s3) (\<lambda>s4.
     Option.bind (read_port s4) (\<lambda>(port, s5).
     Some (SockV6 ip port scope, s5)))))"

definition read_socket_addr :: "string \<Rightarrow> (SocketAddr \<times> string) option" where
  "read_socket_addr s =
     (case read_socket_addr_v4 s of Some r \<Rightarrow> Some r | None \<Rightarrow> read_socket_addr_v6 s)"

section \<open>Complete parses\<close>

definition parse_with :: "(string \<Rightarrow> ('a \<times> string) option) \<Rightarrow> string \<Rightarrow> 'a option" where
  "parse_with p s = (case p s of Some (v, []) \<Rightarrow> Some v | _ \<Rightarrow> None)"

definition IpAddr_from_str :: "string \<Rightarrow> IpAddr option" where
  "IpAddr_from_str = parse_with read_ip_addr"

definition SocketAddr_from_str :: "string \<Rightarrow> SocketAddr option" where
  "SocketAddr_from_str = parse_with read_socket_addr"

text \<open>Equations and definitions with which the simplifier evaluates the parsers on a literal.\<close>

lemma read_octets_numeral:
  "read_octets i (numeral k) s =
     Option.bind (read_separator (CHR ''.'') i (read_number 10 (Some 3) False 255) s) (\<lambda>(g, s').
     Option.bind (read_octets (Suc i) (pred_numeral k) s') (\<lambda>(gs, s'').
     Some (g # gs, s'')))"
  by (simp only: numeral_eq_Suc read_octets.simps)

lemma read_groups_numeral:
  "read_groups i (numeral k) s =
     (case (if 0 < pred_numeral k then read_separator (CHR '':'') i read_ipv4_addr s else None) of
        Some (os, s') \<Rightarrow>
          ([256 * os ! 0 + os ! 1, 256 * os ! 2 + os ! 3], True, s')
      | None \<Rightarrow>
          (case read_separator (CHR '':'') i (read_number 16 (Some 4) True 65535) s of
             None \<Rightarrow> ([], False, s)
           | Some (g, s') \<Rightarrow>
               (let (gs, v4, s'') = read_groups (Suc i) (pred_numeral k) s' in (g # gs, v4, s''))))"
  by (simp only: numeral_eq_Suc [of k] read_groups.simps)

lemmas net_eval =
  read_octets_numeral read_groups_numeral to_digit_def read_number_def read_given_char_def
  read_separator_def read_ipv4_addr_def read_ipv6_addr_def read_ip_addr_def read_port_def
  read_scope_id_def read_socket_addr_v4_def read_socket_addr_v6_def read_socket_addr_def
  parse_with_def IpAddr_from_str_def SocketAddr_from_str_def Let_def

section \<open>Reading a printed number\<close>

definition starts_digit :: "nat \<Rightarrow> string \<Rightarrow> bool" where
  "starts_digit radix s = (case s of [] \<Rightarrow> False | c # _ \<Rightarrow> to_digit radix c \<noteq> None)"

lemma to_digit_digit_char [simp]: "d < 10 \<Longrightarrow> to_digit 10 (digit_char d) = Some d"
  by (simp add: to_digit_def digit_char_def of_char_of)

lemma number_loop_append:
  assumes "number_loop radix limit bound r n xs = Some (r', n', [])"
  shows "number_loop radix limit bound r n (xs @ ys) = number_loop radix limit bound r' n' ys"
  using assms
  by (induction radix limit bound r n xs rule: number_loop.induct)
     (auto split: option.splits if_splits)

lemma number_loop_stop:
  "\<not> starts_digit radix s \<Longrightarrow> number_loop radix limit bound r n s = Some (r, n, s)"
  by (cases s) (auto simp: starts_digit_def)

lemma number_loop_show_nat:
  assumes "case limit of Some m \<Rightarrow> length (show_nat k) \<le> m | None \<Rightarrow> k \<le> bound"
  shows "number_loop 10 limit bound 0 0 (show_nat k) = Some (k, length (show_nat k), [])"
  using assms
proof (induction k rule: show_nat.induct)
  case (1 k)
  show ?case
  proof (cases "k < 10")
    case True
    then have "show_nat k = [digit_char k]"
      by (subst show_nat.simps) simp
    with True "1.prems" show ?thesis
      by (auto split: option.splits)
  next
    case False
    then have s: "show_nat k = show_nat (k div 10) @ [digit_char (k mod 10)]"
      by (subst show_nat.simps) simp
    have "case limit of Some m \<Rightarrow> length (show_nat (k div 10)) \<le> m | None \<Rightarrow> k div 10 \<le> bound"
      using "1.prems" le_trans [OF div_le_dividend] by (auto simp: s split: option.splits)
    with False have "number_loop 10 limit bound 0 0 (show_nat (k div 10))
        = Some (k div 10, length (show_nat (k div 10)), [])"
      by (rule "1.IH")
    then have "number_loop 10 limit bound 0 0 (show_nat k)
        = number_loop 10 limit bound (k div 10) (length (show_nat (k div 10))) [digit_char (k mod 10)]"
      by (simp only: s number_loop_append)
    with "1.prems" show ?thesis
      by (auto simp: s split: option.splits)
  qed
qed

lemma show_nat_leading_zero: "hd (show_nat k) = CHR ''0'' \<Longrightarrow> k = 0"
proof (induction k rule: show_nat.induct)
  case (1 k)
  show ?case
  proof (cases "k < 10")
    case True
    then have "digit_char k = CHR ''0''"
      using "1.prems" by (subst (asm) show_nat.simps) simp
    then have "(of_char (digit_char k) :: nat) = 48"
      by simp
    with True show ?thesis
      by (simp add: digit_char_def of_char_of)
  next
    case False
    then have "hd (show_nat (k div 10)) = CHR ''0''"
      using "1.prems" by (subst (asm) show_nat.simps) simp
    with False "1.IH" have "k div 10 = 0"
      by blast
    with False show ?thesis
      by simp
  qed
qed

lemma show_nat_zero: "show_nat 0 = ''0''"
  by code_simp

lemma length_show_nat_octet: "k < 1000 \<Longrightarrow> length (show_nat k) \<le> 3"
proof -
  assume k: "k < 1000"
  have "length (show_nat m) \<le> 1" if "m < 10" for m
    using that by (subst show_nat.simps) simp
  then have "length (show_nat m) \<le> 2" if "m < 100" for m
    using that less_mult_imp_div_less [of m 10 10] by (subst show_nat.simps) fastforce
  then show ?thesis
    using k less_mult_imp_div_less [of k 100 10] by (subst show_nat.simps) fastforce
qed

lemma read_number_show_nat:
  assumes "case limit of Some m \<Rightarrow> length (show_nat k) \<le> m | None \<Rightarrow> k \<le> bound"
    and "k \<le> bound" and "\<not> starts_digit 10 rest"
  shows "read_number 10 limit z bound (show_nat k @ rest) = Some (k, rest)"
proof -
  have "number_loop 10 limit bound 0 0 (show_nat k @ rest) = Some (k, length (show_nat k), rest)"
    using number_loop_append [OF number_loop_show_nat [OF assms(1)]]
    by (simp add: number_loop_stop [OF assms(3)])
  moreover have "\<not> (take 1 (show_nat k @ rest) = ''0'' \<and> 1 < length (show_nat k))"
  proof
    assume "take 1 (show_nat k @ rest) = ''0'' \<and> 1 < length (show_nat k)"
    then have z: "hd (show_nat k) = CHR ''0''" and l: "1 < length (show_nat k)"
      by (cases "show_nat k"; simp)+
    from z have "k = 0"
      by (rule show_nat_leading_zero)
    with l show False
      by (simp add: show_nat_zero)
  qed
  ultimately show ?thesis
    using assms(2) by (auto simp: read_number_def)
qed

fun show_octets :: "nat list \<Rightarrow> string" where
  "show_octets [] = []"
| "show_octets [a] = show_nat a"
| "show_octets (a # b # os) = show_nat a @ ''.'' @ show_octets (b # os)"

lemma read_separator_dot:
  assumes "k \<le> 255" and "\<not> starts_digit 10 rest"
  shows "read_separator (CHR ''.'') i (read_number 10 (Some 3) False 255)
           ((if 0 < i then ''.'' else []) @ show_nat k @ rest) = Some (k, rest)"
  using assms read_number_show_nat [where limit = "Some 3" and k = k and bound = 255 and rest = rest and z = False] length_show_nat_octet [of k]
  by (simp add: read_separator_def read_given_char_def)

lemma read_octets_show:
  assumes "\<forall>k\<in>set os. k \<le> 255" and "\<not> starts_digit 10 rest"
  shows "read_octets i (length os) ((if 0 < i \<and> os \<noteq> [] then ''.'' else []) @ show_octets os @ rest)
           = Some (os, rest)"
  using assms
proof (induction os arbitrary: i rule: show_octets.induct)
  case 1
  then show ?case by simp
next
  case (2 a)
  then show ?case
    using read_separator_dot [of a rest i] by simp
next
  case (3 a b os)
  have "\<not> starts_digit 10 (''.'' @ show_octets (b # os) @ rest)"
    by (simp add: starts_digit_def to_digit_def)
  then have "read_separator (CHR ''.'') i (read_number 10 (Some 3) False 255)
      ((if 0 < i then ''.'' else []) @ show_nat a @ ''.'' @ show_octets (b # os) @ rest)
      = Some (a, ''.'' @ show_octets (b # os) @ rest)"
    using "3.prems" by (intro read_separator_dot) simp_all
  moreover obtain n where n: "n = Suc (length os)"
    by blast
  moreover have "read_octets (Suc i) n (''.'' @ show_octets (b # os) @ rest) = Some (b # os, rest)"
    using "3.IH" [of "Suc i"] "3.prems" by (simp add: n [symmetric])
  ultimately show ?case
    by (simp add: n [symmetric])
qed

lemma read_ipv4_show:
  assumes "length os = 4" and "\<forall>k\<in>set os. k \<le> 255" and "\<not> starts_digit 10 rest"
  shows "read_ipv4_addr (show_octets os @ rest) = Some (os, rest)"
  using read_octets_show [OF assms(2,3), of 0] assms(1) by (simp add: read_ipv4_addr_def)

lemma IpAddr_from_str_show:
  assumes "length os = 4" and "\<forall>k\<in>set os. k \<le> 255"
  shows "IpAddr_from_str (show_octets os) = Some (V4 os)"
  using read_ipv4_show [OF assms, of "[]"]
  by (simp add: IpAddr_from_str_def parse_with_def read_ip_addr_def starts_digit_def)

lemma SocketAddr_from_str_show:
  assumes "length os = 4" and "\<forall>k\<in>set os. k \<le> 255" and "port \<le> 65535"
  shows "SocketAddr_from_str (show_octets os @ '':'' @ show_nat port) = Some (SockV4 os port)"
proof -
  have "\<not> starts_digit 10 ('':'' @ show_nat port)"
    by (simp add: starts_digit_def to_digit_def)
  then have "read_ipv4_addr (show_octets os @ '':'' @ show_nat port) = Some (os, '':'' @ show_nat port)"
    by (rule read_ipv4_show [OF assms(1,2)])
  moreover have "read_port ('':'' @ show_nat port) = Some (port, [])"
    using read_number_show_nat [where limit = None and k = port and bound = 65535 and rest = "[]" and z = True] assms(3)
    by (simp add: read_port_def read_given_char_def starts_digit_def)
  ultimately show ?thesis
    by (simp add: SocketAddr_from_str_def parse_with_def read_socket_addr_def read_socket_addr_v4_def)
qed

section \<open>Well-formed results\<close>

lemma read_number_bound: "read_number radix limit z bound s = Some (v, r) \<Longrightarrow> v \<le> bound"
  by (auto simp: read_number_def split: option.splits if_splits)

lemma read_separator_cases:
  "read_separator sep i inner s = Some x \<Longrightarrow> \<exists>s'. inner s' = Some x"
  by (auto simp: read_separator_def bind_eq_Some_conv split: if_splits)

lemma read_octets_wf:
  "read_octets i k s = Some (os, r) \<Longrightarrow> length os = k \<and> (\<forall>x\<in>set os. x \<le> 255)"
proof (induction i k s arbitrary: os r rule: read_octets.induct)
  case (1 i s)
  then show ?case by simp
next
  case (2 i k s)
  from "2.prems" obtain g s' gs where
    g: "read_separator (CHR ''.'') i (read_number 10 (Some 3) False 255) s = Some (g, s')"
    and gs: "read_octets (Suc i) k s' = Some (gs, r)" and os: "os = g # gs"
    by (auto simp: bind_eq_Some_conv)
  have "g \<le> 255"
    using read_separator_cases [OF g] read_number_bound by blast
  with "2.IH" [OF g _ gs] show ?case
    by (simp add: os)
qed

lemma read_ipv4_wf: "read_ipv4_addr s = Some (os, r) \<Longrightarrow> length os = 4 \<and> (\<forall>x\<in>set os. x \<le> 255)"
  unfolding read_ipv4_addr_def by (rule read_octets_wf)

lemma read_groups_wf:
  "read_groups i k s = (gs, v4, r) \<Longrightarrow> length gs \<le> k \<and> (\<forall>x\<in>set gs. x \<le> 65535)"
proof (induction i k s arbitrary: gs v4 r rule: read_groups.induct)
  case (1 i s)
  then show ?case by simp
next
  case (2 i k s)
  show ?case
  proof (cases "if 0 < k then read_separator (CHR '':'') i read_ipv4_addr s else None")
    case (Some x)
    then obtain os s' where x: "x = (os, s')" and k: "0 < k"
      and sep: "read_separator (CHR '':'') i read_ipv4_addr s = Some (os, s')"
      by (cases x) (auto split: if_splits)
    then have os: "length os = 4" "\<forall>y\<in>set os. y \<le> 255"
      using read_separator_cases [OF sep] read_ipv4_wf by blast+
    then have "\<forall>j<4. os ! j \<le> 255"
      by simp
    then have "os ! 0 \<le> 255" "os ! 1 \<le> 255" "os ! 2 \<le> 255" "os ! 3 \<le> 255"
      by simp_all
    with k "2.prems" Some x show ?thesis
      by auto
  next
    case v4: None
    show ?thesis
    proof (cases "read_separator (CHR '':'') i (read_number 16 (Some 4) True 65535) s")
      case None
      with v4 "2.prems" show ?thesis
        by auto
    next
      case (Some x)
      obtain g s' where x: "x = (g, s')"
        by (cases x)
      obtain gs' w r' where rec: "read_groups (Suc i) k s' = (gs', w, r')"
        by (cases "read_groups (Suc i) k s'")
      have "g \<le> 65535"
        using Some x read_separator_cases read_number_bound by blast
      moreover have "length gs' \<le> k \<and> (\<forall>y\<in>set gs'. y \<le> 65535)"
        using "2.IH" [OF v4 Some x [symmetric] rec] by blast
      moreover have "gs = g # gs'"
        using "2.prems" v4 Some x rec by auto
      ultimately show ?thesis
        by simp
    qed
  qed
qed

lemma read_ipv6_wf: "read_ipv6_addr s = Some (gs, r) \<Longrightarrow> length gs = 8 \<and> (\<forall>x\<in>set gs. x \<le> 65535)"
proof -
  assume a: "read_ipv6_addr s = Some (gs, r)"
  obtain head v4 s1 where h: "read_groups 0 8 s = (head, v4, s1)"
    by (cases "read_groups 0 8 s")
  note hw = read_groups_wf [OF h]
  show ?thesis
  proof (cases "length head = 8")
    case True
    with a h hw show ?thesis
      by (simp add: read_ipv6_addr_def)
  next
    case False
    with a h obtain s2 s3 where s: "read_given_char (CHR '':'') s1 = Some s2"
      "read_given_char (CHR '':'') s2 = Some s3"
      by (auto simp: read_ipv6_addr_def bind_eq_Some_conv split: if_splits)
    obtain tail w r' where t: "read_groups 0 (8 - (length head + 1)) s3 = (tail, w, r')"
      by (cases "read_groups 0 (8 - (length head + 1)) s3")
    have gs: "gs = head @ replicate (8 - length head - length tail) 0 @ tail"
      using a h False s t by (auto simp: read_ipv6_addr_def split: if_splits)
    show ?thesis
      using read_groups_wf [OF t] hw False by (auto simp: gs)
  qed
qed

end
