(* ===== verification/Validate.thy ===== *)
theory Validate
  imports Rust_Net Types
begin

text \<open>
  Validation of server-supplied identity and routing data
  (\<^verbatim>\<open>crates/dictyon/src/control/validate.rs\<close>): the predicates a node, an endpoint list, a CIDR
  and a DNS resolver must satisfy before they enter the netmap.
\<close>

section \<open>The checks\<close>

definition is_valid_node_key :: "string \<Rightarrow> bool" where
  "is_valid_node_key s = is_ok (NodePublic_from_hex s)"

definition is_valid_disco_key :: "string \<Rightarrow> bool" where
  "is_valid_disco_key s = is_ok (DiscoPublic_from_hex s)"

definition endpoints_are_valid :: "string list \<Rightarrow> bool" where
  "endpoints_are_valid es = list_all (\<lambda>e. SocketAddr_from_str e \<noteq> None) es"

definition max_prefix :: "IpAddr \<Rightarrow> nat" where
  "max_prefix ip = (case ip of V4 _ \<Rightarrow> 32 | V6 _ \<Rightarrow> 128)"

definition is_valid_cidr :: "string \<Rightarrow> bool" where
  "is_valid_cidr s =
     (case split_once (CHR ''/'') s of
        None \<Rightarrow> False
      | Some (a, p) \<Rightarrow>
          (case IpAddr_from_str a of
             None \<Rightarrow> False
           | Some ip \<Rightarrow>
               (case parse_u8 p of
                  None \<Rightarrow> False
                | Some len \<Rightarrow> len \<le> max_prefix ip)))"

definition dns_resolver_is_valid :: "DnsResolver \<Rightarrow> bool" where
  "dns_resolver_is_valid r =
     (IpAddr_from_str (addr r) \<noteq> None \<or> SocketAddr_from_str (addr r) \<noteq> None)"

definition node_is_valid :: "Node \<Rightarrow> bool" where
  "node_is_valid n =
     (is_valid_node_key (node_key n)
      \<and> is_none_or (node_machine n) (\<lambda>k. is_ok (MachinePublic_from_hex k))
      \<and> is_none_or (node_disco_key n) is_valid_disco_key
      \<and> list_all is_valid_cidr (addresses n)
      \<and> is_none_or (allowed_ips n) (list_all is_valid_cidr)
      \<and> is_none_or (node_endpoints n) endpoints_are_valid)"

section \<open>Facts\<close>

lemma digit_val_None_slash: "digit_val (CHR ''/'') = None"
  by (simp add: digit_val_def)

lemma show_octets_no_slash: "CHR ''/'' \<notin> set (show_octets os)"
proof (induction os rule: show_octets.induct)
  case (2 a)
  then show ?case
    using show_nat_digits [of "CHR ''/''" a] digit_val_None_slash by auto
next
  case (3 a b os)
  then show ?case
    using show_nat_digits [of "CHR ''/''" a] digit_val_None_slash by auto
qed simp

lemma is_valid_cidr_iff:
  "is_valid_cidr s \<longleftrightarrow>
     (\<exists>a p ip len. s = a @ CHR ''/'' # p \<and> CHR ''/'' \<notin> set a
        \<and> IpAddr_from_str a = Some ip \<and> parse_u8 p = Some len \<and> len \<le> max_prefix ip)"
proof
  assume "is_valid_cidr s"
  then obtain a p ip len where "split_once (CHR ''/'') s = Some (a, p)"
    "IpAddr_from_str a = Some ip" "parse_u8 p = Some len" "len \<le> max_prefix ip"
    unfolding is_valid_cidr_def by (metis (no_types, lifting) case_optionE case_prodE)
  then show "\<exists>a p ip len. s = a @ CHR ''/'' # p \<and> CHR ''/'' \<notin> set a
        \<and> IpAddr_from_str a = Some ip \<and> parse_u8 p = Some len \<and> len \<le> max_prefix ip"
    unfolding split_once_Some_iff by blast
next
  assume "\<exists>a p ip len. s = a @ CHR ''/'' # p \<and> CHR ''/'' \<notin> set a
        \<and> IpAddr_from_str a = Some ip \<and> parse_u8 p = Some len \<and> len \<le> max_prefix ip"
  then obtain a p ip len where "split_once (CHR ''/'') s = Some (a, p)"
    "IpAddr_from_str a = Some ip" "parse_u8 p = Some len" "len \<le> max_prefix ip"
    unfolding split_once_Some_iff by blast
  then show "is_valid_cidr s"
    by (simp add: is_valid_cidr_def)
qed

lemma parse_u8_no_slash: "parse_u8 p = Some n \<Longrightarrow> CHR ''/'' \<notin> set p"
  using parse_unsigned_chars [of 255 p n "CHR ''/''"] digit_val_None_slash
  by (auto simp: parse_u8_def)

lemmas cidr_eval =
  is_valid_cidr_def net_eval parse_u8_def parse_unsigned_def digit_val_def max_prefix_def

lemmas node_key_eval =
  NodePublic_from_hex_def key_from_hex_def hex_decode_exact_def KEY_LEN_def strip_prefix_def
  as_bytes_def byte_of_char_def hex_nibble_def

section \<open>Properties\<close>

text \<open>
  A dotted-quad address followed by a slash and a decimal prefix length is accepted as
  a CIDR exactly when the prefix length is at most 32: every IPv4 network the server prints in
  canonical form validates, and the boundary lies exactly at the address width.
\<close>

lemma cidr_v4_boundary:
  assumes "length os = 4" and "\<forall>k\<in>set os. k \<le> 255"
  shows "is_valid_cidr (show_octets os @ ''/'' @ show_nat p) \<longleftrightarrow> p \<le> 32"
proof -
  have s: "split_once (CHR ''/'') (show_octets os @ CHR ''/'' # show_nat p)
      = Some (show_octets os, show_nat p)"
    using show_octets_no_slash [of os] by (simp add: split_once_Some_iff)
  show ?thesis
    using IpAddr_from_str_show [OF assms] parse_unsigned_show_nat [of 255 p]
    by (auto simp: is_valid_cidr_def s parse_u8_def max_prefix_def)
qed

lemma cidr_v4_boundary_witness:
  "is_valid_cidr (show_octets [100, 64, 0, 1] @ ''/'' @ show_nat 32)
   \<and> \<not> is_valid_cidr (show_octets [100, 64, 0, 1] @ ''/'' @ show_nat 33)"
proof -
  have v: "length [100, 64, 0, 1::nat] = 4" "\<forall>k\<in>set [100, 64, 0, 1::nat]. k \<le> 255"
    by simp_all
  show ?thesis
    using cidr_v4_boundary [OF v, of 32] cidr_v4_boundary [OF v, of 33] by simp
qed

text \<open>
  An accepted CIDR contains exactly one slash, and what stands before it parses as an
  IP address: splitting at the first slash can never move part of the address into the prefix
  half or the other way round.
\<close>

lemma cidr_single_slash:
  assumes "is_valid_cidr s"
  shows "count_list s (CHR ''/'') = 1
         \<and> IpAddr_from_str (takeWhile (\<lambda>c. c \<noteq> CHR ''/'') s) \<noteq> None"
proof -
  obtain a p ip len where s: "s = a @ CHR ''/'' # p" and a: "CHR ''/'' \<notin> set a"
    and ip: "IpAddr_from_str a = Some ip" and p: "parse_u8 p = Some len"
    using assms by (auto simp: is_valid_cidr_iff)
  have "CHR ''/'' \<notin> set p"
    using p by (rule parse_u8_no_slash)
  moreover have "takeWhile (\<lambda>c. c \<noteq> CHR ''/'') s = a"
    unfolding s using a by (subst takeWhile_append2) auto
  ultimately show ?thesis
    using a ip by (simp add: s count_list_append count_list_0_iff)
qed

text \<open>
  The prefix length is read by \<^verbatim>\<open>u8::from_str\<close>, which admits a leading plus sign and
  leading zeros: the text forms \<^verbatim>\<open>100.64.0.1/+32\<close> and \<^verbatim>\<open>100.64.0.1/0000032\<close>, which are not
  prefix lengths in CIDR notation, are accepted.
\<close>

lemma cidr_accepts_signed_prefix:
  "is_valid_cidr ''100.64.0.1/+32'' \<and> is_valid_cidr ''100.64.0.1/0000032''
   \<and> \<not> is_valid_cidr ''100.64.0.1/-1'' \<and> \<not> is_valid_cidr ''100.64.0.1/+33''"
  by (simp add: cidr_eval)

text \<open>
  An endpoint list of dotted-quad addresses with a port validates exactly when every
  port fits 16 bits; an address without a port is never an endpoint, but is a resolver address.
\<close>

lemma endpoint_v4_valid:
  assumes "length os = 4" and "\<forall>k\<in>set os. k \<le> 255" and "port \<le> 65535"
  shows "endpoints_are_valid [show_octets os @ '':'' @ show_nat port]
         \<and> dns_resolver_is_valid \<lparr> addr = show_octets os @ '':'' @ show_nat port \<rparr>
         \<and> dns_resolver_is_valid \<lparr> addr = show_octets os \<rparr>
         \<and> \<not> endpoints_are_valid [show_octets os]"
proof -
  have "read_ipv4_addr (show_octets os) = Some (os, [])"
    using read_ipv4_show [OF assms(1,2), of "[]"] by (simp add: starts_digit_def)
  moreover have "\<exists>c cs. show_octets os = c # cs \<and> c \<noteq> CHR ''[''"
  proof -
    obtain a b os' where os: "os = a # b # os'"
      using assms(1) by (cases os; cases "tl os") auto
    obtain c cs where c: "show_nat a = c # cs"
      by (cases "show_nat a") simp_all
    then have "digit_val c \<noteq> None"
      using show_nat_digits [of c a] by simp
    then have "c \<noteq> CHR ''[''"
      by (auto simp: digit_val_def)
    with c os show ?thesis
      by simp
  qed
  ultimately have "SocketAddr_from_str (show_octets os) = None"
    by (auto simp: SocketAddr_from_str_def parse_with_def read_socket_addr_def
        read_socket_addr_v4_def read_socket_addr_v6_def read_port_def read_given_char_def)
  then show ?thesis
    using SocketAddr_from_str_show [OF assms] IpAddr_from_str_show [OF assms(1,2)]
    by (simp add: endpoints_are_valid_def dns_resolver_is_valid_def)
qed

end
