(* ===== verification/Netmap.thy ===== *)
theory Netmap
  imports Validate
begin

text \<open>
  The local network map and the merging of server updates into it
  (\<^verbatim>\<open>crates/dictyon/src/control/netmap.rs\<close>). Peers are kept in a list; a full response
  replaces it, a delta adds, replaces, patches and removes entries. The
  warnings, and the counters that only feed them, are added in \<open>Netmap_Log\<close>.
\<close>

section \<open>State\<close>

definition MAX_PEERS :: nat where
  "MAX_PEERS = 10000"

record Netmap =
  self_node :: Node
  peers :: "Node list"
  dns_config :: "DnsConfig option"
  derp_map :: "DerpMap option"

section \<open>Helpers\<close>

definition zero_value_node :: Node where
  "zero_value_node =
     \<lparr> node_id = 0, stable_id = None, node_key = [], node_machine = None, node_name = [],
       node_cap = None, tags = None, addresses = [], allowed_ips = None, node_endpoints = None,
       derp = None, node_disco_key = None, node_key_expiry = None, node_last_seen = None,
       node_online = None \<rparr>"

definition cap_peers :: "Node list \<Rightarrow> Node list" where
  "cap_peers ps = (if MAX_PEERS < length ps then take MAX_PEERS ps else ps)"

definition sanitize_dns_config :: "DnsConfig \<Rightarrow> DnsConfig" where
  "sanitize_dns_config dns =
     (case resolvers dns of
        None \<Rightarrow> dns
      | Some rs \<Rightarrow> dns\<lparr> resolvers := Some (filter dns_resolver_is_valid rs) \<rparr>)"

text \<open>\<^verbatim>\<open>iter_mut().find(..)\<close> followed by an assignment through the reference: the first
  element that satisfies \<open>P\<close> is replaced.\<close>

fun update_first :: "('a \<Rightarrow> bool) \<Rightarrow> ('a \<Rightarrow> 'a) \<Rightarrow> 'a list \<Rightarrow> 'a list" where
  "update_first P f [] = []"
| "update_first P f (x # xs) = (if P x then f x # xs else x # update_first P f xs)"

section \<open>Peer patches\<close>

text \<open>One step per field, in the order of the source: \<^verbatim>\<open>if let Some(v) = ... { peer.field = ... }\<close>.\<close>

definition patch_derp :: "PeerChange \<Rightarrow> Node \<Rightarrow> Node" where
  "patch_derp ch p =
     (case option_filter (\<lambda>region. 0 < region) (derp_region ch) of
        None \<Rightarrow> p
      | Some region \<Rightarrow> p\<lparr> derp := Some (''127.3.3.40:'' @ show_int region) \<rparr>)"

definition patch_cap :: "PeerChange \<Rightarrow> Node \<Rightarrow> Node" where
  "patch_cap ch p =
     (case option_filter (\<lambda>c. 0 < c) (change_cap ch) of
        None \<Rightarrow> p
      | Some c \<Rightarrow> p\<lparr> node_cap := Some c \<rparr>)"

definition patch_endpoints :: "PeerChange \<Rightarrow> Node \<Rightarrow> Node" where
  "patch_endpoints ch p =
     (case option_filter (\<lambda>es. es \<noteq> []) (change_endpoints ch) of
        None \<Rightarrow> p
      | Some es \<Rightarrow> if endpoints_are_valid es then p\<lparr> node_endpoints := Some es \<rparr> else p)"

definition patch_key :: "PeerChange \<Rightarrow> Node \<Rightarrow> Node" where
  "patch_key ch p =
     (case change_key ch of
        None \<Rightarrow> p
      | Some k \<Rightarrow> if is_valid_node_key k then p\<lparr> node_key := k \<rparr> else p)"

definition patch_disco_key :: "PeerChange \<Rightarrow> Node \<Rightarrow> Node" where
  "patch_disco_key ch p =
     (case change_disco_key ch of
        None \<Rightarrow> p
      | Some k \<Rightarrow> if is_valid_disco_key k then p\<lparr> node_disco_key := Some k \<rparr> else p)"

definition patch_online :: "PeerChange \<Rightarrow> Node \<Rightarrow> Node" where
  "patch_online ch p =
     (case change_online ch of None \<Rightarrow> p | Some b \<Rightarrow> p\<lparr> node_online := Some b \<rparr>)"

definition patch_last_seen :: "PeerChange \<Rightarrow> Node \<Rightarrow> Node" where
  "patch_last_seen ch p =
     (case change_last_seen ch of None \<Rightarrow> p | Some t \<Rightarrow> p\<lparr> node_last_seen := Some t \<rparr>)"

definition patch_key_expiry :: "PeerChange \<Rightarrow> Node \<Rightarrow> Node" where
  "patch_key_expiry ch p =
     (case change_key_expiry ch of None \<Rightarrow> p | Some t \<Rightarrow> p\<lparr> node_key_expiry := Some t \<rparr>)"

definition patch_peer :: "PeerChange \<Rightarrow> Node \<Rightarrow> Node" where
  "patch_peer ch p =
     patch_key_expiry ch (patch_last_seen ch (patch_online ch (patch_disco_key ch
       (patch_key ch (patch_endpoints ch (patch_cap ch (patch_derp ch p)))))))"

definition apply_peer_change :: "Node list \<Rightarrow> PeerChange \<Rightarrow> Node list" where
  "apply_peer_change ps ch = update_first (\<lambda>p. node_id p = change_node_id ch) (patch_peer ch) ps"

section \<open>Peer removals\<close>

record PeerRemovalIndex =
  node_ids :: "i64 set"
  node_keys :: "string set"

definition PeerRemovalIndex_step :: "PeerRemoval \<Rightarrow> PeerRemovalIndex \<Rightarrow> PeerRemovalIndex" where
  "PeerRemovalIndex_step r ix =
     (case r of
        NodeId i \<Rightarrow> ix\<lparr> node_ids := insert i (node_ids ix) \<rparr>
      | NodeKey k \<Rightarrow> ix\<lparr> node_keys := insert k (node_keys ix) \<rparr>)"

definition PeerRemovalIndex_build :: "PeerRemoval list \<Rightarrow> PeerRemovalIndex" where
  "PeerRemovalIndex_build rs = fold PeerRemovalIndex_step rs \<lparr> node_ids = {}, node_keys = {} \<rparr>"

definition removes :: "PeerRemovalIndex \<Rightarrow> Node \<Rightarrow> bool" where
  "removes ix p \<longleftrightarrow> node_id p \<in> node_ids ix \<or> node_key p \<in> node_keys ix"

section \<open>Full responses and deltas\<close>

definition from_full_response :: "MapResponse \<Rightarrow> Netmap" where
  "from_full_response resp =
     \<lparr> self_node =
         (case option_filter node_is_valid (resp_node resp) of
            None \<Rightarrow> zero_value_node | Some n \<Rightarrow> n),
       peers =
         cap_peers (filter node_is_valid (case resp_peers resp of None \<Rightarrow> [] | Some ps \<Rightarrow> ps)),
       dns_config = map_option sanitize_dns_config (resp_dns_config resp),
       derp_map = resp_derp_map resp \<rparr>"

text \<open>One iteration of the loop over \<^verbatim>\<open>peers_changed\<close>.\<close>

definition change_peer :: "Node \<Rightarrow> Node list \<Rightarrow> Node list" where
  "change_peer n ps =
     (if \<not> node_is_valid n then ps
      else if \<exists>p\<in>set ps. node_key p = node_key n
        then update_first (\<lambda>p. node_key p = node_key n) (\<lambda>_. n) ps
      else if length ps < MAX_PEERS then ps @ [n]
      else ps)"

text \<open>The blocks of \<^verbatim>\<open>apply_delta\<close>, in the order of the source.\<close>

definition delta_self :: "MapResponse \<Rightarrow> Netmap \<Rightarrow> Netmap" where
  "delta_self resp nm =
     (case resp_node resp of
        None \<Rightarrow> nm
      | Some n \<Rightarrow> if node_is_valid n then nm\<lparr> self_node := n \<rparr> else nm)"

definition delta_peers :: "MapResponse \<Rightarrow> Netmap \<Rightarrow> Netmap" where
  "delta_peers resp nm =
     (case resp_peers resp of
        None \<Rightarrow> nm
      | Some ps \<Rightarrow> nm\<lparr> peers := cap_peers (filter node_is_valid ps) \<rparr>)"

definition delta_changed :: "MapResponse \<Rightarrow> Netmap \<Rightarrow> Netmap" where
  "delta_changed resp nm =
     (case peers_changed resp of
        None \<Rightarrow> nm
      | Some ns \<Rightarrow> nm\<lparr> peers := fold change_peer ns (peers nm) \<rparr>)"

definition delta_removed :: "MapResponse \<Rightarrow> Netmap \<Rightarrow> Netmap" where
  "delta_removed resp nm =
     (case peers_removed resp of
        None \<Rightarrow> nm
      | Some rs \<Rightarrow>
          let ix = PeerRemovalIndex_build rs in
          nm\<lparr> peers := filter (\<lambda>p. \<not> removes ix p) (peers nm) \<rparr>)"

definition delta_patch :: "MapResponse \<Rightarrow> Netmap \<Rightarrow> Netmap" where
  "delta_patch resp nm =
     (case peers_changed_patch resp of
        None \<Rightarrow> nm
      | Some chs \<Rightarrow> nm\<lparr> peers := fold (\<lambda>ch ps. apply_peer_change ps ch) chs (peers nm) \<rparr>)"

definition delta_dns :: "MapResponse \<Rightarrow> Netmap \<Rightarrow> Netmap" where
  "delta_dns resp nm =
     (case resp_dns_config resp of
        None \<Rightarrow> nm
      | Some dns \<Rightarrow> nm\<lparr> dns_config := Some (sanitize_dns_config dns) \<rparr>)"

definition delta_derp :: "MapResponse \<Rightarrow> Netmap \<Rightarrow> Netmap" where
  "delta_derp resp nm =
     (case resp_derp_map resp of
        None \<Rightarrow> nm
      | Some d \<Rightarrow> nm\<lparr> derp_map := Some d \<rparr>)"

definition apply_delta :: "MapResponse \<Rightarrow> Netmap \<Rightarrow> Netmap" where
  "apply_delta resp nm =
     delta_derp resp (delta_dns resp (delta_patch resp (delta_removed resp
       (delta_changed resp (delta_peers resp (delta_self resp nm))))))"

section \<open>Lists updated at their first match\<close>

lemma length_update_first [simp]: "length (update_first P f xs) = length xs"
  by (induction xs) simp_all

lemma list_all_update_first:
  "list_all Q xs \<Longrightarrow> (\<And>x. Q x \<Longrightarrow> P x \<Longrightarrow> Q (f x)) \<Longrightarrow> list_all Q (update_first P f xs)"
  by (induction xs) auto

lemma update_first_absent: "\<not> (\<exists>x\<in>set xs. P x) \<Longrightarrow> update_first P f xs = xs"
  by (induction xs) auto

lemma map_update_first: "(\<And>x. P x \<Longrightarrow> g (f x) = g x) \<Longrightarrow> map g (update_first P f xs) = map g xs"
  by (induction xs) auto

lemma update_first_split:
  "\<exists>x\<in>set xs. P x \<Longrightarrow>
     \<exists>a x b. xs = a @ x # b \<and> P x \<and> (\<forall>y\<in>set a. \<not> P y) \<and> update_first P f xs = a @ f x # b"
proof (induction xs)
  case Nil
  then show ?case by simp
next
  case (Cons y ys)
  show ?case
  proof (cases "P y")
    case True
    then show ?thesis
      by (intro exI [of _ "[]"] exI [of _ y] exI [of _ ys]) simp
  next
    case False
    with Cons obtain a x b where "ys = a @ x # b" "P x" "\<forall>z\<in>set a. \<not> P z"
      "update_first P f ys = a @ f x # b"
      by auto
    with False show ?thesis
      by (intro exI [of _ "y # a"] exI [of _ x] exI [of _ b]) simp
  qed
qed

section \<open>The invariant\<close>

definition dns_ok :: "DnsConfig option \<Rightarrow> bool" where
  "dns_ok d = is_none_or d (\<lambda>dns. is_none_or (resolvers dns) (list_all dns_resolver_is_valid))"

definition peers_ok :: "Node list \<Rightarrow> bool" where
  "peers_ok ps = (length ps \<le> MAX_PEERS \<and> list_all node_is_valid ps)"

definition netmap_ok :: "Netmap \<Rightarrow> bool" where
  "netmap_ok nm =
     (peers_ok (peers nm) \<and> (self_node nm = zero_value_node \<or> node_is_valid (self_node nm))
      \<and> dns_ok (dns_config nm))"

lemma peers_ok_cap [invariant_intros]: "peers_ok (cap_peers (filter node_is_valid ps))"
proof -
  have v: "list_all node_is_valid (filter node_is_valid ps)"
    by (simp add: list_all_iff)
  then have "list_all node_is_valid (take MAX_PEERS (filter node_is_valid ps))"
    by (metis append_take_drop_id list_all_append)
  with v show ?thesis
    by (simp add: peers_ok_def cap_peers_def)
qed

lemma dns_ok_sanitize [invariant_intros]: "dns_ok (Some (sanitize_dns_config d))"
  by (cases "resolvers d") (simp_all add: dns_ok_def sanitize_dns_config_def list_all_iff)

lemma dns_ok_map_sanitize [invariant_intros]: "dns_ok (map_option sanitize_dns_config d)"
  by (cases d) (simp_all add: dns_ok_sanitize, simp add: dns_ok_def)

lemma peers_ok_change [invariant_intros]: "peers_ok ps \<Longrightarrow> peers_ok (change_peer n ps)"
  by (auto simp: peers_ok_def change_peer_def intro: list_all_update_first)

lemma peers_ok_fold_change [invariant_intros]: "peers_ok ps \<Longrightarrow> peers_ok (fold change_peer ns ps)"
  by (induction ns arbitrary: ps) (simp_all add: peers_ok_change)

text \<open>What a patch does to each field: a closed form of the eight steps, from which the frame
  (the fields no patch reaches) and the guarded fields follow by projection.\<close>

definition or_keep :: "'a option \<Rightarrow> 'a option \<Rightarrow> 'a option" where
  "or_keep new old = (case new of None \<Rightarrow> old | Some v \<Rightarrow> Some v)"

lemma or_keep_simps [simp]:
  "or_keep None old = old"
  "or_keep (Some v) old = Some v"
  by (simp_all add: or_keep_def)

lemma patch_steps:
  "patch_derp ch p = p\<lparr> derp := or_keep (map_option (\<lambda>r. ''127.3.3.40:'' @ show_int r)
      (option_filter (\<lambda>r. 0 < r) (derp_region ch))) (derp p) \<rparr>"
  "patch_cap ch p = p\<lparr> node_cap := or_keep (option_filter (\<lambda>c. 0 < c) (change_cap ch)) (node_cap p) \<rparr>"
  "patch_endpoints ch p = p\<lparr> node_endpoints :=
      or_keep (option_filter (\<lambda>es. es \<noteq> [] \<and> endpoints_are_valid es) (change_endpoints ch))
        (node_endpoints p) \<rparr>"
  "patch_key ch p = p\<lparr> node_key :=
      the (or_keep (option_filter is_valid_node_key (change_key ch)) (Some (node_key p))) \<rparr>"
  "patch_disco_key ch p = p\<lparr> node_disco_key :=
      or_keep (option_filter is_valid_disco_key (change_disco_key ch)) (node_disco_key p) \<rparr>"
  "patch_online ch p = p\<lparr> node_online := or_keep (change_online ch) (node_online p) \<rparr>"
  "patch_last_seen ch p = p\<lparr> node_last_seen := or_keep (change_last_seen ch) (node_last_seen p) \<rparr>"
  "patch_key_expiry ch p = p\<lparr> node_key_expiry := or_keep (change_key_expiry ch) (node_key_expiry p) \<rparr>"
  by (simp_all add: patch_derp_def patch_cap_def patch_endpoints_def patch_key_def
      patch_disco_key_def patch_online_def patch_last_seen_def patch_key_expiry_def
      option_filter_def split: option.split)

lemma patch_peer_closed:
  "patch_peer ch p = p\<lparr>
     derp := or_keep (map_option (\<lambda>r. ''127.3.3.40:'' @ show_int r)
       (option_filter (\<lambda>r. 0 < r) (derp_region ch))) (derp p),
     node_cap := or_keep (option_filter (\<lambda>c. 0 < c) (change_cap ch)) (node_cap p),
     node_endpoints :=
       or_keep (option_filter (\<lambda>es. es \<noteq> [] \<and> endpoints_are_valid es) (change_endpoints ch))
         (node_endpoints p),
     node_key :=
       the (or_keep (option_filter is_valid_node_key (change_key ch)) (Some (node_key p))),
     node_disco_key :=
       or_keep (option_filter is_valid_disco_key (change_disco_key ch)) (node_disco_key p),
     node_online := or_keep (change_online ch) (node_online p),
     node_last_seen := or_keep (change_last_seen ch) (node_last_seen p),
     node_key_expiry := or_keep (change_key_expiry ch) (node_key_expiry p) \<rparr>"
  by (simp add: patch_peer_def patch_steps)

lemma patch_peer_frame:
  "node_id (patch_peer ch p) = node_id p"
  "stable_id (patch_peer ch p) = stable_id p"
  "node_machine (patch_peer ch p) = node_machine p"
  "node_name (patch_peer ch p) = node_name p"
  "tags (patch_peer ch p) = tags p"
  "addresses (patch_peer ch p) = addresses p"
  "allowed_ips (patch_peer ch p) = allowed_ips p"
  by (simp_all add: patch_peer_closed)

lemma patch_peer_checked:
  "node_key (patch_peer ch p) =
     the (or_keep (option_filter is_valid_node_key (change_key ch)) (Some (node_key p)))"
  "node_disco_key (patch_peer ch p) =
     or_keep (option_filter is_valid_disco_key (change_disco_key ch)) (node_disco_key p)"
  "node_endpoints (patch_peer ch p) =
     or_keep (option_filter (\<lambda>es. es \<noteq> [] \<and> endpoints_are_valid es) (change_endpoints ch))
       (node_endpoints p)"
  by (simp_all add: patch_peer_closed)

lemma patch_peer_plain:
  "node_online (patch_peer ch p) = or_keep (change_online ch) (node_online p)"
  "node_last_seen (patch_peer ch p) = or_keep (change_last_seen ch) (node_last_seen p)"
  "node_key_expiry (patch_peer ch p) = or_keep (change_key_expiry ch) (node_key_expiry p)"
  "node_cap (patch_peer ch p) = or_keep (option_filter (\<lambda>c. 0 < c) (change_cap ch)) (node_cap p)"
  "derp (patch_peer ch p) =
     or_keep (map_option (\<lambda>r. ''127.3.3.40:'' @ show_int r)
       (option_filter (\<lambda>r. 0 < r) (derp_region ch))) (derp p)"
  by (simp_all add: patch_peer_closed)

lemma is_none_or_or_keep:
  "is_none_or old P \<Longrightarrow> is_none_or new P \<Longrightarrow> is_none_or (or_keep new old) P"
  by (cases new) simp_all

lemma is_none_or_filter: "(\<And>x. Q x \<Longrightarrow> P x) \<Longrightarrow> is_none_or (option_filter Q v) P"
  by (cases v) (simp_all add: option_filter_def)

lemma the_or_keep_filter: "P old \<Longrightarrow> P (the (or_keep (option_filter P new) (Some old)))"
  by (cases new) simp_all

lemma patch_peer_valid [invariant_intros]: "node_is_valid p \<Longrightarrow> node_is_valid (patch_peer ch p)"
  unfolding node_is_valid_def patch_peer_frame patch_peer_checked
  by (auto intro: the_or_keep_filter is_none_or_or_keep is_none_or_filter)

lemma peers_ok_patch [invariant_intros]: "peers_ok ps \<Longrightarrow> peers_ok (apply_peer_change ps ch)"
  by (auto simp: peers_ok_def apply_peer_change_def intro: list_all_update_first patch_peer_valid)

lemma peers_ok_fold_patch [invariant_intros]:
  "peers_ok ps \<Longrightarrow> peers_ok (fold (\<lambda>ch ps. apply_peer_change ps ch) chs ps)"
  by (induction chs arbitrary: ps) (simp_all add: peers_ok_patch)

lemma peers_ok_filter [invariant_intros]: "peers_ok ps \<Longrightarrow> peers_ok (filter P ps)"
  by (auto simp: peers_ok_def list_all_iff intro: le_trans [OF length_filter_le])

text \<open>One preservation rule per block of the delta.\<close>

lemma delta_blocks_ok [invariant_intros]:
  "netmap_ok nm \<Longrightarrow> netmap_ok (delta_self resp nm)"
  "netmap_ok nm \<Longrightarrow> netmap_ok (delta_peers resp nm)"
  "netmap_ok nm \<Longrightarrow> netmap_ok (delta_changed resp nm)"
  "netmap_ok nm \<Longrightarrow> netmap_ok (delta_removed resp nm)"
  "netmap_ok nm \<Longrightarrow> netmap_ok (delta_patch resp nm)"
  "netmap_ok nm \<Longrightarrow> netmap_ok (delta_dns resp nm)"
  "netmap_ok nm \<Longrightarrow> netmap_ok (delta_derp resp nm)"
  unfolding netmap_ok_def delta_self_def delta_peers_def delta_changed_def delta_removed_def
    delta_patch_def delta_dns_def delta_derp_def
  by (simp_all add: invariant_intros Let_def split: option.split)

lemma apply_delta_ok: "netmap_ok nm \<Longrightarrow> netmap_ok (apply_delta resp nm)"
  unfolding apply_delta_def by (intro delta_blocks_ok)

lemma from_full_response_ok: "netmap_ok (from_full_response resp)"
  unfolding netmap_ok_def from_full_response_def
  by (auto simp: invariant_intros option_filter_Some_iff split: option.split)

section \<open>The peer list as a bounded store\<close>

text \<open>
  The contract the delta loop relies on: a store keyed by \<open>key\<close> with room for \<open>cap\<close> new entries.
  Values that are not accepted change nothing, a held key is always overwritten, a new key is
  stored only while there is room.
\<close>

locale bounded_store =
  fixes key :: "'v \<Rightarrow> 'k"
    and accept :: "'v \<Rightarrow> bool"
    and cap :: nat
    and put :: "'v \<Rightarrow> 's \<Rightarrow> 's"
    and look :: "'s \<Rightarrow> 'k \<Rightarrow> 'v option"
    and count :: "'s \<Rightarrow> nat"
  assumes put_rejected: "\<not> accept v \<Longrightarrow> put v s = s"
    and put_full: "look s (key v) = None \<Longrightarrow> cap \<le> count s \<Longrightarrow> put v s = s"
    and put_held: "accept v \<Longrightarrow> look s (key v) \<noteq> None \<Longrightarrow> look (put v s) = (look s)(key v \<mapsto> v)"
    and put_held_count: "look s (key v) \<noteq> None \<Longrightarrow> count (put v s) = count s"
    and put_new: "accept v \<Longrightarrow> look s (key v) = None \<Longrightarrow> count s < cap \<Longrightarrow>
      look (put v s) = (look s)(key v \<mapsto> v) \<and> count (put v s) = Suc (count s)"
begin

definition stored :: "'v list \<Rightarrow> 'k \<rightharpoonup> 'v" where
  "stored vs = map_of (rev (map (\<lambda>v. (key v, v)) (filter accept vs)))"

lemma stored_Cons:
  "m ++ stored (v # vs) = (if accept v then m(key v \<mapsto> v) else m) ++ stored vs"
  by (simp add: stored_def)

lemma stored_Cons_apply:
  "stored (v # vs) k = (case stored vs k of
     Some w \<Rightarrow> Some w | None \<Rightarrow> if accept v \<and> key v = k then Some v else None)"
  by (simp add: stored_def map_add_def split: option.split)

lemma put_count_le: "count (put v s) \<le> Suc (count s)"
  by (cases "accept v"; cases "look s (key v)"; cases "count s < cap")
     (simp_all add: put_rejected put_full put_held_count put_new)

lemma put_look_room:
  "count s < cap \<Longrightarrow> look (put v s) = (if accept v then (look s)(key v \<mapsto> v) else look s)"
  by (cases "look s (key v)") (simp_all add: put_rejected put_held put_new)

lemma put_look_other: "key v \<noteq> k \<Longrightarrow> look (put v s) k = look s k"
  by (cases "accept v"; cases "look s (key v)"; cases "count s < cap")
     (simp_all add: put_rejected put_full put_held put_new)

lemma fold_put_room:
  "count s + length vs \<le> cap \<Longrightarrow> look (fold put vs s) = look s ++ stored vs"
proof (induction vs arbitrary: s)
  case Nil
  then show ?case by (simp add: stored_def)
next
  case (Cons v vs)
  have "count (put v s) + length vs \<le> cap"
    using Cons.prems put_count_le [of v s] by simp
  with Cons show ?case
    by (simp add: put_look_room stored_Cons)
qed

lemma fold_put_held:
  "look s k \<noteq> None \<Longrightarrow> look (fold put vs s) k = (look s ++ stored vs) k"
proof (induction vs arbitrary: s)
  case Nil
  then show ?case by (simp add: stored_def)
next
  case (Cons v vs)
  show ?case
  proof (cases "key v = k")
    case True
    with Cons.prems have "look (put v s) k = (if accept v then Some v else look s k)"
      by (auto simp: put_rejected put_held)
    with Cons True show ?thesis
      by (auto simp: map_add_def stored_Cons_apply split: option.split)
  next
    case False
    with Cons show ?thesis
      by (simp add: put_look_other map_add_def stored_Cons_apply split: option.split)
  qed
qed

lemma fold_put_full:
  "cap \<le> count s \<Longrightarrow> look s k = None \<Longrightarrow> look (fold put vs s) k = None \<and> cap \<le> count (fold put vs s)"
proof (induction vs arbitrary: s)
  case Nil
  then show ?case by simp
next
  case (Cons v vs)
  have "cap \<le> count (put v s)"
    using Cons.prems by (cases "look s (key v)") (simp_all add: put_full put_held_count)
  moreover have "look (put v s) k = None"
    using Cons.prems by (cases "key v = k") (auto simp: put_full put_look_other)
  ultimately show ?case
    using Cons.IH by simp
qed

end

text \<open>The model's peer list provides the contract, with the first entry of a key as the one found.\<close>

definition lookup_peer :: "Node list \<Rightarrow> string \<Rightarrow> Node option" where
  "lookup_peer ps k = map_of (map (\<lambda>p. (node_key p, p)) ps) k"

lemma lookup_peer_Nil [simp]: "lookup_peer [] k = None"
  by (simp add: lookup_peer_def)

lemma lookup_peer_Cons [simp]:
  "lookup_peer (p # ps) k = (if node_key p = k then Some p else lookup_peer ps k)"
  by (simp add: lookup_peer_def)

lemma lookup_peer_None_iff: "lookup_peer ps k = None \<longleftrightarrow> (\<forall>p\<in>set ps. node_key p \<noteq> k)"
  by (induction ps) auto

lemma lookup_peer_append:
  "lookup_peer (ps @ qs) k = (case lookup_peer ps k of None \<Rightarrow> lookup_peer qs k | Some p \<Rightarrow> Some p)"
  by (induction ps) auto

lemma lookup_peer_overwrite:
  "lookup_peer ps (node_key n) \<noteq> None \<Longrightarrow>
   lookup_peer (update_first (\<lambda>p. node_key p = node_key n) (\<lambda>_. n) ps)
     = (lookup_peer ps)(node_key n \<mapsto> n)"
  by (induction ps) (auto split: if_splits)

lemma change_peer_new:
  "node_is_valid n \<Longrightarrow> lookup_peer ps (node_key n) = None \<Longrightarrow> length ps < MAX_PEERS \<Longrightarrow>
   change_peer n ps = ps @ [n]"
  by (auto simp: change_peer_def lookup_peer_None_iff)

lemma change_peer_held:
  "node_is_valid n \<Longrightarrow> lookup_peer ps (node_key n) \<noteq> None \<Longrightarrow>
   change_peer n ps = update_first (\<lambda>p. node_key p = node_key n) (\<lambda>_. n) ps"
  by (auto simp: change_peer_def lookup_peer_None_iff)

interpretation peer_store: bounded_store node_key node_is_valid MAX_PEERS change_peer lookup_peer length
proof
  fix v :: Node and ps :: "Node list"
  show "change_peer v ps = ps" if "\<not> node_is_valid v"
    using that by (simp add: change_peer_def)
  show "change_peer v ps = ps" if "lookup_peer ps (node_key v) = None" "MAX_PEERS \<le> length ps"
    using that by (auto simp: change_peer_def lookup_peer_None_iff)
  show "lookup_peer (change_peer v ps) = (lookup_peer ps)(node_key v \<mapsto> v)"
    if "node_is_valid v" "lookup_peer ps (node_key v) \<noteq> None"
    using that by (simp only: change_peer_held lookup_peer_overwrite not_False_eq_True)
  show "length (change_peer v ps) = length ps" if "lookup_peer ps (node_key v) \<noteq> None"
    using that by (auto simp: change_peer_def lookup_peer_None_iff)
  show "lookup_peer (change_peer v ps) = (lookup_peer ps)(node_key v \<mapsto> v)
      \<and> length (change_peer v ps) = Suc (length ps)"
    if "node_is_valid v" "lookup_peer ps (node_key v) = None" "length ps < MAX_PEERS"
    using that by (auto simp: change_peer_new fun_eq_iff lookup_peer_append split: option.split)
qed

text \<open>The nodes a \<^verbatim>\<open>peers_changed\<close> list offers, by key: the last valid entry of each key.\<close>

definition offered :: "Node list \<Rightarrow> string \<Rightarrow> Node option" where
  "offered ns = map_of (rev (map (\<lambda>n. (node_key n, n)) (filter node_is_valid ns)))"

lemma stored_offered: "peer_store.stored ns = offered ns"
  by (simp add: peer_store.stored_def offered_def)

section \<open>Removal by index and by scan\<close>

fun names_peer :: "PeerRemoval \<Rightarrow> Node \<Rightarrow> bool" where
  "names_peer (NodeId i) p = (node_id p = i)"
| "names_peer (NodeKey k) p = (node_key p = k)"

lemma removes_fold:
  "removes (fold PeerRemovalIndex_step rs ix) p \<longleftrightarrow> removes ix p \<or> (\<exists>r\<in>set rs. names_peer r p)"
proof (induction rs arbitrary: ix)
  case Nil
  then show ?case by simp
next
  case (Cons r rs)
  then show ?case
    by (cases r) (auto simp: PeerRemovalIndex_step_def removes_def)
qed

lemma removes_build: "removes (PeerRemovalIndex_build rs) p \<longleftrightarrow> (\<exists>r\<in>set rs. names_peer r p)"
  by (simp add: PeerRemovalIndex_build_def removes_fold) (simp add: removes_def)

lemma ids_apply_peer_change: "map node_id (apply_peer_change ps ch) = map node_id ps"
  unfolding apply_peer_change_def by (rule map_update_first) (simp add: patch_peer_frame)

lemma ids_fold_patch:
  "map node_id (fold (\<lambda>ch ps. apply_peer_change ps ch) chs ps) = map node_id ps"
  by (induction chs arbitrary: ps) (simp_all add: ids_apply_peer_change)

lemma peers_apply_delta_ids:
  "map node_id (peers (apply_delta resp nm)) =
   map node_id (peers (delta_removed resp (delta_changed resp (delta_peers resp (delta_self resp nm)))))"
  by (simp add: apply_delta_def delta_derp_def delta_dns_def delta_patch_def ids_fold_patch
      split: option.split)

section \<open>What the peers depend on\<close>

text \<open>Every block of a delta takes the peers from the peers, and a full list takes them from itself.\<close>

lemma block_peers_cong:
  assumes "peers nm = peers nm'"
  shows "peers (delta_self resp nm) = peers (delta_self resp nm')"
    and "peers (delta_peers resp nm) = peers (delta_peers resp nm')"
    and "peers (delta_changed resp nm) = peers (delta_changed resp nm')"
    and "peers (delta_removed resp nm) = peers (delta_removed resp nm')"
    and "peers (delta_patch resp nm) = peers (delta_patch resp nm')"
    and "peers (delta_dns resp nm) = peers (delta_dns resp nm')"
    and "peers (delta_derp resp nm) = peers (delta_derp resp nm')"
  using assms
  by (simp_all add: delta_self_def delta_peers_def delta_changed_def delta_removed_def
      delta_patch_def delta_dns_def delta_derp_def Let_def split: option.split)

lemma delta_peers_cong:
  "peers nm = peers nm' \<Longrightarrow> peers (apply_delta resp nm) = peers (apply_delta resp nm')"
  unfolding apply_delta_def by (intro block_peers_cong)

lemma delta_full_list:
  assumes "resp_peers resp = Some ps"
  shows "peers (apply_delta resp nm) = peers (apply_delta resp nm')"
proof -
  have "peers (delta_peers resp (delta_self resp nm)) = peers (delta_peers resp (delta_self resp nm'))"
    using assms by (simp add: delta_peers_def)
  from block_peers_cong(7) [OF block_peers_cong(6) [OF block_peers_cong(5) [OF block_peers_cong(4)
      [OF block_peers_cong(3) [OF this]]]]] show ?thesis
    unfolding apply_delta_def .
qed

lemma fold_delta_peers_cong:
  "peers nm = peers nm' \<Longrightarrow> peers (fold apply_delta ds nm) = peers (fold apply_delta ds nm')"
proof (induction ds arbitrary: nm nm')
  case (Cons d ds)
  show ?case
    using Cons.IH [OF delta_peers_cong [OF Cons.prems]] by simp
qed simp

text \<open>The block that touches each component, and what the whole delta leaves in the plain ones.\<close>

lemma block_frame:
  "peers (delta_self resp nm) = peers nm"
  "peers (delta_dns resp nm) = peers nm"
  "peers (delta_derp resp nm) = peers nm"
  "self_node (delta_peers resp nm) = self_node nm"
  "self_node (delta_changed resp nm) = self_node nm"
  "self_node (delta_removed resp nm) = self_node nm"
  "self_node (delta_patch resp nm) = self_node nm"
  "self_node (delta_dns resp nm) = self_node nm"
  "self_node (delta_derp resp nm) = self_node nm"
  "dns_config (delta_self resp nm) = dns_config nm"
  "dns_config (delta_peers resp nm) = dns_config nm"
  "dns_config (delta_changed resp nm) = dns_config nm"
  "dns_config (delta_removed resp nm) = dns_config nm"
  "dns_config (delta_patch resp nm) = dns_config nm"
  "dns_config (delta_derp resp nm) = dns_config nm"
  "derp_map (delta_self resp nm) = derp_map nm"
  "derp_map (delta_peers resp nm) = derp_map nm"
  "derp_map (delta_changed resp nm) = derp_map nm"
  "derp_map (delta_removed resp nm) = derp_map nm"
  "derp_map (delta_patch resp nm) = derp_map nm"
  "derp_map (delta_dns resp nm) = derp_map nm"
  by (simp_all add: delta_self_def delta_peers_def delta_changed_def delta_removed_def
      delta_patch_def delta_dns_def delta_derp_def Let_def split: option.split)

lemma apply_delta_rest:
  "self_node (apply_delta resp nm) =
     the (or_keep (option_filter node_is_valid (resp_node resp)) (Some (self_node nm)))"
  "dns_config (apply_delta resp nm) = or_keep (map_option sanitize_dns_config (resp_dns_config resp)) (dns_config nm)"
  "derp_map (apply_delta resp nm) = or_keep (resp_derp_map resp) (derp_map nm)"
proof -
  show "self_node (apply_delta resp nm) =
      the (or_keep (option_filter node_is_valid (resp_node resp)) (Some (self_node nm)))"
    by (simp only: apply_delta_def block_frame) (simp add: delta_self_def option_filter_def split: option.split)
  show "dns_config (apply_delta resp nm) = or_keep (map_option sanitize_dns_config (resp_dns_config resp)) (dns_config nm)"
    by (simp only: apply_delta_def block_frame)
       (simp only: delta_dns_def, simp add: block_frame split: option.split)
  show "derp_map (apply_delta resp nm) = or_keep (resp_derp_map resp) (derp_map nm)"
    by (simp only: apply_delta_def)
       (simp only: delta_derp_def, simp add: block_frame split: option.split)
qed

section \<open>Sample nodes\<close>

text \<open>A node with the given id and a node key made of one repeated hex digit.\<close>

definition sample_node :: "i64 \<Rightarrow> char \<Rightarrow> Node" where
  "sample_node i c = zero_value_node\<lparr> node_id := i, node_key := ''nodekey:'' @ replicate 64 c \<rparr>"

lemma sample_node_valid: "is_hex_char c \<Longrightarrow> node_is_valid (sample_node i c)"
  by (auto simp: sample_node_def zero_value_node_def node_is_valid_def is_valid_node_key_def
      node_key.from_hex_ok_iff)

lemma sample_node_fields [simp]:
  "node_id (sample_node i c) = i"
  "node_key (sample_node i c) = node_key (sample_node j d) \<longleftrightarrow> c = d"
  by (simp_all add: sample_node_def)

lemma sample_key_decodes:
  assumes "is_hex_char c" and "is_hex_char (lower_hex c)"
  shows "NodePublic_from_hex (node_key (sample_node i c))
    = NodePublic_from_hex (node_key (sample_node i (lower_hex c)))"
proof -
  have "is_ok (NodePublic_from_hex (node_key (sample_node i c)))"
    using sample_node_valid [OF assms(1)] by (simp add: node_is_valid_def is_valid_node_key_def)
  then obtain k where k: "NodePublic_from_hex (node_key (sample_node i c)) = Inr k"
    by (auto simp: is_ok_iff)
  then have "NodePublic_to_hex k = node_key (sample_node i (lower_hex c))"
    and "length (node_public_bytes k) = KEY_LEN"
    using node_key.from_hex_canonical [OF k] by (auto simp: sample_node_def)
  with k show ?thesis
    using node_key.from_to_hex by metis
qed

definition empty_response :: MapResponse where
  "empty_response =
     \<lparr> resp_node = None, resp_peers = None, peers_changed = None, peers_changed_patch = None,
       peers_removed = None, resp_dns_config = None, resp_derp_map = None, keep_alive = None \<rparr>"

definition sample_netmap :: "Node list \<Rightarrow> Netmap" where
  "sample_netmap ps =
     \<lparr> self_node = zero_value_node, peers = ps, dns_config = None, derp_map = None \<rparr>"

lemma sample_simps [simp]:
  "peers_changed (empty_response\<lparr> peers_changed := c \<rparr>) = c"
  "peers_removed (empty_response\<lparr> peers_removed := r \<rparr>) = r"
  "peers_removed (empty_response\<lparr> peers_changed := c, peers_removed := r \<rparr>) = r"
  "peers (sample_netmap ps) = ps"
  by (simp_all add: empty_response_def sample_netmap_def)

lemma lookup_peer_replicate:
  "0 < n \<Longrightarrow> lookup_peer (replicate n p) k = (if node_key p = k then Some p else None)"
  by (cases n) (auto simp: lookup_peer_None_iff)

lemma lower_hex_A: "lower_hex CHR ''A'' = CHR ''a''"
  by code_simp

section \<open>Properties\<close>

text \<open>
  A network map built from any full response and any sequence of deltas, whatever the
  server sent, holds at most \<open>MAX_PEERS\<close> peers, every one of them well formed, a self node that is
  well formed or the zero-value fallback, and only resolvers whose address parses.
\<close>

lemma netmap_invariant: "netmap_ok (fold apply_delta deltas (from_full_response resp))"
proof -
  have "netmap_ok nm \<Longrightarrow> netmap_ok (fold apply_delta deltas nm)" for nm
    by (induction deltas arbitrary: nm) (simp_all add: apply_delta_ok)
  then show ?thesis
    by (simp add: from_full_response_ok)
qed

text \<open>
  Claim C21. While there is room for every entry of \<^verbatim>\<open>peers_changed\<close>, the loop over it is a map
  update by node key: looking a key up afterwards gives the last valid node offered for it, and
  what was there before otherwise.
\<close>

theorem peers_changed_refines_map_update:
  assumes "length (peers nm) + length ns \<le> MAX_PEERS"
    and "peers_changed resp = Some ns"
  shows "lookup_peer (peers (delta_changed resp nm)) = lookup_peer (peers nm) ++ offered ns"
  using assms by (simp add: delta_changed_def peer_store.fold_put_room stored_offered)

theorem peers_changed_refines_map_update_witness:
  "lookup_peer (peers (delta_changed
     (empty_response\<lparr> peers_changed := Some [sample_node 1 CHR ''a'', sample_node 2 CHR ''a''] \<rparr>)
     (sample_netmap [sample_node 3 CHR ''b''])))
   = [node_key (sample_node 2 CHR ''a'') \<mapsto> sample_node 2 CHR ''a'',
      node_key (sample_node 3 CHR ''b'') \<mapsto> sample_node 3 CHR ''b'']"
proof -
  have k: "node_key (sample_node 1 CHR ''a'') = node_key (sample_node 2 CHR ''a'')"
    and h: "is_hex_char CHR ''a''"
    by (simp_all add: is_hex_char_def)
  show ?thesis
    by (subst peers_changed_refines_map_update [OF _ sample_simps(1)])
       (auto simp: MAX_PEERS_def offered_def sample_node_valid [OF h] fun_eq_iff map_add_def k)
qed

text \<open>
  Claim C20. The cap stops growth, never updates: once the map has reached the cap, a held peer
  still takes the last valid node offered for its key and stays held, and every key the map does
  not hold is refused.
\<close>

theorem peers_changed_at_cap:
  assumes "MAX_PEERS \<le> length (peers nm)"
    and "peers_changed resp = Some ns"
  shows "lookup_peer (peers (delta_changed resp nm)) =
    (lookup_peer (peers nm) ++ offered ns) |` dom (lookup_peer (peers nm))"
proof
  fix k
  show "lookup_peer (peers (delta_changed resp nm)) k =
    ((lookup_peer (peers nm) ++ offered ns) |` dom (lookup_peer (peers nm))) k"
  proof (cases "lookup_peer (peers nm) k")
    case None
    with assms show ?thesis
      by (simp add: delta_changed_def peer_store.fold_put_full restrict_map_def domIff)
  next
    case (Some p)
    with assms show ?thesis
      by (simp add: delta_changed_def peer_store.fold_put_held stored_offered domIff)
  qed
qed

theorem peers_changed_at_cap_witness:
  "lookup_peer (peers (delta_changed
     (empty_response\<lparr> peers_changed := Some [sample_node 2 CHR ''a'', sample_node 3 CHR ''b''] \<rparr>)
     (sample_netmap (replicate 10000 (sample_node 1 CHR ''a'')))))
   = [node_key (sample_node 2 CHR ''a'') \<mapsto> sample_node 2 CHR ''a'']"
proof -
  have k: "node_key (sample_node 1 CHR ''a'') = node_key (sample_node 2 CHR ''a'')"
    and h: "is_hex_char CHR ''a''" "is_hex_char CHR ''b''"
    by (simp_all add: is_hex_char_def)
  show ?thesis
    by (subst peers_changed_at_cap [OF _ sample_simps(1)])
       (auto simp: MAX_PEERS_def offered_def sample_node_valid [OF h(1)] sample_node_valid [OF h(2)]
         fun_eq_iff map_add_def restrict_map_def domIff lookup_peer_replicate k)
qed

text \<open>
  Claim C22. The two-set removal index selects exactly the peers a scan of the removal list would:
  the peers that survive are those no removal names by id or by key, in their old order.
\<close>

theorem removal_index_equals_scan:
  "peers (delta_removed resp nm) =
     (case peers_removed resp of
        None \<Rightarrow> peers nm
      | Some rs \<Rightarrow> filter (\<lambda>p. \<not> list_ex (\<lambda>r. names_peer r p) rs) (peers nm))"
  by (simp add: delta_removed_def removes_build list_ex_iff split: option.split)

text \<open>
  Claim C23. A removal by id wins over everything else in the same delta: no peer with that id is
  left, even if the delta also sent it in the full list, changed it or patched it.
\<close>

theorem removal_wins:
  assumes "peers_removed resp = Some rs" and "NodeId i \<in> set rs"
  shows "i \<notin> node_id ` set (peers (apply_delta resp nm))"
proof -
  have "i \<notin> set (map node_id (peers (delta_removed resp m)))" for m
    using assms by (auto simp: delta_removed_def removes_build intro: bexI [of _ "NodeId i"])
  then show ?thesis
    by (metis peers_apply_delta_ids set_map)
qed

theorem removal_wins_witness:
  "2 \<notin> node_id ` set (peers (apply_delta
     (empty_response\<lparr> peers_changed := Some [sample_node 2 CHR ''b''],
        peers_removed := Some [NodeId 2] \<rparr>)
     (sample_netmap [sample_node 1 CHR ''a'', sample_node 2 CHR ''b''])))"
  by (rule removal_wins [OF sample_simps(3)]) simp

text \<open>
  Claim C24. A patch applies to the first peer with its id and touches nothing else: no other peer,
  no length, no order; of that peer it never changes the id, name, addresses, allowed IPs, tags,
  machine key or stable id, and each other field is replaced only by a value that passes that
  field's check, else it keeps its old value.
\<close>

theorem patch_applies_checked_fields:
  "change_node_id ch \<notin> node_id ` set ps \<and> apply_peer_change ps ch = ps
   \<or> (\<exists>before p after.
        ps = before @ p # after
        \<and> node_id p = change_node_id ch \<and> change_node_id ch \<notin> node_id ` set before
        \<and> apply_peer_change ps ch = before @ p\<lparr>
            derp := or_keep (map_option (\<lambda>r. ''127.3.3.40:'' @ show_int r)
              (option_filter (\<lambda>r. 0 < r) (derp_region ch))) (derp p),
            node_cap := or_keep (option_filter (\<lambda>c. 0 < c) (change_cap ch)) (node_cap p),
            node_endpoints :=
              or_keep (option_filter (\<lambda>es. es \<noteq> [] \<and> endpoints_are_valid es) (change_endpoints ch))
                (node_endpoints p),
            node_key :=
              the (or_keep (option_filter is_valid_node_key (change_key ch)) (Some (node_key p))),
            node_disco_key :=
              or_keep (option_filter is_valid_disco_key (change_disco_key ch)) (node_disco_key p),
            node_online := or_keep (change_online ch) (node_online p),
            node_last_seen := or_keep (change_last_seen ch) (node_last_seen p),
            node_key_expiry := or_keep (change_key_expiry ch) (node_key_expiry p) \<rparr> # after)"
proof (cases "\<exists>p\<in>set ps. node_id p = change_node_id ch")
  case True
  from update_first_split [OF this, of "patch_peer ch"] show ?thesis
    unfolding apply_peer_change_def patch_peer_closed [symmetric] by (intro disjI2) fastforce
next
  case False
  then show ?thesis
    unfolding apply_peer_change_def by (auto simp: update_first_absent)
qed

text \<open>
  Peers are matched by the text of their key while keys are validated without regard to
  case: two spellings of one 32-byte key are held as two peers.
\<close>

lemma one_key_two_peers:
  "NodePublic_from_hex (node_key (sample_node 1 CHR ''a''))
     = NodePublic_from_hex (node_key (sample_node 1 CHR ''A''))
   \<and> fold change_peer [sample_node 1 CHR ''a'', sample_node 1 CHR ''A''] []
     = [sample_node 1 CHR ''a'', sample_node 1 CHR ''A'']"
proof -
  have "is_hex_char CHR ''a''" "is_hex_char CHR ''A''"
    by (simp_all add: is_hex_char_def)
  then have "fold change_peer [sample_node 1 CHR ''a'', sample_node 1 CHR ''A''] []
     = [sample_node 1 CHR ''a'', sample_node 1 CHR ''A'']"
    by (simp add: change_peer_def sample_node_valid MAX_PEERS_def)
  moreover have "NodePublic_from_hex (node_key (sample_node 1 CHR ''a''))
     = NodePublic_from_hex (node_key (sample_node 1 CHR ''A''))"
    using sample_key_decodes [of "CHR ''A''" 1] lower_hex_A by (simp add: is_hex_char_def)
  ultimately show ?thesis
    by simp
qed

end
