(* ===== verification/Tracing.thy ===== *)
theory Tracing
  imports Rust_Str
begin

text \<open>
  What the \<^verbatim>\<open>tracing\<close> macros record: the level, the fields in their order with their displayed
  values, and the message. A computation that logs returns its result with the lines it wrote;
  \<open>log_then\<close> sequences two of them.
\<close>

datatype LogLevel = Debug | Info | Warn

datatype LogLine =
  LogLine (log_level: LogLevel) (log_fields: "(string \<times> string) list") (log_message: string)

definition info :: "string \<Rightarrow> LogLine" where
  "info msg = LogLine Info [] msg"

definition warn :: "string \<Rightarrow> LogLine" where
  "warn msg = LogLine Warn [] msg"

type_synonym 'a logged = "'a \<times> LogLine list"

definition log_then :: "'a logged \<Rightarrow> ('a \<Rightarrow> 'b logged) \<Rightarrow> 'b logged" where
  "log_then m f = (let (a, l1) = m; (b, l2) = f a in (b, l1 @ l2))"

lemma fst_log_then [simp]: "fst (log_then m f) = fst (f (fst m))"
  by (simp add: log_then_def split: prod.split)

lemma snd_log_then [simp]: "snd (log_then m f) = snd m @ snd (f (fst m))"
  by (simp add: log_then_def split: prod.split)

text \<open>
  The contract of a step that logs what it discards: it computes the same state as the step without
  logging, and it is quiet exactly when nothing was discarded. Steps in sequence keep the contract.
\<close>

definition reports :: "('s \<Rightarrow> 's logged) \<Rightarrow> ('s \<Rightarrow> 's) \<Rightarrow> ('s \<Rightarrow> bool) \<Rightarrow> bool" where
  "reports f pure_f clean \<longleftrightarrow> (\<forall>s. fst (f s) = pure_f s \<and> (snd (f s) = [] \<longleftrightarrow> clean s))"

lemma reportsI:
  "(\<And>s. fst (f s) = p s) \<Longrightarrow> (\<And>s. snd (f s) = [] \<longleftrightarrow> c s) \<Longrightarrow> reports f p c"
  by (simp add: reports_def)

lemma reportsD:
  assumes "reports f p c"
  shows "fst (f s) = p s" and "snd (f s) = [] \<longleftrightarrow> c s"
  using assms by (simp_all add: reports_def)

lemma reports_then:
  "reports f p c \<Longrightarrow> reports g q d \<Longrightarrow>
   reports (\<lambda>s. log_then (f s) g) (\<lambda>s. q (p s)) (\<lambda>s. c s \<and> d (p s))"
  by (simp add: reports_def)

text \<open>Displayed values that hold a decimal number and nothing else: no text of a peer.\<close>

definition is_decimal :: "string \<Rightarrow> bool" where
  "is_decimal s = list_all (\<lambda>c. digit_val c \<noteq> None \<or> c = CHR ''-'') s"

definition numeric_line :: "LogLine \<Rightarrow> bool" where
  "numeric_line l = list_all (\<lambda>(_, v). is_decimal v) (log_fields l)"

lemma is_decimal_show_nat [simp]: "is_decimal (show_nat n)"
  using show_nat_digits by (auto simp: is_decimal_def list_all_iff)

lemma is_decimal_show_int [simp]: "is_decimal (show_int i)"
  using is_decimal_show_nat [of "nat (- i)"] is_decimal_show_nat [of "nat i"]
  by (simp add: show_int_def is_decimal_def)

end
