(* ===== verification/Control.thy ===== *)
theory Control
  imports Wire Register Netmap Tracing
begin

text \<open>
  The control client (\<^verbatim>\<open>crates/dictyon/src/control/mod.rs\<close>): building and framing requests,
  registration, the map stream, and the maintenance of the network map; and the crate's unified
  error (\<^verbatim>\<open>crates/dictyon/src/error.rs\<close>). The JSON encoding of the typed messages, zstd, the host
  name and the Curve25519 multiplication are the fields of \<open>Ctl_ops\<close>.
\<close>

section \<open>Errors and parameters\<close>

datatype ('i, 'e) ControlError =
    Json string
  | Transport "'e TransportError"
  | MalformedResponse string
  | Wire "('i, 'e) WireError"
  | PayloadTooLarge nat

datatype ('i, 'e) DictyonError =
    DictyonWire "('i, 'e) WireError"
  | DictyonControl "('i, 'e) ControlError"
  | DictyonNoise "'e NoiseError"

text \<open>Errors of the libraries are the texts the code puts into its own errors.\<close>

record Ctl_ops =
  ser_register :: "RegisterRequest \<Rightarrow> string + bytes"
  ser_map :: "MapRequest \<Rightarrow> string + bytes"
  de_register :: "bytes \<Rightarrow> string + RegisterResponse"
  de_map :: "bytes \<Rightarrow> string + MapResponse"
  zstd_decode_all :: "bytes \<Rightarrow> string + bytes"
  system_hostname :: "string option"
  consts_OS :: string
  x25519_base :: "bytes \<Rightarrow> bytes"

section \<open>Framing\<close>

definition frame_len :: "nat \<Rightarrow> (('i, 'e) ControlError, u32) result" where
  "frame_len n = ok_or (u32_try_from n) (PayloadTooLarge n)"

definition frame_message :: "bytes \<Rightarrow> (('i, 'e) ControlError, bytes) result" where
  "frame_message payload =
     bind_r (frame_len (length payload)) (\<lambda>size. Inr (u32_to_le_bytes size @ payload))"

definition is_zstd_frame :: "bytes \<Rightarrow> bool" where
  "is_zstd_frame payload \<longleftrightarrow> get_to payload 4 = Some [0x28, 0xb5, 0x2f, 0xfd]"

definition decode_map_payload :: "Ctl_ops \<Rightarrow> bytes \<Rightarrow> (('i, 'e) ControlError, bytes) result" where
  "decode_map_payload ctl payload =
     (if \<not> is_zstd_frame payload then Inr payload
      else map_err (\<lambda>err. MalformedResponse (''zstd decode failed: '' @ err)) (zstd_decode_all ctl payload))"

definition parse_map_response :: "Ctl_ops \<Rightarrow> bytes \<Rightarrow> (('i, 'e) ControlError, MapResponse) result" where
  "parse_map_response ctl frame =
     (case get_to frame 4 of
        Some [b0, b1, b2, b3] \<Rightarrow>
          (let size = unat (u32_from_le_bytes b0 b1 b2 b3) in
           bind_r (ok_or (get_range frame 4 (4 + size))
                     (MalformedResponse (''frame declares '' @ show_nat size @ '' bytes but only ''
                        @ show_nat (length frame - 4) @ '' available''))) (\<lambda>payload.
           bind_r (decode_map_payload ctl payload) (\<lambda>payload'.
           map_err Json (de_map ctl payload'))))
      | _ \<Rightarrow> Inl (MalformedResponse (''frame too short: '' @ show_nat (length frame)
               @ '' bytes, need at least 4'')))"

definition parse_register_response :: "Ctl_ops \<Rightarrow> bytes \<Rightarrow> (('i, 'e) ControlError, RegisterResponse) result" where
  "parse_register_response ctl raw = map_err Json (de_register ctl raw)"

text \<open>The log line for a registration outcome.\<close>

fun fault_debug :: "RegisterFault \<Rightarrow> string" where
  "fault_debug AuthorizedWithPendingUrl = ''AuthorizedWithPendingUrl''"
| "fault_debug UnauthorizedWithoutExplanation = ''UnauthorizedWithoutExplanation''"

fun log_register_outcome :: "RegisterOutcome \<Rightarrow> LogLine" where
  "log_register_outcome (Authorized _) =
     LogLine Debug [(''outcome'', ''authorized'')] ''register authorized''"
| "log_register_outcome (NeedsAuth url) =
     LogLine Debug [(''outcome'', ''needs_auth''), (''auth_url'', url_str url)]
       ''register requires interactive auth''"
| "log_register_outcome RotateNodeKey =
     LogLine Warn [(''outcome'', ''rotate_node_key'')] ''server reports the node key has expired''"
| "log_register_outcome (Rejected reason) =
     LogLine Warn [(''outcome'', ''rejected''), (''reason'', reason)]
       ''server rejected the registration request''"
| "log_register_outcome (Contradictory fault) =
     LogLine Warn [(''outcome'', ''contradictory''), (''fault'', fault_debug fault)]
       ''server sent a registration response the protocol does not allow''"

section \<open>The client\<close>

record 't ControlClient =
  client_transport :: "'t ControlConnection"
  client_machine_key :: MachinePrivate
  client_node_key :: NodePrivate
  client_disco_key :: DiscoPrivate
  client_netmap :: "Netmap option"

definition ControlClient_new ::
  "'t ControlConnection \<Rightarrow> MachinePrivate \<Rightarrow> NodePrivate \<Rightarrow> DiscoPrivate \<Rightarrow> 't ControlClient" where
  "ControlClient_new conn machine_key nk disco_key =
     \<lparr> client_transport = conn, client_machine_key = machine_key, client_node_key = nk,
       client_disco_key = disco_key, client_netmap = None \<rparr>"

definition gethostname :: "Ctl_ops \<Rightarrow> string" where
  "gethostname ctl = (case system_hostname ctl of None \<Rightarrow> ''unknown'' | Some h \<Rightarrow> h)"

definition hostinfo :: "Ctl_ops \<Rightarrow> Hostinfo" where
  "hostinfo ctl =
     \<lparr> host_backend_log_id = BackendLogId [], host_os = consts_OS ctl,
       host_hostname = gethostname ctl, host_go_version = ''dictyon/0.1.0'' \<rparr>"

definition node_key_hex :: "Ctl_ops \<Rightarrow> 't ControlClient \<Rightarrow> string" where
  "node_key_hex ctl self = NodePublic_to_hex (NodePrivate_public_key (x25519_base ctl) (client_node_key self))"

definition build_register_request ::
  "Ctl_ops \<Rightarrow> 't ControlClient \<Rightarrow> string option \<Rightarrow> (('i, 'e) ControlError, bytes) result" where
  "build_register_request ctl self key =
     map_err Json (ser_register ctl
       \<lparr> req_version = version_as_u64 CAPABILITY_VERSION, req_node_key = node_key_hex ctl self,
         req_old_node_key = [], req_auth = map_option AuthInfo_new key,
         req_hostinfo = hostinfo ctl, req_followup = None \<rparr>)"

definition build_map_request ::
  "Ctl_ops \<Rightarrow> 't ControlClient \<Rightarrow> (('i, 'e) ControlError, bytes) result" where
  "build_map_request ctl self =
     map_err Json (ser_map ctl
       \<lparr> map_version = version_as_u64 CAPABILITY_VERSION, compress = Some ''zstd'',
         map_node_key = node_key_hex ctl self,
         map_disco_key =
           DiscoPublic_to_hex (DiscoPrivate_public_key (x25519_base ctl) (client_disco_key self)),
         map_endpoints = [], map_stream = True, omit_peers = False, map_hostinfo = hostinfo ctl \<rparr>)"

text \<open>Send one request and read and classify the answer: the common tail of \<^verbatim>\<open>register\<close> and
  \<^verbatim>\<open>poll_registration\<close>.\<close>

definition exchange_registration ::
  "Ctl_ops \<Rightarrow> ('h, 'u, 'e, 'y) Snow_lib_scheme \<Rightarrow> ('s, 'i, 'x) Stream_ops_scheme
     \<Rightarrow> (('i, 'e) ControlError, bytes) result
     \<Rightarrow> (('i, 'e) ControlError, RegisterOutcome, ('s, 'u) AsyncControlStream) io" where
  "exchange_registration ctl sn ops request =
     bind_io (lift_io request) (\<lambda>payload.
     bind_io (lift_io (frame_message payload)) (\<lambda>framed.
     bind_io (map_err_io Wire (send_message sn ops framed)) (\<lambda>_.
     bind_io (map_err_io Wire (recv_message sn ops)) (\<lambda>raw.
     bind_io (lift_io (parse_register_response ctl raw)) (\<lambda>resp.
     return_io (classify_register_response resp))))))"

definition register ::
  "Ctl_ops \<Rightarrow> ('h, 'u, 'e, 'y) Snow_lib_scheme \<Rightarrow> ('s, 'i, 'x) Stream_ops_scheme \<Rightarrow> 't ControlClient \<Rightarrow> string option
     \<Rightarrow> (('i, 'e) ControlError, RegisterOutcome, ('s, 'u) AsyncControlStream) io" where
  "register ctl sn ops self key = exchange_registration ctl sn ops (build_register_request ctl self key)"

definition poll_registration ::
  "Ctl_ops \<Rightarrow> ('h, 'u, 'e, 'y) Snow_lib_scheme \<Rightarrow> ('s, 'i, 'x) Stream_ops_scheme \<Rightarrow> 't ControlClient \<Rightarrow> string
     \<Rightarrow> (('i, 'e) ControlError, RegisterOutcome, ('s, 'u) AsyncControlStream) io" where
  "poll_registration ctl sn ops self followup_url =
     exchange_registration ctl sn ops
       (map_err Json (ser_register ctl
          \<lparr> req_version = version_as_u64 CAPABILITY_VERSION, req_node_key = node_key_hex ctl self,
            req_old_node_key = [], req_auth = None, req_hostinfo = hostinfo ctl,
            req_followup = Some followup_url \<rparr>))"

definition start_map_stream ::
  "Ctl_ops \<Rightarrow> ('h, 'u, 'e, 'y) Snow_lib_scheme \<Rightarrow> ('s, 'i, 'x) Stream_ops_scheme \<Rightarrow> 't ControlClient
     \<Rightarrow> (('i, 'e) ControlError, unit, ('s, 'u) AsyncControlStream) io" where
  "start_map_stream ctl sn ops self =
     bind_io (lift_io (build_map_request ctl self)) (\<lambda>payload.
     bind_io (lift_io (frame_message payload)) (\<lambda>framed.
     map_err_io Wire (send_message sn ops framed)))"

definition apply_map_response :: "MapResponse \<Rightarrow> 't ControlClient \<Rightarrow> 't ControlClient" where
  "apply_map_response resp self =
     (if keep_alive resp = Some True then self
      else
        (case client_netmap self of
           None \<Rightarrow> self\<lparr> client_netmap := Some (from_full_response resp) \<rparr>
         | Some nm \<Rightarrow> self\<lparr> client_netmap := Some (apply_delta resp nm) \<rparr>))"

text \<open>The call mutates the client and the stream.\<close>

definition recv_map_update ::
  "Ctl_ops \<Rightarrow> ('h, 'u, 'e, 'y) Snow_lib_scheme \<Rightarrow> ('s, 'i, 'x) Stream_ops_scheme
     \<Rightarrow> (('i, 'e) ControlError, bool, 't ControlClient \<times> ('s, 'u) AsyncControlStream) io" where
  "recv_map_update ctl sn ops = (\<lambda>(self, stream).
     case map_err_io Wire (recv_message sn ops) stream of
       None \<Rightarrow> None
     | Some (Inl e, stream') \<Rightarrow> Some (Inl e, (self, stream'))
     | Some (Inr raw, stream') \<Rightarrow>
         (case parse_map_response ctl raw of
            Inl e \<Rightarrow> Some (Inl e, (self, stream'))
          | Inr resp \<Rightarrow>
              let is_keepalive = (keep_alive resp = Some True) in
              Some (Inr is_keepalive, (apply_map_response resp self, stream'))))"

definition client_peers :: "'t ControlClient \<Rightarrow> Node list" where
  "client_peers self = (case client_netmap self of Some nm \<Rightarrow> peers nm | None \<Rightarrow> [])"

definition client_self_node :: "'t ControlClient \<Rightarrow> Node option" where
  "client_self_node self = map_option self_node (client_netmap self)"

section \<open>Frames\<close>

lemma frame_message_Inr:
  assumes "frame_message payload = (Inr f :: (('i, 'e) ControlError, bytes) result)"
  obtains b0 b1 b2 b3 where "f = [b0, b1, b2, b3] @ payload"
    "unat (u32_from_le_bytes b0 b1 b2 b3) = length payload"
proof -
  obtain w where w: "u32_try_from (length payload) = Some w" and f: "f = u32_to_le_bytes w @ payload"
    using assms by (auto simp: frame_message_def frame_len_def bind_r_Inr_iff ok_or_Inr_iff)
  obtain b0 b1 b2 b3 where b: "u32_to_le_bytes w = [b0, b1, b2, b3]"
    unfolding u32_to_le_bytes_def by blast
  have "u32_from_le_bytes b0 b1 b2 b3 = w"
    by (rule u32_le_roundtrip [OF b])
  with w show thesis
    by (intro that [of b0 b1 b2 b3]) (simp_all add: f b u32_try_from_Some_iff)
qed

lemma parse_map_response_frame:
  assumes "frame_message payload = (Inr f :: (('i, 'e) ControlError, bytes) result)"
  shows "parse_map_response ctl (f @ trailing) =
    bind_r (decode_map_payload ctl payload) (\<lambda>p. map_err Json (de_map ctl p))"
proof -
  obtain b0 b1 b2 b3 where f: "f = [b0, b1, b2, b3] @ payload"
    and n: "unat (u32_from_le_bytes b0 b1 b2 b3) = length payload"
    using assms by (rule frame_message_Inr)
  have "get_to ([b0, b1, b2, b3] @ payload @ trailing) 4 = Some [b0, b1, b2, b3]"
    by (rule get_to_append) simp
  moreover have "get_range ([b0, b1, b2, b3] @ payload @ trailing) 4 (4 + length payload) = Some payload"
    by (rule get_range_append) simp_all
  ultimately show ?thesis
    by (simp add: parse_map_response_def f n Let_def)
qed

lemma parse_map_response_truncated:
  assumes "frame_message payload = (Inr f :: (('i, 'e) ControlError, bytes) result)" and "k < length f"
  shows "\<exists>m. parse_map_response ctl (take k f) = (Inl (MalformedResponse m) :: (('i, 'e) ControlError, MapResponse) result)"
proof -
  obtain b0 b1 b2 b3 where f: "f = [b0, b1, b2, b3] @ payload"
    and n: "unat (u32_from_le_bytes b0 b1 b2 b3) = length payload"
    using assms(1) by (rule frame_message_Inr)
  show ?thesis
  proof (cases "k < 4")
    case True
    then have "get_to (take k f) 4 = None"
      by (simp add: get_to_def)
    then show ?thesis
      by (simp add: parse_map_response_def)
  next
    case False
    then obtain j where k: "k = 4 + j"
      using le_Suc_ex [of 4 k] by auto
    have t: "take k f = [b0, b1, b2, b3] @ take j payload"
      by (simp add: f k numeral_eq_Suc)
    have "get_to ([b0, b1, b2, b3] @ take j payload) 4 = Some [b0, b1, b2, b3]"
      by (rule get_to_append) simp
    moreover have "get_range ([b0, b1, b2, b3] @ take j payload) 4 (4 + length payload) = None"
      using assms(2) by (simp add: get_range_def f k)
    ultimately show ?thesis
      by (simp add: parse_map_response_def t n Let_def)
  qed
qed

section \<open>The life of a client\<close>

text \<open>The network map a sequence of responses describes: keep-alives are skipped, the first other
  response is taken as a full map, the following ones as deltas.\<close>

definition described_netmap :: "MapResponse list \<Rightarrow> Netmap option" where
  "described_netmap rs =
     (case filter (\<lambda>r. keep_alive r \<noteq> Some True) rs of
        [] \<Rightarrow> None
      | r # ds \<Rightarrow> Some (fold apply_delta ds (from_full_response r)))"

lemma apply_responses_initialised:
  "client_netmap c = Some nm \<Longrightarrow>
   client_netmap (fold apply_map_response rs c)
     = Some (fold apply_delta (filter (\<lambda>r. keep_alive r \<noteq> Some True) rs) nm)"
  by (induction rs arbitrary: c nm) (simp_all add: apply_map_response_def)

lemma apply_responses_fresh:
  "client_netmap c = None \<Longrightarrow> client_netmap (fold apply_map_response rs c) = described_netmap rs"
proof (induction rs arbitrary: c)
  case Nil
  then show ?case
    by (simp add: described_netmap_def)
next
  case (Cons r rs)
  show ?case
  proof (cases "keep_alive r = Some True")
    case True
    with Cons show ?thesis
      by (simp add: apply_map_response_def described_netmap_def)
  next
    case False
    with Cons.prems have "client_netmap (apply_map_response r c) = Some (from_full_response r)"
      by (simp add: apply_map_response_def)
    from apply_responses_initialised [OF this] False show ?thesis
      by (simp add: described_netmap_def)
  qed
qed

text \<open>
  The calls a caller can make on a client and its stream, in any order and with any outcome; the
  third component collects the map responses that were accepted. A call that never returns ends
  the run.
\<close>

inductive client_run ::
  "Ctl_ops \<Rightarrow> ('h, 'u, 'e, 'y) Snow_lib_scheme \<Rightarrow> ('s, 'i, 'x) Stream_ops_scheme
     \<Rightarrow> 't ControlClient \<times> ('s, 'u) AsyncControlStream
     \<Rightarrow> MapResponse list \<Rightarrow> 't ControlClient \<times> ('s, 'u) AsyncControlStream \<Rightarrow> bool"
  for ctl sn ops where
  run_start: "client_run ctl sn ops s [] s"
| run_register: "client_run ctl sn ops s rs (c, st) \<Longrightarrow>
    register ctl sn ops c key st = Some (r, st') \<Longrightarrow> client_run ctl sn ops s rs (c, st')"
| run_poll: "client_run ctl sn ops s rs (c, st) \<Longrightarrow>
    poll_registration ctl sn ops c url st = Some (r, st') \<Longrightarrow> client_run ctl sn ops s rs (c, st')"
| run_start_map: "client_run ctl sn ops s rs (c, st) \<Longrightarrow>
    start_map_stream ctl sn ops c st = Some (r, st') \<Longrightarrow> client_run ctl sn ops s rs (c, st')"
| run_update_failed: "client_run ctl sn ops s rs (c, st) \<Longrightarrow>
    recv_map_update ctl sn ops (c, st) = Some (Inl e, (c', st')) \<Longrightarrow> client_run ctl sn ops s rs (c', st')"
| run_update: "client_run ctl sn ops s rs (c, st) \<Longrightarrow>
    recv_message sn ops st = Some (Inr raw, st1) \<Longrightarrow>
    parse_map_response ctl raw = (Inr resp :: (('i, 'e) ControlError, MapResponse) result) \<Longrightarrow>
    recv_map_update ctl sn ops (c, st) = Some (Inr keepalive, (c', st')) \<Longrightarrow>
    client_run ctl sn ops s (rs @ [resp]) (c', st')"

lemma recv_map_update_failed:
  "recv_map_update ctl sn ops (c, st) = Some (Inl e, (c', st')) \<Longrightarrow> c' = c"
  by (auto simp: recv_map_update_def Let_def split: option.splits sum.splits)

lemma recv_map_update_ok:
  assumes "recv_map_update ctl sn ops (c, st) = Some (Inr b, (c', st'))"
    and "recv_message sn ops st = Some (Inr raw :: (('i, 'e) WireError, bytes) result, st1)"
    and "parse_map_response ctl raw = (Inr resp :: (('i, 'e) ControlError, MapResponse) result)"
  shows "c' = apply_map_response resp c \<and> st' = st1 \<and> b = (keep_alive resp = Some True)"
  using assms by (auto simp: recv_map_update_def Let_def map_err_io_Inr)

lemma client_run_netmap:
  "client_run ctl sn ops s rs s' \<Longrightarrow> fst s' = fold apply_map_response rs (fst s)"
proof (induction rule: client_run.induct)
  case (run_update s rs c st raw st1 resp keepalive c' st')
  then show ?case
    using recv_map_update_ok by fastforce
qed (auto dest: recv_map_update_failed)

lemma apply_responses_keys:
  "client_node_key (fold apply_map_response rs c) = client_node_key c
   \<and> client_disco_key (fold apply_map_response rs c) = client_disco_key c
   \<and> client_machine_key (fold apply_map_response rs c) = client_machine_key c"
  by (induction rs arbitrary: c) (auto simp: apply_map_response_def split: option.split)

lemma described_netmap_ok: "described_netmap rs = Some nm \<Longrightarrow> netmap_ok nm"
proof -
  have "netmap_ok m \<Longrightarrow> netmap_ok (fold apply_delta ds m)" for ds m
    by (induction ds arbitrary: m) (simp_all add: apply_delta_ok)
  then show "described_netmap rs = Some nm \<Longrightarrow> netmap_ok nm"
    by (auto simp: described_netmap_def from_full_response_ok split: list.splits)
qed

section \<open>A sample session\<close>

definition sample_response :: MapResponse where
  "sample_response = empty_response\<lparr> resp_peers := Some [sample_node 1 CHR ''a''] \<rparr>"

definition sample_ctl :: Ctl_ops where
  "sample_ctl =
     \<lparr> ser_register = (\<lambda>_. Inr [1]), ser_map = (\<lambda>_. Inr [2]),
       de_register = (\<lambda>_. Inl ''unused''), de_map = (\<lambda>_. Inr sample_response),
       zstd_decode_all = (\<lambda>_. Inl ''unused''), system_hostname = None, consts_OS = ''linux'',
       x25519_base = id \<rparr>"

definition sample_client :: "nat ControlClient" where
  "sample_client =
     ControlClient_new \<lparr> conn_noise = NoiseTransport_from_snow 0 \<rparr> (MachinePrivate (replicate 32 1))
       (NodePrivate (replicate 32 2)) (DiscoPrivate (replicate 32 3))"

text \<open>One map response of one byte, framed, sealed and split over two chunks.\<close>

definition sample_map_stream :: "(bytes list, nat) AsyncControlStream" where
  "sample_map_stream =
     \<lparr> acs_stream = [[0x15, 1, 0, 0, 0, 0x7b] @ replicate 16 0],
       acs_conn = \<lparr> conn_noise = NoiseTransport_from_snow 0 \<rparr>, acs_pending = [0x04, 0x00] \<rparr>"

definition sample_map_stream_after :: "(bytes list, nat) AsyncControlStream" where
  "sample_map_stream_after =
     \<lparr> acs_stream = [[]], acs_conn = \<lparr> conn_noise = NoiseTransport_from_snow 1 \<rparr>, acs_pending = [] \<rparr>"

lemma sample_recv:
  "recv_message mock_snow script_ops sample_map_stream
     = (Some (Inr [1, 0, 0, 0, 0x7b], sample_map_stream_after)
        :: (((unit, unit) WireError, bytes) result \<times> (bytes list, nat) AsyncControlStream) option)"
  by (simp add: recv_message_def bind_io_def fill_exact_def take_pending_def sample_map_stream_def
      script_ops_def script_read_exact_def buffer_fill_def FRAME_TYPE_TRANSPORT_def Let_def
      u16_from_be_bytes_def open_frame_def receive_def decrypt_def TAG_LEN_def mock_snow_def
      NoiseTransport_from_snow_def sample_map_stream_after_def)

lemma sample_parse:
  "parse_map_response sample_ctl [1, 0, 0, 0, 0x7b]
     = (Inr sample_response :: ((unit, unit) ControlError, MapResponse) result)"
  by (simp add: parse_map_response_def get_to_def get_range_def u32_from_le_bytes_def
      decode_map_payload_def is_zstd_frame_def sample_ctl_def)

lemma sample_run:
  "client_run sample_ctl mock_snow script_ops (sample_client, sample_map_stream) [sample_response]
     (apply_map_response sample_response sample_client, sample_map_stream_after)"
proof -
  have "recv_map_update sample_ctl mock_snow script_ops (sample_client, sample_map_stream)
    = (Some (Inr False, (apply_map_response sample_response sample_client, sample_map_stream_after))
        :: (((unit, unit) ControlError, bool) result \<times> nat ControlClient \<times> (bytes list, nat) AsyncControlStream) option)"
    by (simp add: recv_map_update_def sample_recv map_err_io_Inr [where s = sample_map_stream] sample_parse)
       (simp add: sample_response_def empty_response_def)
  from client_run.run_update [OF client_run.run_start sample_recv sample_parse this] show ?thesis
    by simp
qed

section \<open>Properties\<close>

text \<open>
  Claim C29. The control framing round trip: parsing a framed payload, whatever follows it, decodes
  exactly that payload; and parsing any proper prefix of the frame is refused as malformed.
\<close>

theorem control_frame_roundtrip:
  assumes "frame_message payload = (Inr f :: (('i, 'e) ControlError, bytes) result)"
  shows "parse_map_response ctl (f @ trailing)
      = (bind_r (decode_map_payload ctl payload) (\<lambda>p. map_err Json (de_map ctl p))
          :: (('i, 'e) ControlError, MapResponse) result)
    \<and> (k < length f \<longrightarrow> (\<exists>m. parse_map_response ctl (take k f)
          = (Inl (MalformedResponse m) :: (('i, 'e) ControlError, MapResponse) result)))"
  using parse_map_response_frame [OF assms] parse_map_response_truncated [OF assms] by blast

theorem control_frame_roundtrip_witness:
  "parse_map_response sample_ctl ([1, 0, 0, 0, 0x7b] @ [9])
     = (Inr sample_response :: ((unit, unit) ControlError, MapResponse) result)"
proof -
  have "frame_message [0x7b] = (Inr [1, 0, 0, 0, 0x7b] :: ((unit, unit) ControlError, bytes) result)"
    by (simp add: frame_message_def frame_len_def u32_try_from_def u32_to_le_bytes_def)
  from conjunct1 [OF control_frame_roundtrip [OF this, of sample_ctl "[9]" 0]] show ?thesis
    by (simp add: decode_map_payload_def is_zstd_frame_def get_to_def sample_ctl_def)
qed

text \<open>
  Claim C7. What a client knows: after any sequence of calls on a new client, with any outcomes,
  its network map is the one its accepted map responses describe (keep-alives skipped, the first
  other response full, the rest deltas); failed updates and registration calls change nothing, and
  its keys never change.
\<close>

theorem client_netmap_described:
  assumes "client_run ctl sn ops (ControlClient_new conn mk nk dk, st) rs (c, st')"
  shows "client_netmap c = described_netmap rs
    \<and> client_machine_key c = mk \<and> client_node_key c = nk \<and> client_disco_key c = dk"
proof -
  have "c = fold apply_map_response rs (ControlClient_new conn mk nk dk)"
    using client_run_netmap [OF assms] by simp
  then show ?thesis
    using apply_responses_fresh [of "ControlClient_new conn mk nk dk" rs]
      apply_responses_keys [of rs "ControlClient_new conn mk nk dk"]
    by (simp add: ControlClient_new_def)
qed

theorem client_netmap_described_witness:
  "client_netmap (apply_map_response sample_response sample_client) = described_netmap [sample_response]"
  using client_netmap_described [OF sample_run [unfolded sample_client_def]]
  by (simp add: sample_client_def)

text \<open>
  Claim C2. Every network map a client ever holds is sound: at most \<open>MAX_PEERS\<close> peers, all well
  formed, a self node that is well formed or the zero-value fallback, and no unparseable resolver,
  whatever calls were made and whatever the server and the network did.
\<close>

theorem client_netmap_sound:
  assumes "client_run ctl sn ops (ControlClient_new conn mk nk dk, st) rs (c, st')"
  shows "length (client_peers c) \<le> MAX_PEERS \<and> list_all node_is_valid (client_peers c)
    \<and> is_none_or (client_netmap c) netmap_ok"
proof -
  have "c = fold apply_map_response rs (ControlClient_new conn mk nk dk)"
    using client_run_netmap [OF assms] by simp
  then have n: "client_netmap c = described_netmap rs"
    using apply_responses_fresh [of "ControlClient_new conn mk nk dk" rs]
    by (simp add: ControlClient_new_def)
  show ?thesis
  proof (cases "described_netmap rs")
    case None
    with n show ?thesis
      by (simp add: client_peers_def)
  next
    case (Some nm)
    with n described_netmap_ok [OF Some] show ?thesis
      by (simp add: client_peers_def netmap_ok_def peers_ok_def)
  qed
qed

theorem client_netmap_sound_witness:
  "list_all node_is_valid (client_peers (apply_map_response sample_response sample_client))
   \<and> client_peers (apply_map_response sample_response sample_client) = [sample_node 1 CHR ''a'']"
proof -
  have h: "is_hex_char CHR ''a''"
    by (simp add: is_hex_char_def)
  have "client_peers (apply_map_response sample_response sample_client) = [sample_node 1 CHR ''a'']"
    by (simp add: client_peers_def apply_map_response_def sample_client_def ControlClient_new_def
        sample_response_def empty_response_def from_full_response_def cap_peers_def MAX_PEERS_def
        sample_node_valid [OF h])
  then show ?thesis
    using client_netmap_sound [OF sample_run [unfolded sample_client_def]]
    by (simp add: sample_client_def)
qed

text \<open>
  Claim C10. A full peer list resynchronises: whatever two clients held before, after one delta that
  carries a full peer list and the same responses from then on, they report the same peers in the
  same order.
\<close>

theorem full_list_resynchronises:
  assumes "client_netmap c1 \<noteq> None" and "client_netmap c2 \<noteq> None"
    and "keep_alive resp \<noteq> Some True" and "resp_peers resp = Some ps"
  shows "client_peers (fold apply_map_response (resp # rs) c1)
    = client_peers (fold apply_map_response (resp # rs) c2)"
proof -
  obtain n1 n2 where n: "client_netmap c1 = Some n1" "client_netmap c2 = Some n2"
    using assms(1,2) by auto
  have "client_netmap (fold apply_map_response (resp # rs) c)
      = Some (fold apply_delta (filter (\<lambda>r. keep_alive r \<noteq> Some True) rs) (apply_delta resp m))"
    if "client_netmap c = Some m" for c :: "'x ControlClient" and m
    using apply_responses_initialised [OF that, of "resp # rs"] assms(3) by simp
  from this [OF n(1)] apply_responses_initialised [OF n(2), of "resp # rs"] show ?thesis
    using fold_delta_peers_cong [OF delta_full_list [OF assms(4), of n1 n2]] assms(3)
    by (simp add: client_peers_def)
qed

theorem full_list_resynchronises_witness:
  "client_peers (fold apply_map_response [sample_response]
      (sample_client\<lparr> client_netmap := Some (sample_netmap [sample_node 3 CHR ''b'']) \<rparr>))
    = client_peers (fold apply_map_response [sample_response]
      (sample_client\<lparr> client_netmap := Some (sample_netmap []) \<rparr>))"
  by (rule full_list_resynchronises) (simp_all add: sample_response_def empty_response_def)

end
