(* ===== verification/Serde_Types.thy ===== *)
theory Serde_Types
  imports Types
begin

text \<open>
  The derived serializers and deserializers of \<^verbatim>\<open>crates/mitos/src/types/mod.rs\<close>, one per struct
  with the names, defaults and skip conditions of its \<^verbatim>\<open>serde\<close> attributes: what a request looks
  like on the wire and which documents are accepted as a response.
\<close>

section \<open>Registration\<close>

definition BackendLogId_ser :: "BackendLogId \<Rightarrow> json" where
  "BackendLogId_ser x = JString (backend_log_id_str x)"

definition BackendLogId_de :: "BackendLogId decoder" where
  "BackendLogId_de j = bind_r (de_string j) (\<lambda>s. Inr (BackendLogId s))"

definition Hostinfo_ser :: "Hostinfo \<Rightarrow> json" where
  "Hostinfo_ser x =
     JObject (emit
       [(''BackendLogID'', Some (BackendLogId_ser (host_backend_log_id x))),
        (''OS'', Some (JString (host_os x))),
        (''Hostname'', Some (JString (host_hostname x))),
        (''GoVersion'', Some (JString (host_go_version x)))])"

definition Hostinfo_fields :: "Field list" where
  "Hostinfo_fields =
     [field_of ''BackendLogID'' BackendLogId_de,
      field_of ''OS'' de_string,
      field_of ''Hostname'' de_string,
      field_of ''GoVersion'' de_string]"

definition Hostinfo_de :: "Hostinfo decoder" where
  "Hostinfo_de j =
     bind_r (visit_struct ''Hostinfo'' False Hostinfo_fields j) (\<lambda>m.
     bind_r (required m ''BackendLogID'' BackendLogId_de) (\<lambda>v0.
     bind_r (required m ''OS'' de_string) (\<lambda>v1.
     bind_r (required m ''Hostname'' de_string) (\<lambda>v2.
     bind_r (required m ''GoVersion'' de_string) (\<lambda>v3.
     Inr \<lparr> host_backend_log_id = v0, host_os = v1, host_hostname = v2,
           host_go_version = v3 \<rparr>)))))"

definition AuthInfo_ser :: "AuthInfo \<Rightarrow> json" where
  "AuthInfo_ser x =
     JObject (emit
       [(''AuthKey'', map_option JString (auth_key x))])"

definition RegisterRequest_ser :: "RegisterRequest \<Rightarrow> json" where
  "RegisterRequest_ser x =
     JObject (emit
       [(''Version'', Some (ser_u64 (req_version x))),
        (''NodeKey'', Some (JString (req_node_key x))),
        (''OldNodeKey'', Some (JString (req_old_node_key x))),
        (''Auth'', map_option AuthInfo_ser (req_auth x)),
        (''Hostinfo'', Some (Hostinfo_ser (req_hostinfo x))),
        (''Followup'', map_option JString (req_followup x))])"

definition RegisterResponse_fields :: "Field list" where
  "RegisterResponse_fields =
     [default_field ''AuthURL'' (de_option de_string),
      default_field ''MachineAuthorized'' de_bool,
      default_field ''NodeKeyExpired'' de_bool,
      default_field ''Error'' (de_option de_string)]"

definition RegisterResponse_de :: "RegisterResponse decoder" where
  "RegisterResponse_de j =
     bind_r (visit_struct ''RegisterResponse'' False RegisterResponse_fields j) (\<lambda>m.
     bind_r (optional m ''AuthURL'' de_string) (\<lambda>v0.
     bind_r (defaulted m ''MachineAuthorized'' False de_bool) (\<lambda>v1.
     bind_r (defaulted m ''NodeKeyExpired'' False de_bool) (\<lambda>v2.
     bind_r (optional m ''Error'' de_string) (\<lambda>v3.
     Inr \<lparr> auth_url = v0, machine_authorized = v1, node_key_expired = v2, reg_error = v3 \<rparr>)))))"

definition MapRequest_ser :: "MapRequest \<Rightarrow> json" where
  "MapRequest_ser x =
     JObject (emit
       [(''Version'', Some (ser_u64 (map_version x))),
        (''Compress'', map_option JString (compress x)),
        (''NodeKey'', Some (JString (map_node_key x))),
        (''DiscoKey'', Some (JString (map_disco_key x))),
        (''Endpoints'', Some (ser_vec JString (map_endpoints x))),
        (''Stream'', Some (JBool (map_stream x))),
        (''OmitPeers'', Some (JBool (omit_peers x))),
        (''Hostinfo'', Some (Hostinfo_ser (map_hostinfo x)))])"

section \<open>Nodes and patches\<close>

definition Node_ser :: "Node \<Rightarrow> json" where
  "Node_ser x =
     JObject (emit
       [(''ID'', Some (ser_i64 (node_id x))),
        (''StableID'', map_option JString (stable_id x)),
        (''Key'', Some (JString (node_key x))),
        (''Machine'', map_option JString (node_machine x)),
        (''Name'', Some (JString (node_name x))),
        (''Cap'', map_option ser_u64 (node_cap x)),
        (''Tags'', map_option (ser_vec JString) (tags x)),
        (''Addresses'', Some (ser_vec JString (addresses x))),
        (''AllowedIPs'', map_option (ser_vec JString) (allowed_ips x)),
        (''Endpoints'', map_option (ser_vec JString) (node_endpoints x)),
        (''DERP'', map_option JString (derp x)),
        (''DiscoKey'', map_option JString (node_disco_key x)),
        (''KeyExpiry'', map_option JString (node_key_expiry x)),
        (''LastSeen'', map_option JString (node_last_seen x)),
        (''Online'', map_option JBool (node_online x))])"

definition Node_fields :: "Field list" where
  "Node_fields =
     [field_of ''ID'' de_i64,
      field_of ''StableID'' (de_option de_string),
      field_of ''Key'' de_string,
      field_of ''Machine'' (de_option de_string),
      field_of ''Name'' de_string,
      field_of ''Cap'' (de_option de_u64),
      field_of ''Tags'' (de_option (de_vec de_string)),
      default_field ''Addresses'' (de_vec de_string),
      field_of ''AllowedIPs'' (de_option (de_vec de_string)),
      field_of ''Endpoints'' (de_option (de_vec de_string)),
      field_of ''DERP'' (de_option de_string),
      field_of ''DiscoKey'' (de_option de_string),
      field_of ''KeyExpiry'' (de_option de_string),
      field_of ''LastSeen'' (de_option de_string),
      field_of ''Online'' (de_option de_bool)]"

definition Node_de :: "Node decoder" where
  "Node_de j =
     bind_r (visit_struct ''Node'' False Node_fields j) (\<lambda>m.
     bind_r (required m ''ID'' de_i64) (\<lambda>v0.
     bind_r (optional m ''StableID'' de_string) (\<lambda>v1.
     bind_r (required m ''Key'' de_string) (\<lambda>v2.
     bind_r (optional m ''Machine'' de_string) (\<lambda>v3.
     bind_r (required m ''Name'' de_string) (\<lambda>v4.
     bind_r (optional m ''Cap'' de_u64) (\<lambda>v5.
     bind_r (optional m ''Tags'' (de_vec de_string)) (\<lambda>v6.
     bind_r (defaulted m ''Addresses'' [] (de_vec de_string)) (\<lambda>v7.
     bind_r (optional m ''AllowedIPs'' (de_vec de_string)) (\<lambda>v8.
     bind_r (optional m ''Endpoints'' (de_vec de_string)) (\<lambda>v9.
     bind_r (optional m ''DERP'' de_string) (\<lambda>v10.
     bind_r (optional m ''DiscoKey'' de_string) (\<lambda>v11.
     bind_r (optional m ''KeyExpiry'' de_string) (\<lambda>v12.
     bind_r (optional m ''LastSeen'' de_string) (\<lambda>v13.
     bind_r (optional m ''Online'' de_bool) (\<lambda>v14.
     Inr \<lparr> node_id = v0, stable_id = v1, node_key = v2, node_machine = v3, node_name = v4,
           node_cap = v5, tags = v6, addresses = v7, allowed_ips = v8,
           node_endpoints = v9, derp = v10, node_disco_key = v11, node_key_expiry = v12,
           node_last_seen = v13, node_online = v14 \<rparr>))))))))))))))))"

definition PeerChange_ser :: "PeerChange \<Rightarrow> json" where
  "PeerChange_ser x =
     JObject (emit
       [(''NodeID'', Some (ser_i64 (change_node_id x))),
        (''DERPRegion'', map_option ser_i64 (derp_region x)),
        (''Cap'', map_option ser_u64 (change_cap x)),
        (''CapMap'', cap_map x),
        (''Endpoints'', map_option (ser_vec JString) (change_endpoints x)),
        (''Key'', map_option JString (change_key x)),
        (''DiscoKey'', map_option JString (change_disco_key x)),
        (''Online'', map_option JBool (change_online x)),
        (''LastSeen'', map_option JString (change_last_seen x)),
        (''KeyExpiry'', map_option JString (change_key_expiry x))])"

definition PeerChange_fields :: "Field list" where
  "PeerChange_fields =
     [field_of ''NodeID'' de_i64,
      field_of ''DERPRegion'' (de_option de_i64),
      field_of ''Cap'' (de_option de_u64),
      field_of ''CapMap'' (de_option de_value),
      field_of ''Endpoints'' (de_option (de_vec de_string)),
      field_of ''Key'' (de_option de_string),
      field_of ''DiscoKey'' (de_option de_string),
      field_of ''Online'' (de_option de_bool),
      field_of ''LastSeen'' (de_option de_string),
      field_of ''KeyExpiry'' (de_option de_string)]"

definition PeerChange_de :: "PeerChange decoder" where
  "PeerChange_de j =
     bind_r (visit_struct ''PeerChange'' False PeerChange_fields j) (\<lambda>m.
     bind_r (required m ''NodeID'' de_i64) (\<lambda>v0.
     bind_r (optional m ''DERPRegion'' de_i64) (\<lambda>v1.
     bind_r (optional m ''Cap'' de_u64) (\<lambda>v2.
     bind_r (optional m ''CapMap'' de_value) (\<lambda>v3.
     bind_r (optional m ''Endpoints'' (de_vec de_string)) (\<lambda>v4.
     bind_r (optional m ''Key'' de_string) (\<lambda>v5.
     bind_r (optional m ''DiscoKey'' de_string) (\<lambda>v6.
     bind_r (optional m ''Online'' de_bool) (\<lambda>v7.
     bind_r (optional m ''LastSeen'' de_string) (\<lambda>v8.
     bind_r (optional m ''KeyExpiry'' de_string) (\<lambda>v9.
     Inr \<lparr> change_node_id = v0, derp_region = v1, change_cap = v2, cap_map = v3,
           change_endpoints = v4, change_key = v5, change_disco_key = v6,
           change_online = v7, change_last_seen = v8, change_key_expiry = v9 \<rparr>)))))))))))"

text \<open>
  The untagged mirror of a removal marker: its variants are tried in order, the struct variant
  only on objects; the error of a failed attempt is dropped.
\<close>

definition PeerRemovalWire_de :: "PeerRemovalWire decoder" where
  "PeerRemovalWire_de j =
     (case de_i64 j of
        Inr i \<Rightarrow> Inr (WireNodeId i)
      | Inl _ \<Rightarrow>
          (case de_string j of
             Inr s \<Rightarrow> Inr (WireNodeKey s)
           | Inl _ \<Rightarrow>
               (case j of
                  JObject es \<Rightarrow>
                    (case bind_r (visit_map False [field_of ''NodeID'' de_i64] [] es)
                            (\<lambda>m. required m ''NodeID'' de_i64) of
                       Inr i \<Rightarrow> Inr (WireNodeIdObject i)
                     | Inl _ \<Rightarrow> Inl (NoVariant ''PeerRemovalWire''))
                | _ \<Rightarrow> Inl (NoVariant ''PeerRemovalWire''))))"

definition PeerRemoval_de :: "PeerRemoval decoder" where
  "PeerRemoval_de j = bind_r (PeerRemovalWire_de j) (\<lambda>w. Inr (PeerRemoval_from w))"

section \<open>DNS, DERP and the map response\<close>

definition DnsResolver_ser :: "DnsResolver \<Rightarrow> json" where
  "DnsResolver_ser x =
     JObject (emit
       [(''Addr'', Some (JString (addr x)))])"

definition DnsResolver_fields :: "Field list" where
  "DnsResolver_fields =
     [field_of ''Addr'' de_string]"

definition DnsResolver_de :: "DnsResolver decoder" where
  "DnsResolver_de j =
     bind_r (visit_struct ''DnsResolver'' False DnsResolver_fields j) (\<lambda>m.
     bind_r (required m ''Addr'' de_string) (\<lambda>v0.
     Inr \<lparr> addr = v0 \<rparr>))"

definition DnsConfig_ser :: "DnsConfig \<Rightarrow> json" where
  "DnsConfig_ser x =
     JObject (emit
       [(''Resolvers'', map_option (ser_vec DnsResolver_ser) (resolvers x)),
        (''Domains'', map_option (ser_vec JString) (domains x))])"

definition DnsConfig_fields :: "Field list" where
  "DnsConfig_fields =
     [field_of ''Resolvers'' (de_option (de_vec DnsResolver_de)),
      field_of ''Domains'' (de_option (de_vec de_string))]"

definition DnsConfig_de :: "DnsConfig decoder" where
  "DnsConfig_de j =
     bind_r (visit_struct ''DnsConfig'' False DnsConfig_fields j) (\<lambda>m.
     bind_r (optional m ''Resolvers'' (de_vec DnsResolver_de)) (\<lambda>v0.
     bind_r (optional m ''Domains'' (de_vec de_string)) (\<lambda>v1.
     Inr \<lparr> resolvers = v0, domains = v1 \<rparr>)))"

definition DerpMap_ser :: "DerpMap \<Rightarrow> json" where
  "DerpMap_ser x =
     JObject (emit
       [(''Regions'', regions x)])"

definition DerpMap_fields :: "Field list" where
  "DerpMap_fields =
     [field_of ''Regions'' (de_option de_value)]"

definition DerpMap_de :: "DerpMap decoder" where
  "DerpMap_de j =
     bind_r (visit_struct ''DerpMap'' False DerpMap_fields j) (\<lambda>m.
     bind_r (optional m ''Regions'' de_value) (\<lambda>v0.
     Inr \<lparr> regions = v0 \<rparr>))"

definition MapResponse_fields :: "Field list" where
  "MapResponse_fields =
     [field_of ''Node'' (de_option Node_de),
      field_of ''Peers'' (de_option (de_vec Node_de)),
      field_of ''PeersChanged'' (de_option (de_vec Node_de)),
      field_of ''PeersChangedPatch'' (de_option (de_vec PeerChange_de)),
      field_of ''PeersRemoved'' (de_option (de_vec PeerRemoval_de)),
      field_of ''DNSConfig'' (de_option DnsConfig_de),
      field_of ''DERPMap'' (de_option DerpMap_de),
      field_of ''KeepAlive'' (de_option de_bool)]"

definition MapResponse_de :: "MapResponse decoder" where
  "MapResponse_de j =
     bind_r (visit_struct ''MapResponse'' False MapResponse_fields j) (\<lambda>m.
     bind_r (optional m ''Node'' Node_de) (\<lambda>v0.
     bind_r (optional m ''Peers'' (de_vec Node_de)) (\<lambda>v1.
     bind_r (optional m ''PeersChanged'' (de_vec Node_de)) (\<lambda>v2.
     bind_r (optional m ''PeersChangedPatch'' (de_vec PeerChange_de)) (\<lambda>v3.
     bind_r (optional m ''PeersRemoved'' (de_vec PeerRemoval_de)) (\<lambda>v4.
     bind_r (optional m ''DNSConfig'' DnsConfig_de) (\<lambda>v5.
     bind_r (optional m ''DERPMap'' DerpMap_de) (\<lambda>v6.
     bind_r (optional m ''KeepAlive'' de_bool) (\<lambda>v7.
     Inr \<lparr> resp_node = v0, resp_peers = v1, peers_changed = v2, peers_changed_patch = v3,
           peers_removed = v4, resp_dns_config = v5, resp_derp_map = v6, keep_alive = v7 \<rparr>)))))))))"

section \<open>Invariants of decoded values\<close>

text \<open>
  The values the decoders can return: identifiers are 64-bit, an opaque value is a \<open>Value\<close> (sorted
  objects without repeated keys), and it is not null, since a null entry is read as the absence of the
  \<^verbatim>\<open>Option\<close>. The Rust types hold more: see \<open>PeerChange_held\<close>.
\<close>

definition value_ok :: "json \<Rightarrow> bool" where
  "value_ok v \<longleftrightarrow> value_of v = v \<and> v \<noteq> JNull"

definition Node_ok :: "Node \<Rightarrow> bool" where
  "Node_ok n \<longleftrightarrow> is_i64 (node_id n)"

definition PeerChange_ok :: "PeerChange \<Rightarrow> bool" where
  "PeerChange_ok c \<longleftrightarrow>
     is_i64 (change_node_id c) \<and> is_none_or (derp_region c) is_i64 \<and> is_none_or (cap_map c) value_ok"

fun PeerRemoval_ok :: "PeerRemoval \<Rightarrow> bool" where
  "PeerRemoval_ok (NodeId i) \<longleftrightarrow> is_i64 i"
| "PeerRemoval_ok (NodeKey k) \<longleftrightarrow> True"

definition DerpMap_ok :: "DerpMap \<Rightarrow> bool" where
  "DerpMap_ok d \<longleftrightarrow> is_none_or (regions d) value_ok"

section \<open>Codecs of the message types\<close>

lemma optional_value_ok: "optional m k de_value = Inr v \<Longrightarrow> is_none_or v value_ok"
  by (auto simp: optional_def de_option_def de_value_def value_ok_def split: option.splits if_splits)

lemma optional_value_emitted:
  "map_of m k = v \<Longrightarrow> is_none_or v value_ok \<Longrightarrow> optional m k de_value = Inr v"
  by (cases v) (simp_all add: optional_def de_option_def de_value_def value_ok_def)

lemma value_no_error: "is_none_or v (\<lambda>j. decode_error (de_option de_value) j = None)"
  by (cases v) (simp_all add: decode_error_None_iff de_option_def de_value_def)

interpretation log_id_codec: codec BackendLogId_de any BackendLogId_ser
  by unfold_locales (simp_all add: BackendLogId_de_def BackendLogId_ser_def string_codec.dec_enc)

lemmas leaf_emitted = bool_codec.emitted string_codec.emitted u64_codec.emitted
  i64_codec.emitted strings_codec.emitted log_id_codec.emitted

lemma Hostinfo_de_ser: "Hostinfo_de (Hostinfo_ser h) = Inr h"
  by (simp add: Hostinfo_de_def Hostinfo_ser_def Hostinfo_fields_def struct_roundtrip leaf_emitted)

lemma Node_de_ser: "Node_ok n \<Longrightarrow> Node_de (Node_ser n) = Inr n"
  by (simp add: Node_de_def Node_ser_def Node_fields_def Node_ok_def struct_roundtrip leaf_emitted)

lemma PeerChange_de_ser: "PeerChange_ok c \<Longrightarrow> PeerChange_de (PeerChange_ser c) = Inr c"
  by (simp add: PeerChange_de_def PeerChange_ser_def PeerChange_fields_def PeerChange_ok_def
      struct_roundtrip leaf_emitted optional_value_emitted value_no_error)

lemma DnsResolver_de_ser: "DnsResolver_de (DnsResolver_ser r) = Inr r"
  by (simp add: DnsResolver_de_def DnsResolver_ser_def DnsResolver_fields_def struct_roundtrip
      leaf_emitted)

lemma Node_de_ok: "Node_de j = Inr n \<Longrightarrow> Node_ok n"
  by (auto simp: Node_de_def Node_ok_def bind_r_Inr_iff dest: i64_codec.required_ok)

lemma PeerChange_de_ok: "PeerChange_de j = Inr c \<Longrightarrow> PeerChange_ok c"
  by (auto simp: PeerChange_de_def PeerChange_ok_def bind_r_Inr_iff
      dest: i64_codec.required_ok i64_codec.optional_ok optional_value_ok)

interpretation host_codec: codec Hostinfo_de any Hostinfo_ser
  by unfold_locales (simp_all add: Hostinfo_de_ser, simp add: Hostinfo_ser_def)

interpretation node_codec: codec Node_de Node_ok Node_ser
  by unfold_locales (simp_all add: Node_de_ok Node_de_ser, simp add: Node_ser_def)

interpretation change_codec: codec PeerChange_de PeerChange_ok PeerChange_ser
  by unfold_locales (simp_all add: PeerChange_de_ok PeerChange_de_ser, simp add: PeerChange_ser_def)

interpretation resolver_codec: codec DnsResolver_de any DnsResolver_ser
  by unfold_locales (simp_all add: DnsResolver_de_ser, simp add: DnsResolver_ser_def)

interpretation resolvers_codec: codec "de_vec DnsResolver_de" "list_all any" "ser_vec DnsResolver_ser"
  by (rule codec_vec) (rule resolver_codec.codec_axioms)

lemma DnsConfig_de_ser: "DnsConfig_de (DnsConfig_ser d) = Inr d"
  by (simp add: DnsConfig_de_def DnsConfig_ser_def DnsConfig_fields_def struct_roundtrip
      leaf_emitted resolvers_codec.emitted)

interpretation dns_codec: codec DnsConfig_de any DnsConfig_ser
  by unfold_locales (simp_all add: DnsConfig_de_ser, simp add: DnsConfig_ser_def)

lemma DerpMap_de_ser: "DerpMap_ok d \<Longrightarrow> DerpMap_de (DerpMap_ser d) = Inr d"
  by (simp add: DerpMap_de_def DerpMap_ser_def DerpMap_fields_def DerpMap_ok_def struct_roundtrip
      optional_value_emitted value_no_error)

lemma DerpMap_de_ok: "DerpMap_de j = Inr d \<Longrightarrow> DerpMap_ok d"
  by (auto simp: DerpMap_de_def DerpMap_ok_def bind_r_Inr_iff dest: optional_value_ok)

interpretation derp_codec: codec DerpMap_de DerpMap_ok DerpMap_ser
  by unfold_locales (simp_all add: DerpMap_de_ok DerpMap_de_ser, simp add: DerpMap_ser_def)

text \<open>A removal marker is an integer, a string, or an object with the one integer field.\<close>

lemma keyed_entries:
  obtains "filter (\<lambda>e. fst e = k) es = []"
  | v where "filter (\<lambda>e. fst e = k) es = [(k, v)]"
  | v w r where "filter (\<lambda>e. fst e = k) es = (k, v) # (k, w) # r"
proof -
  have key: "fst e = k" if "e \<in> set (filter (\<lambda>e. fst e = k) es)" for e
    using that by simp
  show thesis
  proof (cases "filter (\<lambda>e. fst e = k) es")
    case (Cons e r)
    with key [of e] obtain v where v: "e = (k, v)"
      by (cases e) simp
    show thesis
    proof (cases r)
      case Nil
      with Cons v that(2) show thesis
        by simp
    next
      case (Cons e' r')
      with \<open>filter _ es = e # r\<close> key [of e'] obtain w where "e' = (k, w)"
        by (cases e') simp
      with Cons \<open>filter _ es = e # r\<close> v that(3) show thesis
        by simp
    qed
  qed (rule that(1))
qed

lemma single_field_object:
  "bind_r (visit_map False [field_of k d] [] es) (\<lambda>m. required m k d) = Inr x \<longleftrightarrow>
     (\<exists>v. filter (\<lambda>e. fst e = k) es = [(k, v)] \<and> d v = Inr x)"
proof -
  let ?fs = "[field_of k d]" and ?keep = "filter (\<lambda>e. fst e = k)"
  have skip: "visit_map False ?fs seen es = visit_map False ?fs seen (?keep es)" for seen
    by (induction es arbitrary: seen) (auto split: option.split)
  have one: "visit_map False ?fs seen ((k, v) # r) =
      (if map_of seen k \<noteq> None then Inl (DuplicateField k)
       else case d v of Inl e \<Rightarrow> Inl e | Inr _ \<Rightarrow> visit_map False ?fs ((k, v) # seen) r)" for seen v r
    by (simp add: decode_error_def split: sum.split)
  consider "?keep es = []" | v where "?keep es = [(k, v)]"
    | v w r where "?keep es = (k, v) # (k, w) # r"
    by (rule keyed_entries)
  then show ?thesis
    unfolding skip
    by cases (auto simp: one required_def simp del: visit_map.simps(2) split: sum.splits)
qed

lemma PeerRemoval_de_iff:
  "PeerRemoval_de j = Inr r \<longleftrightarrow>
     (\<exists>i. r = NodeId i \<and> de_i64 j = Inr i)
     \<or> (\<exists>s. r = NodeKey s \<and> j = JString s)
     \<or> (\<exists>es v i. r = NodeId i \<and> j = JObject es \<and> filter (\<lambda>e. fst e = ''NodeID'') es = [(''NodeID'', v)]
          \<and> de_i64 v = Inr i)"
proof (cases j)
  case (JObject es)
  define b where
    "b = bind_r (visit_map False [field_of ''NodeID'' de_i64] [] es) (\<lambda>m. required m ''NodeID'' de_i64)"
  have "PeerRemoval_de j = Inr r \<longleftrightarrow> (\<exists>i. r = NodeId i \<and> b = Inr i)"
    by (cases b) (auto simp: JObject PeerRemoval_de_def PeerRemovalWire_de_def de_i64_def
        de_string_def b_def [symmetric])
  then show ?thesis
    using single_field_object [of "''NodeID''" de_i64 es]
    by (auto simp: JObject b_def de_i64_def)
qed (auto simp: PeerRemoval_de_def PeerRemovalWire_de_def de_i64_def de_string_def
    split: json_number.splits)

lemma PeerRemoval_de_ok: "PeerRemoval_de j = Inr r \<Longrightarrow> PeerRemoval_ok r"
  by (auto simp: PeerRemoval_de_iff dest: de_i64_range)

interpretation removal_decoder: decoder PeerRemoval_de PeerRemoval_ok
  by unfold_locales (rule PeerRemoval_de_ok)

interpretation nodes_codec: codec "de_vec Node_de" "list_all Node_ok" "ser_vec Node_ser"
  by (rule codec_vec) (rule node_codec.codec_axioms)

interpretation changes_codec: codec "de_vec PeerChange_de" "list_all PeerChange_ok" "ser_vec PeerChange_ser"
  by (rule codec_vec) (rule change_codec.codec_axioms)

interpretation removals_decoder: decoder "de_vec PeerRemoval_de" "list_all PeerRemoval_ok"
  by unfold_locales (rule removal_decoder.de_vec_ok)

section \<open>Undeclared keys and the order of keys\<close>

lemma struct_unknown_key:
  "k \<notin> names_of fs \<Longrightarrow>
     visit_struct name False fs (JObject (xs @ (k, v) # ys)) = visit_struct name False fs (JObject (xs @ ys))"
  by (simp add: visit_struct_def visit_map_unknown)

lemma Node_de_order: "mset es' = mset es \<Longrightarrow> Node_de (JObject es') = Inr n \<longleftrightarrow> Node_de (JObject es) = Inr n"
  by (rule struct_order [OF Node_de_def]) (simp_all add: required_def optional_def defaulted_def)

lemma MapResponse_de_order:
  "mset es' = mset es \<Longrightarrow> MapResponse_de (JObject es') = Inr r \<longleftrightarrow> MapResponse_de (JObject es) = Inr r"
  by (rule struct_order [OF MapResponse_de_def]) (simp_all add: required_def optional_def defaulted_def)

section \<open>Undecodable parts\<close>

lemma de_elements_bad: "j \<in> set js \<Longrightarrow> d j = Inl e \<Longrightarrow> \<exists>e'. de_elements d js = Inl e'"
  by (induction js) (auto simp: bind_r_Inl_iff split: sum.splits intro: sum.exhaust)

lemma bad_array_error:
  "j \<in> set js \<Longrightarrow> d j = Inl e \<Longrightarrow> decode_error (de_option (de_vec d)) (JArray js) \<noteq> None"
  using de_elements_bad [of j js d e] by (auto simp: decode_error_None_iff de_option_def de_vec_def)

lemma Node_de_empty_addresses:
  assumes "''Addresses'' \<notin> fst ` set es"
  shows "Node_de (JObject (es @ [(''Addresses'', JArray [])])) = Node_de (JObject es)"
proof -
  let ?empty = "(''Addresses'', JArray [])"
  have pass: "visit_map False Node_fields seen (es @ [?empty])
      = bind_r (visit_map False Node_fields seen es) (\<lambda>m. Inr (?empty # m))"
    if "map_of seen ''Addresses'' = None" for seen
    using assms that
  proof (induction es arbitrary: seen)
    case Nil
    then show ?case
      by (simp add: Node_fields_def decode_error_def de_vec_def)
  next
    case (Cons e es)
    then show ?case
      by (cases e) (simp split: option.split)
  qed
  show ?thesis
  proof (cases "visit_map False Node_fields [] es")
    case (Inl e)
    then show ?thesis
      by (simp add: Node_de_def visit_struct_def pass)
  next
    case (Inr m)
    then have "''Addresses'' \<notin> fst ` set m"
      using assms by (auto simp: visit_map_Inr_iff declared_def)
    then have "map_of m ''Addresses'' = None"
      by (simp add: map_of_eq_None_iff)
    with Inr show ?thesis
      by (simp add: Node_de_def visit_struct_def pass required_def optional_def defaulted_def de_vec_def)
  qed
qed

lemma Node_de_null_addresses: "\<exists>e. Node_de (JObject (es @ [(''Addresses'', JNull)])) = Inl e"
  using visit_struct_bad_entry [of "''Addresses''" JNull "es @ [(''Addresses'', JNull)]" Node_fields
      _ "''Node''" False]
  by (auto simp: Node_de_def Node_fields_def decode_error_def de_vec_def)

lemma MapResponse_de_bad_peer:
  assumes "Node_de p = Inl e0" and "p \<in> set ps" and "(k, JArray ps) \<in> set rs"
    and "k \<in> {''Peers'', ''PeersChanged''}"
  shows "\<exists>e. MapResponse_de (JObject rs) = Inl e"
  using bad_array_error [where d = Node_de, OF assms(2,1)] assms(3,4)
    visit_struct_bad_entry [of k "JArray ps" rs MapResponse_fields _ "''MapResponse''" False]
  by (auto simp: MapResponse_de_def MapResponse_fields_def)

section \<open>Properties\<close>

text \<open>What the Rust types of a patch and a DERP map hold, over the model's wider identifiers and syntax
  trees: any \<^verbatim>\<open>Option<Value>\<close>, \<^verbatim>\<open>Some(Value::Null)\<close> among them. Its JSON is the one that does not tell it from
  the absent value.\<close>

definition rust_value :: "json \<Rightarrow> bool" where
  "rust_value v \<longleftrightarrow> value_of v = v"

definition PeerChange_held :: "PeerChange \<Rightarrow> bool" where
  "PeerChange_held c \<longleftrightarrow>
     is_i64 (change_node_id c) \<and> is_none_or (derp_region c) is_i64 \<and> is_none_or (cap_map c) rust_value"

definition DerpMap_held :: "DerpMap \<Rightarrow> bool" where
  "DerpMap_held d \<longleftrightarrow> is_none_or (regions d) rust_value"

definition null_absent :: "json option \<Rightarrow> json option" where
  "null_absent v = (if v = Some JNull then None else v)"

lemma held_iff_ok:
  "PeerChange_ok c \<longleftrightarrow> PeerChange_held c \<and> cap_map c \<noteq> Some JNull"
  "DerpMap_ok d \<longleftrightarrow> DerpMap_held d \<and> regions d \<noteq> Some JNull"
  by (cases "cap_map c"; auto simp: PeerChange_ok_def PeerChange_held_def value_ok_def rust_value_def)
     (cases "regions d"; auto simp: DerpMap_ok_def DerpMap_held_def value_ok_def rust_value_def)

lemma optional_value_held:
  "map_of m k = v \<Longrightarrow> is_none_or v rust_value \<Longrightarrow> optional m k de_value = Inr (null_absent v)"
  by (cases v) (simp_all add: optional_def de_option_def de_value_def rust_value_def null_absent_def)

lemma PeerChange_held_de:
  "PeerChange_held c \<Longrightarrow> PeerChange_de (PeerChange_ser c) = Inr (c\<lparr> cap_map := null_absent (cap_map c) \<rparr>)"
  by (simp add: PeerChange_de_def PeerChange_ser_def PeerChange_fields_def PeerChange_held_def
      struct_roundtrip leaf_emitted optional_value_held value_no_error)

lemma DerpMap_held_de:
  "DerpMap_held d \<Longrightarrow> DerpMap_de (DerpMap_ser d) = Inr (d\<lparr> regions := null_absent (regions d) \<rparr>)"
  by (simp add: DerpMap_de_def DerpMap_ser_def DerpMap_fields_def DerpMap_held_def struct_roundtrip
      optional_value_held value_no_error)

text \<open>
  Claim C16. Writing and reading back. A node, a DNS configuration and host information are read back
  from their own JSON exactly as they were (a node whenever its identifier is in the range of its Rust
  type). Every patch and every DERP map their Rust types hold is read back too, and exactly as it was
  but for one case, an opaque value that is there and is JSON null: it is written as a null entry and
  read back as absent. So those types round-trip on precisely the values they hold other than that one.
\<close>

theorem messages_json_roundtrip:
  "(Node_de (Node_ser n) = Inr n \<longleftrightarrow> is_i64 (node_id n))
   \<and> (PeerChange_held c \<longrightarrow> PeerChange_de (PeerChange_ser c) = Inr (c\<lparr> cap_map := null_absent (cap_map c) \<rparr>))
   \<and> (PeerChange_de (PeerChange_ser c) = Inr c \<longleftrightarrow> PeerChange_held c \<and> cap_map c \<noteq> Some JNull)
   \<and> (DerpMap_held d \<longrightarrow> DerpMap_de (DerpMap_ser d) = Inr (d\<lparr> regions := null_absent (regions d) \<rparr>))
   \<and> (DerpMap_de (DerpMap_ser d) = Inr d \<longleftrightarrow> DerpMap_held d \<and> regions d \<noteq> Some JNull)
   \<and> DnsConfig_de (DnsConfig_ser dns) = Inr dns \<and> Hostinfo_de (Hostinfo_ser h) = Inr h"
  unfolding held_iff_ok [symmetric] Node_ok_def [symmetric]
  using Node_de_ser Node_de_ok PeerChange_de_ser PeerChange_de_ok DerpMap_de_ser DerpMap_de_ok
    DnsConfig_de_ser Hostinfo_de_ser PeerChange_held_de DerpMap_held_de by blast

theorem messages_json_roundtrip_witness:
  "let c = \<lparr> change_node_id = 3, derp_region = Some 5, change_cap = None, cap_map = Some JNull, change_endpoints = None,
        change_key = None, change_disco_key = None, change_online = Some True, change_last_seen = None,
        change_key_expiry = None \<rparr>;
       d = \<lparr> regions = Some (JObject [(''1'', JNull)]) \<rparr> in
     PeerChange_de (PeerChange_ser c) = Inr (c\<lparr> cap_map := None \<rparr>) \<and> DerpMap_de (DerpMap_ser d) = Inr d"
proof -
  let ?c = "\<lparr> change_node_id = 3, derp_region = Some 5, change_cap = None, cap_map = Some JNull, change_endpoints = None,
        change_key = None, change_disco_key = None, change_online = Some True, change_last_seen = None,
        change_key_expiry = None \<rparr>"
  let ?d = "\<lparr> regions = Some (JObject [(''1'', JNull)]) \<rparr>"
  have "PeerChange_held ?c" "DerpMap_held ?d"
    by (simp_all add: PeerChange_held_def DerpMap_held_def is_i64_def rust_value_def btree_of_def)
  then show ?thesis
    using messages_json_roundtrip [of _ ?c ?d] by (simp add: null_absent_def)
qed

text \<open>A removal frame in the three shapes, with a key the client does not know.\<close>

definition sample_removals :: json where
  "sample_removals =
     JObject [(''Extra'', JNull),
              (''PeersRemoved'',
               JArray [JNumber (PosInt 7), JObject [(''NodeID'', JNumber (NegInt (- 2)))], JString ''nodekey:ab''])]"

lemma sample_removals_de:
  "MapResponse_de sample_removals =
     Inr \<lparr> resp_node = None, resp_peers = None, peers_changed = None, peers_changed_patch = None,
           peers_removed = Some [NodeId 7, NodeId (- 2), NodeKey ''nodekey:ab''],
           resp_dns_config = None, resp_derp_map = None, keep_alive = None \<rparr>"
  by (simp add: sample_removals_def MapResponse_de_def MapResponse_fields_def visit_struct_def
      decode_error_def optional_def de_option_def de_vec_def PeerRemoval_de_def
      PeerRemovalWire_de_def de_i64_def de_string_def required_def)

text \<open>
  A removal marker is accepted in exactly three shapes: a 64-bit integer, a string, and an
  object with exactly one \<^verbatim>\<open>NodeID\<close> entry holding a 64-bit integer; the two numeric shapes mean
  the same.
\<close>

lemma peer_removal_shapes:
  "PeerRemoval_de j = Inr r \<longleftrightarrow>
     (\<exists>i. r = NodeId i \<and> de_i64 j = Inr i)
     \<or> (\<exists>s. r = NodeKey s \<and> j = JString s)
     \<or> (\<exists>es v i. r = NodeId i \<and> j = JObject es \<and> filter (\<lambda>e. fst e = ''NodeID'') es = [(''NodeID'', v)]
          \<and> de_i64 v = Inr i)"
  by (rule PeerRemoval_de_iff)

text \<open>
  Claim C26. Map responses are read as the protocol means them: the order of the keys does not
  matter, and a key the client does not know is ignored wherever it stands.
\<close>

theorem map_response_open_record:
  "(mset es' = mset es \<longrightarrow> (MapResponse_de (JObject es') = Inr r \<longleftrightarrow> MapResponse_de (JObject es) = Inr r))
   \<and> (k \<notin> names_of MapResponse_fields \<longrightarrow>
        MapResponse_de (JObject (xs @ (k, v) # ys)) = MapResponse_de (JObject (xs @ ys)))"
  using MapResponse_de_order [of es' es r] by (simp add: MapResponse_de_def struct_unknown_key)

theorem map_response_open_record_witness:
  "MapResponse_de (JObject [(''KeepAlive'', JBool True), (''Extra'', JNull)])
     = MapResponse_de (JObject [(''KeepAlive'', JBool True)])"
  using conjunct2 [OF map_response_open_record,
      of "''Extra''" "[(''KeepAlive'', JBool True)]" JNull "[]"]
  by (simp add: MapResponse_fields_def)

text \<open>
  One undecodable peer fails the whole map response. A node without addresses is the same
  as one with an empty list, but a node whose address list is null is undecodable.
\<close>

lemma undecodable_peer_fails_response:
  assumes "''Addresses'' \<notin> fst ` set es"
  shows "Node_de (JObject (es @ [(''Addresses'', JArray [])])) = Node_de (JObject es)
    \<and> (\<exists>e. Node_de (JObject (es @ [(''Addresses'', JNull)])) = Inl e)
    \<and> (Node_de p = Inl e0 \<and> p \<in> set ps \<and> (''Peers'', JArray ps) \<in> set rs \<longrightarrow>
         (\<exists>e. MapResponse_de (JObject rs) = Inl e))"
  using Node_de_empty_addresses [OF assms] Node_de_null_addresses MapResponse_de_bad_peer by blast

definition sample_entries :: "(string \<times> json) list" where
  "sample_entries =
     [(''ID'', JNumber (PosInt 1)), (''Key'', JString ''nodekey:abc''), (''Name'', JString ''peer.'')]"

lemma undecodable_peer_fails_response_witness:
  "is_ok (Node_de (JObject sample_entries))
   \<and> (\<exists>e. MapResponse_de (JObject [(''Peers'', JArray [JObject (sample_entries @ [(''Addresses'', JNull)])])]) = Inl e)"
proof -
  let ?p = "JObject (sample_entries @ [(''Addresses'', JNull)])"
  have "''Addresses'' \<notin> fst ` set sample_entries"
    by (simp add: sample_entries_def)
  note t = undecodable_peer_fails_response [OF this]
  obtain e where e: "Node_de ?p = Inl e"
    using t by blast
  have "is_ok (Node_de (JObject sample_entries))"
    by (simp add: sample_entries_def Node_de_def Node_fields_def visit_struct_def decode_error_def
        de_i64_def de_string_def required_def optional_def defaulted_def)
  moreover have "\<exists>e. MapResponse_de (JObject [(''Peers'', JArray [?p])]) = Inl e"
    using t [of ?p e "[?p]" "[(''Peers'', JArray [?p])]"] e by simp
  ultimately show ?thesis
    by simp
qed

end
