(* ===== verification/Control_Json.thy ===== *)
theory Control_Json
  imports Control Serde_Types
begin

text \<open>
  The control client over JSON: the message encodings \<^verbatim>\<open>control/mod.rs\<close> obtains from
  \<^verbatim>\<open>serde_json::to_vec\<close> and \<^verbatim>\<open>serde_json::from_slice\<close>, composed of the derived
  implementations of the message types and of the library's reading and writing of text, which
  is a parameter: \<open>to_vec\<close> writes a document, \<open>parse_text\<close> reads one, and \<open>error_text\<close> renders a
  data error with its position in the text.
\<close>

record Json_lib =
  to_vec :: "json \<Rightarrow> string + bytes"
  parse_text :: "bytes \<Rightarrow> string + json"
  error_text :: "bytes \<Rightarrow> de_error \<Rightarrow> string"

definition from_slice :: "Json_lib \<Rightarrow> 'a decoder \<Rightarrow> bytes \<Rightarrow> (string, 'a) result" where
  "from_slice lib d raw = bind_r (parse_text lib raw) (\<lambda>j. map_err (error_text lib raw) (d j))"

definition with_serde :: "Json_lib \<Rightarrow> Ctl_ops \<Rightarrow> Ctl_ops" where
  "with_serde lib ctl = ctl\<lparr>
     ser_register := (\<lambda>r. to_vec lib (RegisterRequest_ser r)),
     ser_map := (\<lambda>r. to_vec lib (MapRequest_ser r)),
     de_register := from_slice lib RegisterResponse_de,
     de_map := from_slice lib MapResponse_de \<rparr>"

lemma with_serde_simps [simp]:
  "ser_register (with_serde lib ctl) r = to_vec lib (RegisterRequest_ser r)"
  "ser_map (with_serde lib ctl) m = to_vec lib (MapRequest_ser m)"
  "de_register (with_serde lib ctl) = from_slice lib RegisterResponse_de"
  "de_map (with_serde lib ctl) = from_slice lib MapResponse_de"
  "hostinfo (with_serde lib ctl) = hostinfo ctl"
  "node_key_hex (with_serde lib ctl) c = node_key_hex ctl c"
  "x25519_base (with_serde lib ctl) = x25519_base ctl"
  "zstd_decode_all (with_serde lib ctl) = zstd_decode_all ctl"
  by (simp_all add: with_serde_def hostinfo_def gethostname_def node_key_hex_def)

section \<open>Updates that do not decode\<close>

lemma parse_map_response_frame_json:
  assumes "frame_message payload = (Inr f :: (('i, 'e) ControlError, bytes) result)"
    and "decode_map_payload ctl payload = (Inr doc :: (('i, 'e) ControlError, bytes) result)"
  shows "parse_map_response (with_serde lib ctl) (f @ trailing)
    = (map_err Json (from_slice lib MapResponse_de doc) :: (('i, 'e) ControlError, MapResponse) result)"
proof -
  have "decode_map_payload (with_serde lib ctl) payload = (Inr doc :: (('i, 'e) ControlError, bytes) result)"
    using assms(2) by (simp only: decode_map_payload_def with_serde_simps)
  then show ?thesis
    by (simp add: parse_map_response_frame [OF assms(1)])
qed

lemma recv_map_update_rejected:
  assumes "recv_message sn ops st = (Some (Inr raw, st') :: ((('i, 'e) WireError, bytes) result \<times> _) option)"
    and "parse_map_response ctl raw = (Inl e :: (('i, 'e) ControlError, MapResponse) result)"
  shows "recv_map_update ctl sn ops (c, st) = Some (Inl e, (c, st'))"
  using assms by (simp add: recv_map_update_def map_err_io_Inr)

section \<open>The server key document\<close>

text \<open>The key response is read as an untyped \<open>Value\<close>; of a repeated key the last entry counts.\<close>

lemma json_get_value:
  "json_get k (value_of (JObject es)) = map_option value_of (map_of (rev es) k)"
  by (simp add: json_get_def map_of_btree_of rev_map map_of_map id_def map_prod_def)

section \<open>Registration documents\<close>

lemma RegisterResponse_de_object:
  assumes "RegisterResponse_de (JObject es) = Inr r"
  obtains m where "m = rev (declared RegisterResponse_fields es)" "distinct (map fst m)"
    "optional m ''AuthURL'' de_string = Inr (auth_url r)"
    "defaulted m ''MachineAuthorized'' False de_bool = Inr (machine_authorized r)"
    "defaulted m ''NodeKeyExpired'' False de_bool = Inr (node_key_expired r)"
    "optional m ''Error'' de_string = Inr (reg_error r)"
  using assms
  by (auto simp: RegisterResponse_de_def bind_r_Inr_iff visit_struct_object_iff rev_map [symmetric])

lemma declared_lookup:
  assumes "m = rev (declared fs es)" and "distinct (map fst m)" and "k \<in> names_of fs"
  shows "map_of m k = Some v \<longleftrightarrow> (k, v) \<in> set es"
  using assms by (auto simp: declared_def)

text \<open>What a decoded flag or text says of the member it came from.\<close>

lemma defaulted_bool_True:
  "defaulted m k False de_bool = Inr b \<Longrightarrow> b \<longleftrightarrow> map_of m k = Some (JBool True)"
  by (auto simp: defaulted_def de_bool_def split: option.splits json.splits)

lemma optional_text_unset:
  "optional m k de_string = Inr v \<Longrightarrow> unset v \<Longrightarrow> map_of m k = Some (JString t) \<Longrightarrow> t = []"
  by (auto simp: optional_def de_option_def de_string_def unset_def)

section \<open>A sample library and session\<close>

definition null_addresses_doc :: json where
  "null_addresses_doc =
     JObject [(''Peers'', JArray [JObject (sample_entries @ [(''Addresses'', JNull)])])]"

text \<open>A library for which every text is the given document.\<close>

definition sample_lib :: "json \<Rightarrow> Json_lib" where
  "sample_lib j = \<lparr> to_vec = (\<lambda>_. Inr [0]), parse_text = (\<lambda>_. Inr j), error_text = (\<lambda>_ _. ''data'') \<rparr>"

section \<open>Properties\<close>

text \<open>
  Claim C18. A map frame in which one peer does not decode is consumed, reported as a JSON error and
  leaves the client as it was: the network map keeps its last state and no other peer of the
  frame is taken over. The peer may stand anywhere in \<^verbatim>\<open>Peers\<close> or in \<^verbatim>\<open>PeersChanged\<close> of the document (a JSON
  object), and the frame may hold the document as it is or compressed with zstd, and be followed by
  other bytes of its message.
\<close>

theorem undecodable_update_rejected:
  assumes "recv_message sn ops st = (Some (Inr (f @ trailing), st') :: ((('i, 'e) WireError, bytes) result \<times> _) option)"
    and "frame_message payload = (Inr f :: (('i, 'e) ControlError, bytes) result)"
    and "decode_map_payload ctl payload = (Inr doc :: (('i, 'e) ControlError, bytes) result)"
    and "parse_text lib doc = Inr (JObject rs)"
    and "(k, JArray ps) \<in> set rs" and "k \<in> {''Peers'', ''PeersChanged''}" and "p \<in> set ps" and "Node_de p = Inl e0"
  shows "\<exists>m. recv_map_update (with_serde lib ctl) sn ops (c, st)
           = (Some (Inl (Json m), (c, st')) :: ((('i, 'e) ControlError, bool) result \<times> _) option)"
proof -
  obtain e where "MapResponse_de (JObject rs) = Inl e"
    using MapResponse_de_bad_peer [OF assms(8,7,5,6)] by blast
  then have "from_slice lib MapResponse_de doc = Inl (error_text lib doc e)"
    by (simp add: from_slice_def assms(4))
  then have "parse_map_response (with_serde lib ctl) (f @ trailing)
      = (Inl (Json (error_text lib doc e)) :: (('i, 'e) ControlError, MapResponse) result)"
    by (simp add: parse_map_response_frame_json [OF assms(2,3)])
  from recv_map_update_rejected [OF assms(1) this] show ?thesis
    by blast
qed

theorem undecodable_update_rejected_witness:
  "\<exists>m. recv_map_update (with_serde (sample_lib null_addresses_doc) sample_ctl) mock_snow script_ops
          (sample_client, sample_map_stream)
        = (Some (Inl (Json m), (sample_client, sample_map_stream_after))
           :: (((unit, unit) ControlError, bool) result \<times> nat ControlClient \<times> (bytes list, nat) AsyncControlStream) option)"
proof -
  let ?p = "JObject (sample_entries @ [(''Addresses'', JNull)])"
  obtain e where e: "Node_de ?p = Inl e"
    using Node_de_null_addresses by blast
  have f: "frame_message [0x7b] = (Inr [1, 0, 0, 0, 0x7b] :: ((unit, unit) ControlError, bytes) result)"
    by (simp add: frame_message_def frame_len_def u32_try_from_def u32_to_le_bytes_def)
  have r: "recv_message mock_snow script_ops sample_map_stream
      = (Some (Inr ([1, 0, 0, 0, 0x7b] @ []), sample_map_stream_after) :: (((unit, unit) WireError, bytes) result \<times> _) option)"
    using sample_recv by simp
  show ?thesis
    by (rule undecodable_update_rejected [OF r f _ _ _ _ _ e, where ps = "[?p]" and k = "''Peers''"
          and rs = "[(''Peers'', JArray [?p])]" and doc = "[0x7b]"])
       (simp_all add: decode_map_payload_def is_zstd_frame_def get_to_def sample_lib_def null_addresses_doc_def)
qed

text \<open>
  Claim C36. A registration counts as authorized only when the server's document says so: it has a
  \<^verbatim>\<open>MachineAuthorized\<close> entry that is true, no \<^verbatim>\<open>NodeKeyExpired\<close> entry that is true, and no error
  or login address other than the empty text.
\<close>

theorem authorized_document:
  assumes "RegisterResponse_de (JObject es) = Inr r"
    and "classify_register_response r = Authorized r'"
  shows "(''MachineAuthorized'', JBool True) \<in> set es \<and> (''NodeKeyExpired'', JBool True) \<notin> set es
    \<and> ((''Error'', JString e) \<in> set es \<longrightarrow> e = []) \<and> ((''AuthURL'', JString u) \<in> set es \<longrightarrow> u = [])"
proof -
  obtain m where m: "m = rev (declared RegisterResponse_fields es)" "distinct (map fst m)"
    and f: "optional m ''AuthURL'' de_string = Inr (auth_url r)"
      "defaulted m ''MachineAuthorized'' False de_bool = Inr (machine_authorized r)"
      "defaulted m ''NodeKeyExpired'' False de_bool = Inr (node_key_expired r)"
      "optional m ''Error'' de_string = Inr (reg_error r)"
    using assms(1) by (rule RegisterResponse_de_object)
  note found = declared_lookup [OF m]
  have a: "machine_authorized r" "\<not> node_key_expired r" "unset (reg_error r)" "unset (auth_url r)"
    using assms(2) by (auto simp: authorized_iff)
  have keys: "{''AuthURL'', ''MachineAuthorized'', ''NodeKeyExpired'', ''Error''} \<subseteq> names_of RegisterResponse_fields"
    by (simp add: RegisterResponse_fields_def)
  show ?thesis
    using defaulted_bool_True [OF f(2)] defaulted_bool_True [OF f(3)] optional_text_unset [OF f(1) a(4)]
      optional_text_unset [OF f(4) a(3)] a(1,2) keys by (simp add: found)
qed

theorem authorized_document_witness:
  "\<exists>r. RegisterResponse_de (JObject [(''MachineAuthorized'', JBool True), (''AuthURL'', JString [])]) = Inr r
     \<and> classify_register_response r = Authorized r"
proof -
  let ?es = "[(''MachineAuthorized'', JBool True), (''AuthURL'', JString [])]"
  let ?r = "\<lparr> auth_url = Some [], machine_authorized = True, node_key_expired = False, reg_error = None \<rparr>"
  have d: "RegisterResponse_de (JObject ?es) = Inr ?r"
    by (simp add: RegisterResponse_de_def RegisterResponse_fields_def visit_struct_def decode_error_def
        defaulted_def optional_def de_option_def de_bool_def de_string_def)
  have c: "classify_register_response ?r = Authorized ?r"
    by (simp add: classify_cases unset_def)
  from authorized_document [OF d c] d c show ?thesis
    by blast
qed

end
