(* ===== verification/Connect_Example.thy ===== *)
theory Connect_Example
  imports Control_Json
begin

text \<open>
  The example client \<^verbatim>\<open>crates/dictyon/examples/connect.rs\<close>: it reads a pre-auth key from the
  environment, connects, registers (polling once when a login is required) and streams map
  updates until an error ends the stream. Its log output is its observable behaviour and is part
  of the state. The placeholder connection pairs the initiator with a responder of the
  \<^verbatim>\<open>snow\<close> library, whose builder and errors extend the record of the library's functions.
\<close>

section \<open>Errors, parameters and effects\<close>

datatype ('i, 'e) ExampleError =
    ExWire "('i, 'e) WireError"
  | ExNoise "'e NoiseError"
  | ExControl "('i, 'e) ControlError"
  | ExTransport "'e TransportError"
  | PlaceholderHandshake string

text \<open>\<open>'b\<close> is \<^verbatim>\<open>snow::Builder\<close> for parsed parameters; each step of the builder may fail.\<close>

record ('h, 't, 'e, 'b) Snow_builder = "('h, 't, 'e) Snow_lib" +
  snow_params :: "string \<Rightarrow> ('e, 'b) result"
  snow_local_private_key :: "'b \<Rightarrow> bytes \<Rightarrow> ('e, 'b) result"
  snow_prologue :: "'b \<Rightarrow> bytes \<Rightarrow> ('e, 'b) result"
  snow_build_responder :: "'b \<Rightarrow> ('e, 'h) result"

text \<open>\<^verbatim>\<open>std::env::var\<close>: \<open>NotUnicode\<close> carries the debug text of the raw value.\<close>

datatype env_var = Present string | NotPresent | NotUnicode string

type_synonym ('s, 'u) log_state = "('s, 'u) AsyncControlStream \<times> LogLine list"

definition tell :: "LogLine \<Rightarrow> ('e, unit, 'x \<times> LogLine list) io" where
  "tell l = (\<lambda>(x, log). Some (Inr (), (x, log @ [l])))"

definition on_fst :: "('e, 'a, 'x) io \<Rightarrow> ('e, 'a, 'x \<times> LogLine list) io" where
  "on_fst m = (\<lambda>(x, log). map_option (\<lambda>(r, x'). (r, (x', log))) (m x))"

text \<open>The horizontal ellipsis in UTF-8.\<close>

definition ellipsis :: string where
  "ellipsis = [CHR 0xE2, CHR 0x80, CHR 0xA6]"

definition CONTROL_URL :: string where
  "CONTROL_URL = ''https://controlplane.tailscale.com''"

section \<open>The placeholder connection\<close>

definition from_snow :: "('h, 't, 'e, 'b, 'x) Snow_builder_scheme \<Rightarrow> string \<Rightarrow> ('e, 'a) result
     \<Rightarrow> (('i, 'e) ExampleError, 'a) result" where
  "from_snow sn stage r =
     map_err (\<lambda>e. PlaceholderHandshake (''snow library failure during '' @ stage @ '': ''
                     @ snow_display sn e)) r"

definition build_responder ::
  "('h, 't, 'e, 'b, 'x) Snow_builder_scheme \<Rightarrow> MachinePrivate \<Rightarrow> (('i, 'e) ExampleError, 'h) result" where
  "build_responder sn server_key =
     bind_r (map_err (\<lambda>e. PlaceholderHandshake (''parse noise params: '' @ snow_display sn e))
               (snow_params sn ''Noise_IK_25519_ChaChaPoly_BLAKE2s'')) (\<lambda>params.
     let prologue = as_bytes (''Tailscale Control Protocol v'' @ version_fmt CAPABILITY_VERSION) in
     bind_r (from_snow sn ''local_private_key''
               (snow_local_private_key sn params (machine_private_bytes server_key))) (\<lambda>b1.
     bind_r (from_snow sn ''prologue'' (snow_prologue sn b1 prologue)) (\<lambda>b2.
     from_snow sn ''build_responder'' (snow_build_responder sn b2))))"

text \<open>The Noise message inside an initiation frame.\<close>

definition init_payload :: "bytes \<Rightarrow> (('i, 'e) ExampleError, bytes) result" where
  "init_payload init_msg =
     bind_r (ok_or (if 3 < length init_msg then Some (init_msg ! 3) else None)
               (PlaceholderHandshake ''init_msg too short for length hi byte'')) (\<lambda>len_hi.
     bind_r (ok_or (if 4 < length init_msg then Some (init_msg ! 4) else None)
               (PlaceholderHandshake ''init_msg too short for length lo byte'')) (\<lambda>len_lo.
     let payload_len = unat (u16_from_be_bytes len_hi len_lo) in
     ok_or (get_range init_msg 5 (5 + payload_len))
       (PlaceholderHandshake ''init_msg truncated before noise payload'')))"

text \<open>The response frame of the responder: its message sits at the front of a 256-byte buffer.\<close>

definition framed_response :: "bytes \<Rightarrow> (('i, 'e) ExampleError, bytes) result" where
  "framed_response written =
     (let resp_buf = buffer_fill 256 written; resp_len = length written in
      bind_r (ok_or (u16_try_from resp_len) (PlaceholderHandshake ''resp_len exceeds u16'')) (\<lambda>len_u16.
      bind_r (ok_or (get_to resp_buf resp_len) (PlaceholderHandshake ''resp_buf truncated'')) (\<lambda>resp_slice.
      Inr ([0x02] @ u16_to_be_bytes len_u16 @ resp_slice))))"

definition build_placeholder_connection ::
  "('h, 't, 'e, 'b, 'x) Snow_builder_scheme \<Rightarrow> (bytes \<Rightarrow> bytes) \<Rightarrow> 'g Key_rand \<Rightarrow> 'g
     \<Rightarrow> (('i, 'e) ExampleError, 't ControlConnection) result \<times> 'g" where
  "build_placeholder_connection sn base_mult rnd g =
     (let (client_key, g1) = MachinePrivate_generate rnd g;
          (server_key, g2) = MachinePrivate_generate rnd g1;
          server_pub = MachinePrivate_public_key base_mult server_key;
          (init, handshake) = initiation_message sn (NoiseHandshake_new client_key server_pub) in
      (bind_r (map_err ExNoise init) (\<lambda>init_msg.
       bind_r (build_responder sn server_key) (\<lambda>responder.
       bind_r (init_payload init_msg) (\<lambda>noise_init.
       let (read, responder1) = snow_hs_read sn responder noise_init 256 in
       bind_r (from_snow sn ''responder read_message'' read) (\<lambda>_.
       let (write, responder2) = snow_hs_write sn responder1 [] 256 in
       bind_r (from_snow sn ''responder write_message'' write) (\<lambda>written.
       bind_r (framed_response written) (\<lambda>framed_resp.
       map_err ExTransport (complete_handshake sn handshake framed_resp))))))), g2))"

section \<open>Registration\<close>

fun report_register_outcome :: "RegisterOutcome \<Rightarrow> LogLine" where
  "report_register_outcome (Authorized resp) =
     LogLine Info [(''authorized'', if machine_authorized resp then ''true'' else ''false'')] ''node authorized''"
| "report_register_outcome (NeedsAuth url) = info (''visit to authorize: '' @ url_str url)"
| "report_register_outcome RotateNodeKey =
     warn ''server reports the node key has expired; a fresh key is required''"
| "report_register_outcome (Rejected reason) =
     LogLine Warn [(''reason'', reason)] ''server rejected the registration request''"
| "report_register_outcome (Contradictory fault) =
     LogLine Warn [(''fault'', fault_debug fault)] ''server sent a response the protocol does not allow''"

definition register_node ::
  "Ctl_ops \<Rightarrow> ('h, 'u, 'e, 'y) Snow_lib_scheme \<Rightarrow> ('s, 'i, 'x) Stream_ops_scheme \<Rightarrow> 't ControlClient
     \<Rightarrow> string option \<Rightarrow> (('i, 'e) ExampleError, unit, ('s, 'u) log_state) io" where
  "register_node ctl sn ops client key =
     bind_io (tell (info (''registering'' @ ellipsis))) (\<lambda>_.
     bind_io (on_fst (map_err_io ExControl (register ctl sn ops client key))) (\<lambda>outcome.
     case outcome of
       NeedsAuth url \<Rightarrow>
         bind_io (tell (info (''visit to authorize: '' @ url_str url))) (\<lambda>_.
         bind_io (on_fst (map_err_io ExControl (poll_registration ctl sn ops client (url_str url)))) (\<lambda>followup.
         tell (report_register_outcome followup)))
     | _ \<Rightarrow> tell (report_register_outcome outcome)))"

section \<open>The map stream\<close>

definition update_lines :: "bool \<Rightarrow> 't ControlClient \<Rightarrow> LogLine list" where
  "update_lines is_keepalive client =
     (if is_keepalive then [info ''keepalive'']
      else LogLine Info [(''peer_count'', show_nat (length (client_peers client)))] ''map update''
           # map (\<lambda>p. LogLine Info [(''key'', node_key p), (''name'', node_name p)] ''  peer'')
               (client_peers client))"

partial_function (option) stream_map_loop ::
  "Ctl_ops \<Rightarrow> ('h, 'u, 'e, 'y) Snow_lib_scheme \<Rightarrow> ('s, 'i, 'x) Stream_ops_scheme
     \<Rightarrow> ('t ControlClient \<times> ('s, 'u) AsyncControlStream) \<times> LogLine list
     \<Rightarrow> ((('i, 'e) ExampleError, unit) result
           \<times> ('t ControlClient \<times> ('s, 'u) AsyncControlStream) \<times> LogLine list) option" where
  "stream_map_loop ctl sn ops s =
     (case recv_map_update ctl sn ops (fst s) of
        None \<Rightarrow> None
      | Some (Inl e, cs) \<Rightarrow> Some (Inl (ExControl e), (cs, snd s))
      | Some (Inr is_keepalive, cs) \<Rightarrow>
          stream_map_loop ctl sn ops (cs, snd s @ update_lines is_keepalive (fst cs)))"

definition stream_map ::
  "Ctl_ops \<Rightarrow> ('h, 'u, 'e, 'y) Snow_lib_scheme \<Rightarrow> ('s, 'i, 'x) Stream_ops_scheme
     \<Rightarrow> (('i, 'e) ExampleError, unit, ('t ControlClient \<times> ('s, 'u) AsyncControlStream) \<times> LogLine list) io" where
  "stream_map ctl sn ops = (\<lambda>((client, stream), log).
     let log1 = log @ [info (''starting map stream'' @ ellipsis)] in
     case start_map_stream ctl sn ops client stream of
       None \<Rightarrow> None
     | Some (Inl e, stream') \<Rightarrow> Some (Inl (ExControl e), ((client, stream'), log1))
     | Some (Inr _, stream') \<Rightarrow> stream_map_loop ctl sn ops ((client, stream'), log1))"

section \<open>The run\<close>

definition read_auth_key :: "env_var \<Rightarrow> string option \<times> LogLine list" where
  "read_auth_key var =
     (case var of
        Present value \<Rightarrow> (Some value, [])
      | NotPresent \<Rightarrow> (None, [warn ''TS_AUTHKEY not set - server will require interactive auth''])
      | NotUnicode raw \<Rightarrow>
          (None, [warn (''TS_AUTHKEY unreadable (environment variable was not valid unicode: '' @ raw
                    @ ''); treating as absent'')]))"

text \<open>The result and the log; \<open>None\<close> is a run that never ends.\<close>

definition example_run ::
  "Ctl_ops \<Rightarrow> ('h, 't, 'e, 'b, 'y) Snow_builder_scheme \<Rightarrow> ('tcp, 'n, 'tls, 's, 'i, 'x) Net_ops_scheme
     \<Rightarrow> 'g Key_rand \<Rightarrow> env_var \<Rightarrow> 'g
     \<Rightarrow> ((('i, 'e) ExampleError, unit) result \<times> LogLine list) option" where
  "example_run ctl sn net rnd var g =
     (let (auth, log0) = read_auth_key var;
          (machine_key, g1) = MachinePrivate_generate rnd g;
          (nk, g2) = NodePrivate_generate rnd g1;
          (dk, g3) = DiscoPrivate_generate rnd g2;
          log1 = log0 @ [info (''connecting to '' @ CONTROL_URL)];
          config = ControlConfig_new CONTROL_URL
                     (MachinePrivate_from_bytes (machine_private_bytes machine_key)) in
      case connect sn net config of
        None \<Rightarrow> None
      | Some (Inl e) \<Rightarrow> Some (Inl (ExWire e), log1)
      | Some (Inr stream) \<Rightarrow>
          (let log2 = log1 @ [info ''TLS + Noise handshake complete''];
               client_machine = MachinePrivate_from_bytes (machine_private_bytes machine_key) in
           case fst (build_placeholder_connection sn (x25519_base ctl) rnd g3) of
             Inl e \<Rightarrow> Some (Inl e, log2)
           | Inr conn \<Rightarrow>
               (let client = ControlClient_new conn client_machine nk dk in
                case register_node ctl sn (net_stream net) client auth (stream, log2) of
                  None \<Rightarrow> None
                | Some (Inl e, (_, log3)) \<Rightarrow> Some (Inl e, log3)
                | Some (Inr _, (stream', log3)) \<Rightarrow>
                    map_option (\<lambda>(r, (_, log4)). (r, log4))
                      (stream_map ctl sn (net_stream net) ((client, stream'), log3)))))"

section \<open>Receiving makes progress\<close>

context reliable_stream
begin

lemma recv_message_takes:
  assumes "recv_message sn ops a = Some (Inr raw :: (('i, 'e) WireError, bytes) result, a')"
  shows "length (acs_avail content a') + 3 \<le> length (acs_avail content a)"
proof -
  obtain h a1 ct a2 where h: "fill_exact ops 3 a = Some (Inr h :: (('i, 'e) WireError, bytes) result, a1)"
    and ct: "fill_exact ops (unat (u16_from_be_bytes (h ! 1) (h ! 2))) a1
           = Some (Inr ct :: (('i, 'e) WireError, bytes) result, a2)"
    and "open_frame sn ct a2 = Some (Inr raw :: (('i, 'e) WireError, bytes) result, a')"
    using assms unfolding recv_message_def Let_def bind_io_Inr_iff
    by (auto simp: bind_io_Inr_iff split: if_splits)
  then have "acs_avail content a' = acs_avail content a2"
    by (auto simp: open_frame_def acs_avail_def split: prod.splits)
  with fill_exact_takes [OF h] fill_exact_takes [OF ct] show ?thesis
    by simp
qed

end

text \<open>The connection does not stall: every exact read and every write completes, if only with an
  error once the peer has closed.\<close>

definition completes :: "('s, 'i, 'x) Stream_ops_scheme \<Rightarrow> bool" where
  "completes ops \<longleftrightarrow>
     (\<forall>n s. stream_read_exact ops n s \<noteq> None) \<and> (\<forall>bs s. stream_write_all ops bs s \<noteq> None)"

lemma script_completes: "completes script_ops"
  by (auto simp: completes_def script_ops_def script_read_exact_def)

lemma fill_exact_completes: "completes ops \<Longrightarrow> fill_exact ops n a \<noteq> None"
  by (auto simp: completes_def fill_exact_def Let_def simp del: not_None_eq
      split: prod.splits option.splits sum.splits)

lemma bind_io_completes:
  "m s \<noteq> None \<Longrightarrow> (\<And>x s'. f x s' \<noteq> None) \<Longrightarrow> bind_io m f s \<noteq> None"
  by (auto simp: bind_io_def split: option.splits sum.splits)

lemma open_frame_completes: "open_frame sn ct s \<noteq> None"
  by (simp add: open_frame_def split: prod.split)

lemma recv_message_completes: "completes ops \<Longrightarrow> recv_message sn ops a \<noteq> None"
  unfolding recv_message_def Let_def
  by (intro bind_io_completes fill_exact_completes)
     (simp_all add: bind_io_completes fill_exact_completes open_frame_completes del: not_None_eq)

lemma send_message_completes: "completes ops \<Longrightarrow> send_message sn ops bs a \<noteq> None"
  by (auto simp: completes_def send_message_def simp del: not_None_eq
      split: prod.splits option.splits sum.splits)

lemma map_err_io_completes: "m s \<noteq> None \<Longrightarrow> map_err_io g m s \<noteq> None"
  by (simp add: map_err_io_def)

lemma lift_io_completes: "lift_io r s \<noteq> None"
  by simp

lemmas io_completes = bind_io_completes map_err_io_completes lift_io_completes
  send_message_completes recv_message_completes

lemma exchange_completes: "completes ops \<Longrightarrow> exchange_registration ctl sn ops rq st \<noteq> None"
  unfolding exchange_registration_def by (intro io_completes) simp_all

lemma start_map_stream_completes: "completes ops \<Longrightarrow> start_map_stream ctl sn ops c st \<noteq> None"
  unfolding start_map_stream_def by (intro io_completes)

lemma recv_map_update_completes: "completes ops \<Longrightarrow> recv_map_update ctl sn ops cs \<noteq> None"
  using recv_message_completes [of ops sn "snd cs"]
  by (auto simp: recv_map_update_def map_err_io_def Let_def split: prod.splits sum.splits option.splits)

section \<open>The life of the map stream\<close>

lemma recv_map_update_Inr:
  assumes "recv_map_update ctl sn ops (c, st)
    = (Some (Inr k, cs) :: ((('i, 'e) ControlError, bool) result \<times> _) option)"
  obtains raw st1 resp where
    "recv_message sn ops st = (Some (Inr raw, st1) :: ((('i, 'e) WireError, bytes) result \<times> _) option)"
    "parse_map_response ctl raw = (Inr resp :: (('i, 'e) ControlError, MapResponse) result)"
    "k = (keep_alive resp = Some True)" "cs = (apply_map_response resp c, st1)"
proof -
  obtain r st1 where r: "recv_message sn ops st = (Some (r, st1) :: ((('i, 'e) WireError, bytes) result \<times> _) option)"
    using assms by (cases "recv_message sn ops st :: ((('i, 'e) WireError, bytes) result \<times> _) option")
      (auto simp: recv_map_update_def map_err_io_def)
  then obtain raw where raw: "r = Inr raw"
    using assms by (cases r) (auto simp: recv_map_update_def map_err_io_def)
  obtain resp where "parse_map_response ctl raw = (Inr resp :: (('i, 'e) ControlError, MapResponse) result)"
    using assms r raw
    by (cases "parse_map_response ctl raw :: (('i, 'e) ControlError, MapResponse) result")
      (auto simp: recv_map_update_def map_err_io_def)
  with assms r raw show thesis
    by (intro that [of raw st1 resp]) (auto simp: recv_map_update_def map_err_io_def Let_def)
qed

lemma client_run_trans:
  assumes "client_run ctl sn ops s2 rs' s3" and "client_run ctl sn ops s1 rs s2"
  shows "client_run ctl sn ops s1 (rs @ rs') s3"
  using assms
proof (induction rule: client_run.induct)
  case (run_update s rs' c st raw st1 resp keepalive c' st')
  then show ?case
    using client_run.run_update [of ctl sn ops s1 "rs @ rs'"] by simp
qed (auto intro: client_run.intros)

text \<open>What the loop logs for a sequence of accepted responses.\<close>

primrec reports :: "'t ControlClient \<Rightarrow> MapResponse list \<Rightarrow> LogLine list" where
  "reports c [] = []"
| "reports c (r # rs) =
     update_lines (keep_alive r = Some True) (apply_map_response r c) @ reports (apply_map_response r c) rs"

lemma stream_map_loop_run:
  fixes ops :: "('s, 'i, 'x) Stream_ops_scheme" and sn :: "('h, 'u, 'e, 'y) Snow_lib_scheme"
  assumes "stream_map_loop ctl sn ops s = Some y"
  shows "\<exists>e rs. fst y = Inl e \<and> client_run ctl sn ops (fst s) rs (fst (snd y))
    \<and> snd (snd y) = snd s @ reports (fst (fst s)) rs"
  using assms
proof (induction rule: stream_map_loop.raw_induct [rotated, consumes 1, case_names step])
  case (step loop ctl sn ops s y)
  obtain c st log where s: "s = ((c, st), log)"
    by (metis prod.collapse)
  from step(2) obtain u cs where u: "recv_map_update ctl sn ops (c, st) = Some (u, cs)"
    by (cases "recv_map_update ctl sn ops (c, st)") (auto simp: s)
  show ?case
  proof (cases u)
    case (Inl e)
    with step(2) u have y: "y = (Inl (ExControl e), (cs, log))"
      by (simp add: s)
    from client_run.run_update_failed [OF client_run.run_start, of ctl sn ops c st e "fst cs" "snd cs"] u Inl
    have "client_run ctl sn ops (c, st) [] cs"
      by simp
    then show ?thesis
      by (intro exI [of _ "ExControl e"] exI [of _ "[]"]) (simp add: s y)
  next
    case (Inr k)
    with u have "recv_map_update ctl sn ops (c, st) = Some (Inr k, cs)"
      by simp
    then obtain raw st1 resp where
      r: "recv_message sn ops st = (Some (Inr raw, st1) :: ((('i, 'e) WireError, bytes) result \<times> _) option)"
        "parse_map_response ctl raw = (Inr resp :: (('i, 'e) ControlError, MapResponse) result)"
        "k = (keep_alive resp = Some True)" "cs = (apply_map_response resp c, st1)"
      by (rule recv_map_update_Inr)
    have one: "client_run ctl sn ops (c, st) [resp] cs"
      using client_run.run_update [OF client_run.run_start r(1,2), of c k "fst cs" "snd cs"] u Inr
      by simp
    have "loop ctl sn ops (cs, log @ update_lines k (fst cs)) = Some y"
      using step(2) u Inr by (simp add: s)
    from step(1) [OF this] obtain e rs where "fst y = Inl e"
      and run: "client_run ctl sn ops cs rs (fst (snd y))"
      and "snd (snd y) = log @ update_lines k (fst cs) @ reports (fst cs) rs"
      by auto
    then show ?thesis
      using client_run_trans [OF run one]
      by (intro exI [of _ e] exI [of _ "resp # rs"]) (simp add: s r(3,4))
  qed
qed

context reliable_stream
begin

lemma stream_map_loop_ends:
  fixes sn :: "('h, 'u, 'e, 'y) Snow_lib_scheme"
  assumes "completes ops"
  shows "stream_map_loop ctl sn ops s \<noteq> None"
proof (induction "length (acs_avail content (snd (fst s)))" arbitrary: s rule: less_induct)
  case less
  obtain c st log where s: "s = ((c, st), log)"
    by (metis prod.collapse)
  obtain u cs where
    u: "recv_map_update ctl sn ops (c, st) = (Some (u, cs) :: ((('i, 'e) ControlError, bool) result \<times> _) option)"
    using recv_map_update_completes [OF assms, of ctl sn "(c, st)"] by (metis not_None_eq prod.collapse)
  show ?case
  proof (cases u)
    case (Inl e)
    with u show ?thesis
      by (subst stream_map_loop.simps) (simp add: s)
  next
    case (Inr k)
    with u have "recv_map_update ctl sn ops (c, st) = (Some (Inr k, cs) :: ((('i, 'e) ControlError, bool) result \<times> _) option)"
      by simp
    then obtain raw st1 where
      "recv_message sn ops st = (Some (Inr raw, st1) :: ((('i, 'e) WireError, bytes) result \<times> _) option)"
      "snd cs = st1"
      by (rule recv_map_update_Inr) auto
    from recv_message_takes [OF this(1)] this(2) less [of "(cs, log @ update_lines k (fst cs))"] u Inr
    show ?thesis
      by (subst stream_map_loop.simps) (simp add: s)
  qed
qed

end

section \<open>The placeholder handshake\<close>

text \<open>
  What the placeholder relies on of the library: an initiator for the public half of a key and a
  responder for its private half, with equal parameters and prologue, complete the two-message
  handshake in buffers of 256 bytes; \<open>t\<close> is the initiator's transport.
\<close>

definition ik_pair ::
  "('h, 't, 'e, 'b, 'x) Snow_builder_scheme \<Rightarrow> (bytes \<Rightarrow> bytes) \<Rightarrow> bytes \<Rightarrow> bytes \<Rightarrow> 't \<Rightarrow> bool" where
  "ik_pair sn base_mult ck sk t \<longleftrightarrow>
     (\<exists>hi hi1 hi2 m1 b0 b1 b2 hr hr1 hr2 m2 p1 p2.
        snow_initiator sn NOISE_PARAMS ck (base_mult sk) prologue = Inr hi
        \<and> snow_hs_write sn hi [] 256 = (Inr m1, hi1) \<and> length m1 \<le> 256
        \<and> snow_params sn NOISE_PARAMS = Inr b0 \<and> snow_local_private_key sn b0 sk = Inr b1
        \<and> snow_prologue sn b1 prologue = Inr b2 \<and> snow_build_responder sn b2 = Inr hr
        \<and> snow_hs_read sn hr m1 256 = (Inr p1, hr1)
        \<and> snow_hs_write sn hr1 [] 256 = (Inr m2, hr2) \<and> length m2 \<le> 256
        \<and> snow_hs_read sn hi1 m2 256 = (Inr p2, hi2) \<and> snow_into_transport sn hi2 = Inr t)"

lemma scratch_default: "unat (handshake_scratch_bytes NoiseConfig_default) = 256"
  by (simp add: NoiseConfig_default_def config_constants)

lemma init_payload_frame:
  assumes "length m < 65536"
  shows "init_payload (a # b # c # be16_enc (length m) @ m) = Inr m"
proof -
  obtain hi lo where e: "be16_enc (length m) = [hi, lo]"
    by (simp add: be16_enc_def u16_to_be_bytes_def)
  with be16_dec_enc [OF assms] have n: "unat (u16_from_be_bytes hi lo) = length m"
    by (simp add: be16_dec_def)
  have "get_range ([a, b, c, hi, lo] @ m) 5 (5 + length m) = Some m"
    by (rule get_range_append_exact) simp_all
  then show ?thesis
    by (simp add: init_payload_def e n nth_Cons')
qed

lemma framed_response_value:
  assumes "length m \<le> 256"
  shows "framed_response m = Inr (MSG_TYPE_RESPONSE # be16_enc (length m) @ m)"
proof -
  have "u16_try_from (length m) = Some (of_nat (length m))"
    using assms by (intro u16_try_from_length) simp
  moreover have "get_to (buffer_fill 256 m) (length m) = Some m"
    using assms by (simp add: buffer_fill_def)
  ultimately show ?thesis
    by (simp add: framed_response_def be16_enc_def MSG_TYPE_RESPONSE_def Let_def)
qed

lemma from_snow_Inr [simp]: "from_snow sn stage (Inr x) = Inr x"
  by (simp add: from_snow_def)

lemma build_responder_value:
  assumes "snow_params sn NOISE_PARAMS = Inr b0" and "snow_local_private_key sn b0 sk = Inr b1"
    and "snow_prologue sn b1 prologue = Inr b2" and "snow_build_responder sn b2 = Inr hr"
  shows "build_responder sn (MachinePrivate sk) = Inr hr"
  using assms by (simp add: build_responder_def NOISE_PARAMS_def prologue_def Let_def)

lemma placeholder_value:
  fixes sn :: "('h, 't, 'e, 'b, 'x) Snow_builder_scheme"
  assumes g: "rand_key rnd g = (ck, g1)" "rand_key rnd g1 = (sk, g2)"
    and pair: "ik_pair sn base_mult (static_secret rnd ck) (static_secret rnd sk) t"
  shows "build_placeholder_connection sn base_mult rnd g = (Inr \<lparr> conn_noise = NoiseTransport_from_snow t \<rparr>, g2)"
proof -
  from pair obtain hi hi1 hi2 m1 b0 b1 b2 hr hr1 hr2 m2 p1 p2 where
    i: "snow_initiator sn NOISE_PARAMS (static_secret rnd ck) (base_mult (static_secret rnd sk)) prologue = Inr hi"
      "snow_hs_write sn hi [] 256 = (Inr m1, hi1)" "length m1 \<le> 256"
    and b: "snow_params sn NOISE_PARAMS = Inr b0" "snow_local_private_key sn b0 (static_secret rnd sk) = Inr b1"
      "snow_prologue sn b1 prologue = Inr b2" "snow_build_responder sn b2 = Inr hr"
    and r: "snow_hs_read sn hr m1 256 = (Inr p1, hr1)" "snow_hs_write sn hr1 [] 256 = (Inr m2, hr2)" "length m2 \<le> 256"
    and e: "snow_hs_read sn hi1 m2 256 = (Inr p2, hi2)" "snow_into_transport sn hi2 = Inr t"
    unfolding ik_pair_def by blast
  define hs :: "'h NoiseHandshake" where "hs = NoiseHandshake_new (MachinePrivate (static_secret rnd ck))
    (MachinePublic (base_mult (static_secret rnd sk)))"
  obtain v0 v1 where v: "version_to_be_bytes CAPABILITY_VERSION = [v0, v1]"
    by (simp add: CAPABILITY_VERSION_def u16_to_be_bytes_def)
  have "initiation_message sn hs = (Inr ([v0, v1, MSG_TYPE_INITIATION] @ be16_enc (length m1) @ m1),
      hs\<lparr> hs_state := AwaitingResponse hi1 \<rparr>)"
    using i by (simp add: initiation_message_def hs_def NoiseHandshake_new_def
        NoiseHandshake_with_config_def scratch_default u16_try_from_length be16_enc_def v)
  moreover have "complete_handshake sn (hs\<lparr> hs_state := AwaitingResponse hi1 \<rparr>)
      (MSG_TYPE_RESPONSE # be16_enc (length m2) @ m2) = Inr \<lparr> conn_noise = NoiseTransport_from_snow t \<rparr>"
    using e r(3)
    by (simp add: response_payload_frame [where rest = "[]", simplified] complete_handshake_def process_response_def finish_handshake_def hs_def
        NoiseHandshake_new_def NoiseHandshake_with_config_def scratch_default NoiseTransport_from_snow_def)
  ultimately show ?thesis
    using i(3) r
    by (simp add: build_placeholder_connection_def MachinePrivate_generate_def g
        MachinePrivate_public_key_def hs_def [symmetric] build_responder_value [OF b]
        init_payload_frame framed_response_value)
qed

section \<open>The whole run\<close>

lemma tell_completes: "tell l s \<noteq> None"
  by (simp add: tell_def split: prod.split)

lemma on_fst_completes: "m (fst s) \<noteq> None \<Longrightarrow> on_fst m s \<noteq> None"
  by (cases s) (simp add: on_fst_def)

lemma register_node_completes: "completes ops \<Longrightarrow> register_node ctl sn ops c key s \<noteq> None"
proof -
  assume c: "completes ops"
  have r: "on_fst (map_err_io ExControl (register ctl sn ops c key)) s \<noteq> None" for s key
    unfolding register_def by (intro on_fst_completes map_err_io_completes exchange_completes c)
  have p: "on_fst (map_err_io ExControl (poll_registration ctl sn ops c url)) s \<noteq> None" for s url
    unfolding poll_registration_def by (intro on_fst_completes map_err_io_completes exchange_completes c)
  show ?thesis
    unfolding register_node_def
    by (intro bind_io_completes tell_completes r)
       (simp add: bind_io_completes tell_completes p del: not_None_eq split: RegisterOutcome.split)
qed

lemma stream_map_ends:
  fixes ops :: "('s, 'i, 'x) Stream_ops_scheme"
  assumes "reliable ops content" and "completes ops"
  shows "stream_map ctl sn ops s \<noteq> None"
proof -
  obtain c st log where s: "s = ((c, st), log)"
    by (metis prod.collapse)
  have "reliable_stream ops content"
    using assms(1) by (rule reliable_stream.intro)
  then have loop: "stream_map_loop ctl sn ops s' \<noteq> None" for s'
    by (rule reliable_stream.stream_map_loop_ends [OF _ assms(2)])
  have "start_map_stream ctl sn ops c st \<noteq> None"
    by (rule start_map_stream_completes [OF assms(2)])
  then show ?thesis
    by (simp add: s stream_map_def Let_def loop del: not_None_eq split: option.split sum.split)
qed

lemma stream_map_run:
  assumes "stream_map ctl sn ops ((c, st), log) = Some (r, s')"
  shows "\<exists>e rs. r = Inl e \<and> client_run ctl sn ops (c, st) rs (fst s')
    \<and> snd s' = log @ [info (''starting map stream'' @ ellipsis)] @ reports c rs"
proof -
  obtain q st1 where q: "start_map_stream ctl sn ops c st = Some (q, st1)"
    using assms by (cases "start_map_stream ctl sn ops c st") (auto simp: stream_map_def Let_def)
  note start = client_run.run_start_map [OF client_run.run_start q]
  show ?thesis
  proof (cases q)
    case (Inl e)
    with assms q start show ?thesis
      by (intro exI [of _ "ExControl e"] exI [of _ "[]"]) (auto simp: stream_map_def Let_def)
  next
    case (Inr u)
    with assms q have "stream_map_loop ctl sn ops ((c, st1), log @ [info (''starting map stream'' @ ellipsis)])
        = Some (r, s')"
      by (simp add: stream_map_def Let_def)
    from stream_map_loop_run [OF this] obtain e rs where "r = Inl e"
      and run: "client_run ctl sn ops (c, st1) rs (fst s')"
      and "snd s' = (log @ [info (''starting map stream'' @ ellipsis)]) @ reports c rs"
      by auto
    with client_run_trans [OF run start] show ?thesis
      by (intro exI [of _ e] exI [of _ rs]) simp
  qed
qed

lemma example_run_Inl: "example_run ctl sn net rnd var g = Some (r, log) \<Longrightarrow> \<exists>e. r = Inl e"
  by (auto simp: example_run_def Let_def split: prod.splits option.splits sum.splits dest!: stream_map_run)

section \<open>A sample library and network\<close>

definition mock_builder :: "(unit, nat, unit, unit) Snow_builder" where
  "mock_builder = Snow_lib.extend mock_snow
     (Snow_builder.fields (\<lambda>_. Inr ()) (\<lambda>_ _. Inr ()) (\<lambda>_ _. Inr ()) (\<lambda>_. Inr ()))"

lemma mock_builder_simps [simp]:
  "snow_initiator mock_builder = snow_initiator mock_snow"
  "snow_hs_write mock_builder = snow_hs_write mock_snow"
  "snow_hs_read mock_builder = snow_hs_read mock_snow"
  "snow_into_transport mock_builder = snow_into_transport mock_snow"
  "snow_params mock_builder p = Inr ()" "snow_local_private_key mock_builder b k = Inr ()"
  "snow_prologue mock_builder b k = Inr ()" "snow_build_responder mock_builder b = Inr ()"
  by (simp_all add: mock_builder_def Snow_lib.defs Snow_builder.defs)

definition counting_rand :: "nat Key_rand" where
  "counting_rand = \<lparr> rand_key = (\<lambda>g. (replicate 32 (of_nat g), Suc g)), static_secret = id \<rparr>"

lemma mock_ik_pair: "ik_pair mock_builder base_mult ck sk 0"
  by (auto simp: ik_pair_def) (auto simp: mock_snow_def)

section \<open>Properties\<close>

text \<open>
  Claim C12. The example always ends, and always with an error: when the connect timer fires and
  the established stream completes its operations and delivers finitely many bytes, the run
  returns, whatever the server sends and whatever the random source yields, and what it returns
  is an error.
\<close>

theorem example_run_ends:
  assumes "timer_fires net" and "reliable (net_stream net) content" and "completes (net_stream net)"
  shows "\<exists>e log. example_run ctl sn net rnd var g = Some (Inl e, log)"
proof -
  have t: "connect_timeout_ms (config_wire (cc_config (ControlConfig_new CONTROL_URL k))) \<noteq> 0" for k
    by (simp add: ControlConfig_new_def Config_default_def WireConfig_default_def config_constants)
  have c: "connect sn net (ControlConfig_new CONTROL_URL k) \<noteq> None" for k
    by (simp add: with_connect_deadline_returns [OF assms(1) t] connect_def
        fetch_server_key_with_config_def connect_with_key_def connect_with_key_and_tls_def
        bind_async_None_iff del: not_None_eq)
  have r: "register_node ctl sn (net_stream net) cl key s \<noteq> None" for cl key s
    by (rule register_node_completes [OF assms(3)])
  have m: "stream_map ctl sn (net_stream net) s \<noteq> None" for s
    by (rule stream_map_ends [OF assms(2,3)])
  have "example_run ctl sn net rnd var g \<noteq> None"
    by (simp add: example_run_def Let_def c r m del: not_None_eq
        split: prod.split option.split sum.split)
  then obtain res log where "example_run ctl sn net rnd var g = Some (res, log)"
    by auto
  with example_run_Inl [OF this] show ?thesis
    by auto
qed

theorem example_run_ends_witness:
  "\<exists>e log. example_run sample_ctl mock_builder sample_net counting_rand NotPresent 0 = Some (Inl e, log)"
proof -
  have "timer_fires sample_net"
    by (simp add: timer_fires_def sample_net_def)
  moreover have "reliable (net_stream sample_net) concat" "completes (net_stream sample_net)"
    by (simp_all add: sample_net_def script_reliable script_completes)
  ultimately show ?thesis
    by (rule example_run_ends)
qed

text \<open>
  Claim C13. The streaming loop is a run of the client: it ends only in an error, its client and
  stream are those of a sequence of client calls in which exactly the responses \<open>rs\<close> were
  accepted, and its log is one report per accepted response, in order, each showing the peers
  the client held after that response.
\<close>

theorem stream_map_reports:
  assumes "stream_map ctl sn ops ((c, st), log) = Some (r, s')"
  shows "\<exists>e rs. r = Inl e \<and> client_run ctl sn ops (c, st) rs (fst s')
    \<and> snd s' = log @ [info (''starting map stream'' @ ellipsis)] @ reports c rs"
  by (rule stream_map_run [OF assms])

theorem stream_map_reports_witness:
  "\<exists>(e :: (unit, unit) ExampleError) rs s'.
     stream_map sample_ctl mock_snow script_ops ((sample_client, sample_map_stream), []) = Some (Inl e, s')
     \<and> client_run sample_ctl mock_snow script_ops (sample_client, sample_map_stream) rs (fst s')"
proof -
  obtain r :: "((unit, unit) ExampleError, unit) result" and s' where
    "stream_map sample_ctl mock_snow script_ops ((sample_client, sample_map_stream), []) = Some (r, s')"
    using stream_map_ends [OF script_reliable script_completes, of sample_ctl mock_snow
        "((sample_client, sample_map_stream), [])"]
    by (metis not_None_eq prod.collapse)
  with stream_map_reports [OF this] show ?thesis
    by blast
qed

text \<open>
  The placeholder handshake succeeds: with a library in which an initiator and a
  responder of matching keys complete the handshake, the example's own reading of the initiation
  frame and framing of the response agree with the client's, so the connection is built, around
  the initiator's transport.
\<close>

lemma placeholder_connection_built:
  assumes "rand_key rnd g = (ck, g1)" and "rand_key rnd g1 = (sk, g2)"
    and "ik_pair sn base_mult (static_secret rnd ck) (static_secret rnd sk) t"
  shows "build_placeholder_connection sn base_mult rnd g
    = (Inr \<lparr> conn_noise = NoiseTransport_from_snow t \<rparr>, g2)"
  by (rule placeholder_value [OF assms])

lemma placeholder_connection_built_witness:
  "build_placeholder_connection mock_builder id counting_rand 0
     = ((Inr \<lparr> conn_noise = NoiseTransport_from_snow 0 \<rparr> :: ((unit, unit) ExampleError, nat ControlConnection) result), 2)"
  by (rule placeholder_connection_built [OF _ _ mock_ik_pair])
     (simp_all add: counting_rand_def)

end
