(* ===== verification/Key_Tests.thy ===== *)
theory Key_Tests
  imports Keys Capability
begin

text \<open>
  The unit and property tests of \<^verbatim>\<open>crates/mitos/src/keys.rs\<close> and \<^verbatim>\<open>crates/mitos/src/capability.rs\<close>,
  translated with their names. A test that draws random keys takes the random source, its state
  and the base-point multiplication as arguments, so that passing is proved for all of them.
\<close>

section \<open>Keys\<close>

definition generate_machine_key_produces_32_bytes :: "'g Key_rand \<Rightarrow> 'g \<Rightarrow> bool" where
  "generate_machine_key_produces_32_bytes rnd g =
     (let (key, _) = MachinePrivate_generate rnd g in length (machine_private_bytes key) = 32)"

definition public_key_derivation_is_deterministic :: "(bytes \<Rightarrow> bytes) \<Rightarrow> 'g Key_rand \<Rightarrow> 'g \<Rightarrow> bool" where
  "public_key_derivation_is_deterministic base_mult rnd g =
     (let (priv_key, _) = MachinePrivate_generate rnd g;
          pub1 = MachinePrivate_public_key base_mult priv_key;
          pub2 = MachinePrivate_public_key base_mult priv_key in
      pub1 = pub2)"

definition private_key_debug_redacts :: "'g Key_rand \<Rightarrow> 'g \<Rightarrow> bool" where
  "private_key_debug_redacts rnd g =
     (let (key, _) = MachinePrivate_generate rnd g; debug = MachinePrivate_debug key in
      str_contains ''[REDACTED]'' debug \<and> \<not> str_contains ''0x'' debug)"

definition from_bytes_round_trips :: "(bytes \<Rightarrow> bytes) \<Rightarrow> 'g Key_rand \<Rightarrow> 'g \<Rightarrow> bool" where
  "from_bytes_round_trips base_mult rnd g =
     (let (original, _) = MachinePrivate_generate rnd g;
          bs = machine_private_bytes original;
          restored = MachinePrivate_from_bytes bs;
          pub_original = MachinePrivate_public_key base_mult original;
          pub_bytes = machine_public_bytes pub_original;
          pub_restored = MachinePublic_from_bytes pub_bytes in
      machine_private_bytes original = machine_private_bytes restored \<and> pub_original = pub_restored)"

definition to_hex_includes_prefix :: "(bytes \<Rightarrow> bytes) \<Rightarrow> 'g Key_rand \<Rightarrow> 'g \<Rightarrow> bool" where
  "to_hex_includes_prefix base_mult rnd g =
     (let (priv_key, g1) = MachinePrivate_generate rnd g;
          pub_key = MachinePrivate_public_key base_mult priv_key;
          priv_hex = MachinePrivate_to_hex priv_key;
          pub_hex = MachinePublic_to_hex pub_key;
          (node_priv, g2) = NodePrivate_generate rnd g1;
          node_pub = NodePrivate_public_key base_mult node_priv;
          (disco_priv, _) = DiscoPrivate_generate rnd g2;
          disco_pub = DiscoPrivate_public_key base_mult disco_priv in
      prefix ''privkey:'' priv_hex \<and> length priv_hex = length ''privkey:'' + 64
      \<and> prefix ''mkey:'' pub_hex \<and> length pub_hex = length ''mkey:'' + 64
      \<and> prefix ''nodekey:'' (NodePublic_to_hex node_pub)
      \<and> prefix ''discokey:'' (DiscoPublic_to_hex disco_pub))"

definition different_keys_produce_different_public_keys ::
  "(bytes \<Rightarrow> bytes) \<Rightarrow> 'g Key_rand \<Rightarrow> 'g \<Rightarrow> bool" where
  "different_keys_produce_different_public_keys base_mult rnd g =
     (let (key1, g1) = MachinePrivate_generate rnd g; (key2, _) = MachinePrivate_generate rnd g1 in
      MachinePrivate_public_key base_mult key1 \<noteq> MachinePrivate_public_key base_mult key2)"

definition node_key_round_trips :: "(bytes \<Rightarrow> bytes) \<Rightarrow> 'g Key_rand \<Rightarrow> 'g \<Rightarrow> bool" where
  "node_key_round_trips base_mult rnd g =
     (let (priv_key, _) = NodePrivate_generate rnd g;
          restored = NodePrivate_from_bytes (node_private_bytes priv_key) in
      NodePrivate_public_key base_mult priv_key = NodePrivate_public_key base_mult restored)"

definition disco_key_round_trips :: "(bytes \<Rightarrow> bytes) \<Rightarrow> 'g Key_rand \<Rightarrow> 'g \<Rightarrow> bool" where
  "disco_key_round_trips base_mult rnd g =
     (let (priv_key, _) = DiscoPrivate_generate rnd g;
          restored = DiscoPrivate_from_bytes (disco_private_bytes priv_key) in
      DiscoPrivate_public_key base_mult priv_key = DiscoPrivate_public_key base_mult restored)"

definition wrong_length_is_rejected_before_any_digit_is_examined :: bool where
  "wrong_length_is_rejected_before_any_digit_is_examined =
     (case MachinePublic_from_hex (''mkey:'' @ concat (replicate 1000 ''zz'')) of
        Inl (WrongLength expected actual) \<Rightarrow> expected = KEY_LEN \<and> actual = 1000
      | _ \<Rightarrow> False)"

definition missing_prefix_error_bounds_the_input_it_retains :: bool where
  "missing_prefix_error_bounds_the_input_it_retains =
     (case MachinePublic_from_hex (''bogus:'' @ replicate 10000 CHR ''a'') of
        Inl (MissingPrefix _ kept) \<Rightarrow> count_chars kept = MAX_REPORTED_INPUT
      | _ \<Rightarrow> False)"

definition invalid_hex_digit_reports_the_character_and_its_offset :: bool where
  "invalid_hex_digit_reports_the_character_and_its_offset =
     (case MachinePublic_from_hex (''mkey:'' @ replicate 62 CHR ''0'' @ ''0z'') of
        Inl (InvalidHexDigit digit offset) \<Rightarrow> digit = CHR ''z'' \<and> offset = 63
      | _ \<Rightarrow> False)"

definition odd_digit_count_is_its_own_variant :: bool where
  "odd_digit_count_is_its_own_variant =
     (case MachinePublic_from_hex ''mkey:abc'' of Inl (OddHexLength len) \<Rightarrow> len = 3 | _ \<Rightarrow> False)"

definition every_public_key_type_parses_its_own_prefixed_hex ::
  "(bytes \<Rightarrow> bytes) \<Rightarrow> 'g Key_rand \<Rightarrow> 'g \<Rightarrow> bool" where
  "every_public_key_type_parses_its_own_prefixed_hex base_mult rnd g =
     (let (mp, g1) = MachinePrivate_generate rnd g; machine = MachinePrivate_public_key base_mult mp;
          (np, g2) = NodePrivate_generate rnd g1; node = NodePrivate_public_key base_mult np;
          (dp, _) = DiscoPrivate_generate rnd g2; disco = DiscoPrivate_public_key base_mult dp in
      MachinePublic_from_hex (MachinePublic_to_hex machine) = Inr machine
      \<and> NodePublic_from_hex (NodePublic_to_hex node) = Inr node
      \<and> DiscoPublic_from_hex (DiscoPublic_to_hex disco) = Inr disco)"

definition a_public_key_type_rejects_another_types_prefix ::
  "(bytes \<Rightarrow> bytes) \<Rightarrow> 'g Key_rand \<Rightarrow> 'g \<Rightarrow> bool" where
  "a_public_key_type_rejects_another_types_prefix base_mult rnd g =
     (let (np, _) = NodePrivate_generate rnd g;
          node_hex = NodePublic_to_hex (NodePrivate_public_key base_mult np) in
      (case DiscoPublic_from_hex node_hex of
         Inl (MissingPrefix pre _) \<Rightarrow> pre = ''discokey:'' | _ \<Rightarrow> False)
      \<and> (case MachinePublic_from_hex node_hex of
         Inl (MissingPrefix pre _) \<Rightarrow> pre = ''mkey:'' | _ \<Rightarrow> False))"

text \<open>The bodies of the two property tests, over the bytes the generator produces.\<close>

definition machine_key_hex_round_trips :: "bytes \<Rightarrow> bool" where
  "machine_key_hex_round_trips bs =
     (let key = MachinePublic_from_bytes bs; hex = MachinePublic_to_hex key in
      MachinePublic_from_hex hex = Inr key)"

definition machine_key_hex_has_correct_format :: "bytes \<Rightarrow> bool" where
  "machine_key_hex_has_correct_format bs =
     (let key = MachinePublic_from_bytes bs; hex = MachinePublic_to_hex key in
      prefix ''mkey:'' hex \<and> length hex = 5 + 64)"

definition key_tests :: "(bytes \<Rightarrow> bytes) \<Rightarrow> 'g Key_rand \<Rightarrow> 'g \<Rightarrow> bool list" where
  "key_tests base_mult rnd g =
     [generate_machine_key_produces_32_bytes rnd g,
      public_key_derivation_is_deterministic base_mult rnd g,
      private_key_debug_redacts rnd g,
      from_bytes_round_trips base_mult rnd g,
      to_hex_includes_prefix base_mult rnd g,
      node_key_round_trips base_mult rnd g,
      disco_key_round_trips base_mult rnd g,
      wrong_length_is_rejected_before_any_digit_is_examined,
      missing_prefix_error_bounds_the_input_it_retains,
      invalid_hex_digit_reports_the_character_and_its_offset,
      odd_digit_count_is_its_own_variant,
      every_public_key_type_parses_its_own_prefixed_hex base_mult rnd g,
      a_public_key_type_rejects_another_types_prefix base_mult rnd g]"

section \<open>The capability version\<close>

definition capability_version_encodes_big_endian :: bool where
  "capability_version_encodes_big_endian = (version_to_be_bytes CAPABILITY_VERSION = [0x00, 0x47])"

definition capability_version_displays_as_decimal :: bool where
  "capability_version_displays_as_decimal = (version_fmt CAPABILITY_VERSION = ''71'')"

definition capability_version_widens_to_u64_losslessly :: bool where
  "capability_version_widens_to_u64_losslessly = (version_as_u64 CAPABILITY_VERSION = 71)"

text \<open>\<^verbatim>\<open>u16::from_le_bytes\<close> reads the bytes in the opposite order.\<close>

definition big_endian_bytes_are_not_the_little_endian_encoding :: bool where
  "big_endian_bytes_are_not_the_little_endian_encoding =
     (case version_to_be_bytes CAPABILITY_VERSION of
        [b0, b1] \<Rightarrow> u16_from_be_bytes b1 b0 \<noteq> 71
      | _ \<Rightarrow> False)"

definition capability_tests :: "bool list" where
  "capability_tests =
     [capability_version_encodes_big_endian, capability_version_displays_as_decimal,
      capability_version_widens_to_u64_losslessly, big_endian_bytes_are_not_the_little_endian_encoding]"

section \<open>The tests pass\<close>

text \<open>\<^verbatim>\<open>[u8; 32]\<close>: secrets and public keys have 32 bytes.\<close>

definition key_sized :: "(bytes \<Rightarrow> bytes) \<Rightarrow> 'g Key_rand \<Rightarrow> bool" where
  "key_sized base_mult rnd \<longleftrightarrow>
     (\<forall>bs. length (static_secret rnd bs) = KEY_LEN) \<and> (\<forall>bs. length (base_mult bs) = KEY_LEN)"

lemma take_chars_replicate: "\<not> is_continuation c \<Longrightarrow> take_chars n (replicate m c) = replicate (min n m) c"
proof (induction m arbitrary: n)
  case (Suc m)
  then show ?case by (cases n) simp_all
qed simp

lemma test_digits:
  "MachinePublic_from_hex (''mkey:'' @ replicate 62 CHR ''0'' @ ''0z'') = Inl (InvalidHexDigit CHR ''z'' 63)"
proof -
  define h where "h = replicate 62 CHR ''0'' @ ''0z''"
  have n: "h ! k = (if k = 63 then CHR ''z'' else CHR ''0'')" if "k < 64" for k
    using that by (auto simp: h_def nth_append nth_Cons' less_Suc_eq numeral_eq_Suc)
  have "length h = 64" "\<not> (\<forall>c\<in>set h. is_hex_char c)"
    by (simp_all add: h_def is_hex_char_def)
  then obtain k where k: "k < 64" "MachinePublic_from_hex (''mkey:'' @ h) = Inl (InvalidHexDigit (h ! k) k)"
      "\<not> is_hex_char (h ! k)"
    using machine_key.from_hex_bad_digit by blast
  then have "k = 63"
    by (cases "k = 63") (simp_all add: n is_hex_char_def)
  with k n show ?thesis
    by (simp add: h_def)
qed

lemma test_lengths:
  "MachinePublic_from_hex (''mkey:'' @ concat (replicate 1000 ''zz'')) = Inl (WrongLength KEY_LEN 1000)"
  "MachinePublic_from_hex ''mkey:abc'' = Inl (OddHexLength 3)"
proof -
  have l: "length (concat (replicate n ''zz'')) = 2 * n" for n
    by (induction n) simp_all
  show "MachinePublic_from_hex (''mkey:'' @ concat (replicate 1000 ''zz'')) = Inl (WrongLength KEY_LEN 1000)"
    by (subst machine_key.from_hex_wrong_length) (simp_all only: l, simp_all)
  show "MachinePublic_from_hex ''mkey:abc'' = Inl (OddHexLength 3)"
    using machine_key.from_hex_wrong_length [of "''abc''"] by simp
qed

lemma test_prefix:
  "MachinePublic_from_hex (''bogus:'' @ replicate 10000 CHR ''a'')
     = Inl (MissingPrefix ''mkey:'' (''bogus:'' @ replicate 74 CHR ''a''))"
proof -
  have "\<not> prefix ''mkey:'' (''bogus:'' @ replicate 10000 CHR ''a'')"
    by simp
  then have "MachinePublic_from_hex (''bogus:'' @ replicate 10000 CHR ''a'')
     = Inl (MissingPrefix ''mkey:'' (truncate_for_report (''bogus:'' @ replicate 10000 CHR ''a'')))"
    by (rule machine_key.from_hex_missing_prefix)
  then show ?thesis
    by (simp add: truncate_for_report_def MAX_REPORTED_INPUT_def is_continuation_def take_chars_replicate)
qed

lemma foreign_prefix:
  "DiscoPublic_from_hex (NodePublic_to_hex k) =
     Inl (MissingPrefix ''discokey:'' (truncate_for_report (NodePublic_to_hex k)))"
  "MachinePublic_from_hex (NodePublic_to_hex k) =
     Inl (MissingPrefix ''mkey:'' (truncate_for_report (NodePublic_to_hex k)))"
  by (rule disco_key.from_hex_missing_prefix machine_key.from_hex_missing_prefix,
      simp add: NodePublic_to_hex_def key_to_hex_def)+

lemma closed_key_tests:
  "wrong_length_is_rejected_before_any_digit_is_examined"
  "missing_prefix_error_bounds_the_input_it_retains"
  "invalid_hex_digit_reports_the_character_and_its_offset"
  "odd_digit_count_is_its_own_variant"
  unfolding wrong_length_is_rejected_before_any_digit_is_examined_def
    missing_prefix_error_bounds_the_input_it_retains_def
    invalid_hex_digit_reports_the_character_and_its_offset_def odd_digit_count_is_its_own_variant_def
    test_digits test_lengths test_prefix
  by (simp_all add: MAX_REPORTED_INPUT_def count_chars_def is_continuation_def)

lemma redacted_text:
  "str_contains ''[REDACTED]'' (MachinePrivate_debug k)" "\<not> str_contains ''0x'' (MachinePrivate_debug k)"
  by (simp_all add: MachinePrivate_debug_def debug_tuple_def dq_def str_contains_def)

lemma key_tests_pass:
  assumes "key_sized base_mult rnd"
  shows "list_all (\<lambda>t. t) (key_tests base_mult rnd g)"
  using assms closed_key_tests
  by (simp add: key_tests_def key_sized_def
      generate_machine_key_produces_32_bytes_def public_key_derivation_is_deterministic_def
      private_key_debug_redacts_def from_bytes_round_trips_def to_hex_includes_prefix_def
      node_key_round_trips_def disco_key_round_trips_def
      every_public_key_type_parses_its_own_prefixed_hex_def
      a_public_key_type_rejects_another_types_prefix_def
      MachinePrivate_generate_def NodePrivate_generate_def DiscoPrivate_generate_def
      MachinePrivate_from_bytes_def MachinePublic_from_bytes_def NodePrivate_from_bytes_def
      DiscoPrivate_from_bytes_def MachinePrivate_public_key_def NodePrivate_public_key_def
      DiscoPrivate_public_key_def redacted_text machine_key.to_hex_length machine_key.from_to_hex
      node_key.from_to_hex disco_key.from_to_hex foreign_prefix case_prod_beta Let_def)
     (simp add: MachinePrivate_to_hex_def MachinePublic_to_hex_def NodePublic_to_hex_def
      DiscoPublic_to_hex_def key_to_hex_def KEY_LEN_def)

text \<open>The two property tests hold of every array of 32 bytes, not only of sampled ones.\<close>

lemma key_property_tests:
  "length bs = 32 \<Longrightarrow> machine_key_hex_round_trips bs"
  "length bs = 32 \<Longrightarrow> machine_key_hex_has_correct_format bs"
  by (simp_all add: machine_key_hex_round_trips_def machine_key_hex_has_correct_format_def Let_def
      machine_key.from_to_hex machine_key.to_hex_length KEY_LEN_def MachinePublic_from_bytes_def)
     (simp add: MachinePublic_to_hex_def key_to_hex_def)

text \<open>Two draws give different public keys when the two secrets do.\<close>

lemma different_keys_pass:
  assumes "rand_key rnd g = (b1, g1)" and "rand_key rnd g1 = (b2, g2)"
    and "base_mult (static_secret rnd b1) \<noteq> base_mult (static_secret rnd b2)"
  shows "different_keys_produce_different_public_keys base_mult rnd g"
  using assms
  by (simp add: different_keys_produce_different_public_keys_def MachinePrivate_generate_def
      MachinePrivate_public_key_def)

lemma version_texts:
  "version_fmt CAPABILITY_VERSION = ''71''"
  "version_to_be_bytes CAPABILITY_VERSION = [0x00, 0x47]"
  "version_as_u64 CAPABILITY_VERSION = 71"
  by code_simp+

lemma capability_tests_pass: "list_all (\<lambda>t. t) capability_tests"
  by (simp add: capability_tests_def capability_version_encodes_big_endian_def version_texts
      capability_version_displays_as_decimal_def capability_version_widens_to_u64_losslessly_def
      big_endian_bytes_are_not_the_little_endian_encoding_def u16_from_be_bytes_def)

end
