(* ===== verification/Control_Tests.thy ===== *)
theory Control_Tests
  imports Register Validate
begin

text \<open>
  The unit tests of the control module's pure parts, translated as executable predicates with the
  names and inputs of the source: those of \<^verbatim>\<open>crates/dictyon/src/control/register.rs\<close> and of
  \<^verbatim>\<open>crates/dictyon/src/control/validate.rs\<close>. An assertion is a conjunct; a \<^verbatim>\<open>let .. else panic!\<close>
  that does not match is false.
\<close>

section \<open>Registration outcomes\<close>

definition blank_response :: RegisterResponse where
  "blank_response =
     \<lparr> auth_url = None, machine_authorized = False, node_key_expired = False, reg_error = None \<rparr>"

definition is_authorized :: "RegisterOutcome \<Rightarrow> bool" where
  "is_authorized outcome = (case outcome of Authorized _ \<Rightarrow> True | _ \<Rightarrow> False)"

definition authorized_with_no_url_is_authorized :: bool where
  "authorized_with_no_url_is_authorized =
     is_authorized (classify_register_response (blank_response\<lparr> machine_authorized := True \<rparr>))"

definition authorized_with_empty_url_is_authorized_not_needs_auth :: bool where
  "authorized_with_empty_url_is_authorized_not_needs_auth =
     is_authorized (classify_register_response
       (blank_response\<lparr> machine_authorized := True, auth_url := Some [] \<rparr>))"

definition unauthorized_with_url_needs_auth :: bool where
  "unauthorized_with_url_needs_auth =
     (case classify_register_response (blank_response\<lparr> machine_authorized := False,
             auth_url := Some ''https://login.tailscale.com/a/abc'' \<rparr>) of
        NeedsAuth url \<Rightarrow> url_str url = ''https://login.tailscale.com/a/abc''
      | _ \<Rightarrow> False)"

definition error_rejects_even_with_empty_url_and_unauthorized :: bool where
  "error_rejects_even_with_empty_url_and_unauthorized =
     (case classify_register_response (blank_response\<lparr> machine_authorized := False,
             auth_url := Some [], reg_error := Some ''invalid auth key'' \<rparr>) of
        Rejected reason \<Rightarrow> reason = ''invalid auth key''
      | _ \<Rightarrow> False)"

definition error_rejects_even_when_machine_authorized_is_true :: bool where
  "error_rejects_even_when_machine_authorized_is_true =
     (case classify_register_response (blank_response\<lparr> machine_authorized := True,
             reg_error := Some ''account suspended'' \<rparr>) of
        Rejected reason \<Rightarrow> reason = ''account suspended''
      | _ \<Rightarrow> False)"

definition empty_error_string_does_not_reject :: bool where
  "empty_error_string_does_not_reject =
     is_authorized (classify_register_response
       (blank_response\<lparr> machine_authorized := True, reg_error := Some [] \<rparr>))"

definition node_key_expired_requests_rotation :: bool where
  "node_key_expired_requests_rotation =
     (case classify_register_response (blank_response\<lparr> node_key_expired := True \<rparr>) of
        RotateNodeKey \<Rightarrow> True | _ \<Rightarrow> False)"

definition node_key_expired_wins_over_machine_authorized :: bool where
  "node_key_expired_wins_over_machine_authorized =
     (case classify_register_response
             (blank_response\<lparr> node_key_expired := True, machine_authorized := True \<rparr>) of
        RotateNodeKey \<Rightarrow> True | _ \<Rightarrow> False)"

definition unauthorized_with_no_signal_is_contradictory_not_authorized :: bool where
  "unauthorized_with_no_signal_is_contradictory_not_authorized =
     (case classify_register_response blank_response of
        Contradictory UnauthorizedWithoutExplanation \<Rightarrow> True | _ \<Rightarrow> False)"

definition authorized_with_pending_url_is_contradictory :: bool where
  "authorized_with_pending_url_is_contradictory =
     (case classify_register_response (blank_response\<lparr> machine_authorized := True,
             auth_url := Some ''https://login.tailscale.com/a/abc'' \<rparr>) of
        Contradictory AuthorizedWithPendingUrl \<Rightarrow> True | _ \<Rightarrow> False)"

text \<open>\<^verbatim>\<open>Display for NonEmptyUrl\<close> writes the string \<^verbatim>\<open>as_str\<close> borrows.\<close>

definition NonEmptyUrl_display :: "NonEmptyUrl \<Rightarrow> string" where
  "NonEmptyUrl_display u = url_str u"

definition non_empty_url_display_matches_as_str :: bool where
  "non_empty_url_display_matches_as_str =
     (case classify_register_response (blank_response\<lparr> machine_authorized := False,
             auth_url := Some ''https://login.tailscale.com/a/xyz'' \<rparr>) of
        NeedsAuth url \<Rightarrow> NonEmptyUrl_display url = url_str url
      | _ \<Rightarrow> False)"

definition register_tests :: "bool list" where
  "register_tests =
     [authorized_with_no_url_is_authorized,
      authorized_with_empty_url_is_authorized_not_needs_auth,
      unauthorized_with_url_needs_auth,
      error_rejects_even_with_empty_url_and_unauthorized,
      error_rejects_even_when_machine_authorized_is_true,
      empty_error_string_does_not_reject,
      node_key_expired_requests_rotation,
      node_key_expired_wins_over_machine_authorized,
      unauthorized_with_no_signal_is_contradictory_not_authorized,
      authorized_with_pending_url_is_contradictory,
      non_empty_url_display_matches_as_str]"

section \<open>Field validation\<close>

definition valid_node :: Node where
  "valid_node =
     \<lparr> node_id = 1, stable_id = None,
       node_key = ''nodekey:1111111111111111111111111111111111111111111111111111111111111111'',
       node_machine = None, node_name = ''n.ts.net.'', node_cap = None, tags = None,
       addresses = [''100.64.0.1/32''], allowed_ips = None, node_endpoints = None, derp = None,
       node_disco_key = None, node_key_expiry = None, node_last_seen = None, node_online = None \<rparr>"

definition valid_node_passes :: bool where
  "valid_node_passes = node_is_valid valid_node"

definition malformed_key_fails :: bool where
  "malformed_key_fails \<longleftrightarrow> \<not> node_is_valid (valid_node\<lparr> node_key := ''not-a-key'' \<rparr>)"

definition malformed_disco_key_fails :: bool where
  "malformed_disco_key_fails \<longleftrightarrow> \<not> node_is_valid (valid_node\<lparr> node_disco_key := Some ''discokey:zz'' \<rparr>)"

definition malformed_machine_key_fails :: bool where
  "malformed_machine_key_fails \<longleftrightarrow> \<not> node_is_valid (valid_node\<lparr> node_machine := Some ''mkey:not-hex-at-all'' \<rparr>)"

definition missing_prefix_length_fails :: bool where
  "missing_prefix_length_fails \<longleftrightarrow> \<not> node_is_valid (valid_node\<lparr> addresses := [''100.64.0.1''] \<rparr>)"

definition prefix_length_out_of_range_fails :: bool where
  "prefix_length_out_of_range_fails \<longleftrightarrow> \<not> node_is_valid (valid_node\<lparr> addresses := [''100.64.0.1/99''] \<rparr>)"

definition garbage_address_fails :: bool where
  "garbage_address_fails \<longleftrightarrow> \<not> node_is_valid (valid_node\<lparr> addresses := [''not-an-ip/32''] \<rparr>)"

definition valid_ipv6_cidr_passes :: bool where
  "valid_ipv6_cidr_passes = is_valid_cidr ''fd7a:115c:a1e0::1/128''"

definition ipv4_cidr_at_max_prefix_passes :: bool where
  "ipv4_cidr_at_max_prefix_passes = is_valid_cidr ''100.64.0.1/32''"

definition ipv4_cidr_one_past_max_prefix_fails :: bool where
  "ipv4_cidr_one_past_max_prefix_fails \<longleftrightarrow> \<not> is_valid_cidr ''100.64.0.1/33''"

definition ipv6_cidr_at_max_prefix_passes :: bool where
  "ipv6_cidr_at_max_prefix_passes = is_valid_cidr ''fd7a:115c:a1e0::1/128''"

definition ipv6_cidr_one_past_max_prefix_fails :: bool where
  "ipv6_cidr_one_past_max_prefix_fails \<longleftrightarrow> \<not> is_valid_cidr ''fd7a:115c:a1e0::1/129''"

definition zero_prefix_passes :: bool where
  "zero_prefix_passes = is_valid_cidr ''0.0.0.0/0''"

definition non_numeric_prefix_fails :: bool where
  "non_numeric_prefix_fails \<longleftrightarrow> \<not> is_valid_cidr ''100.64.0.1/abc''"

definition empty_prefix_fails :: bool where
  "empty_prefix_fails \<longleftrightarrow> \<not> is_valid_cidr ''100.64.0.1/''"

definition negative_prefix_fails :: bool where
  "negative_prefix_fails \<longleftrightarrow> \<not> is_valid_cidr ''100.64.0.1/-1''"

definition double_slash_fails :: bool where
  "double_slash_fails \<longleftrightarrow> \<not> is_valid_cidr ''100.64.0.1/32/1''"

definition allowed_ips_entry_is_checked :: bool where
  "allowed_ips_entry_is_checked \<longleftrightarrow> \<not> node_is_valid (valid_node\<lparr> allowed_ips := Some [''10.0.0.0/8'', ''garbage''] \<rparr>)"

definition endpoint_missing_port_fails :: bool where
  "endpoint_missing_port_fails \<longleftrightarrow> \<not> node_is_valid (valid_node\<lparr> node_endpoints := Some [''203.0.113.10''] \<rparr>)"

definition valid_endpoint_passes :: bool where
  "valid_endpoint_passes = endpoints_are_valid [''203.0.113.10:41641'']"

definition dns_resolver_bare_ip_passes :: bool where
  "dns_resolver_bare_ip_passes = dns_resolver_is_valid \<lparr> addr = ''100.100.100.100'' \<rparr>"

definition dns_resolver_ip_port_passes :: bool where
  "dns_resolver_ip_port_passes = dns_resolver_is_valid \<lparr> addr = ''1.1.1.1:53'' \<rparr>"

definition dns_resolver_garbage_fails :: bool where
  "dns_resolver_garbage_fails \<longleftrightarrow> \<not> dns_resolver_is_valid \<lparr> addr = ''not-an-address'' \<rparr>"

definition validate_tests :: "bool list" where
  "validate_tests =
     [valid_node_passes,
      malformed_key_fails,
      malformed_disco_key_fails,
      malformed_machine_key_fails,
      missing_prefix_length_fails,
      prefix_length_out_of_range_fails,
      garbage_address_fails,
      valid_ipv6_cidr_passes,
      ipv4_cidr_at_max_prefix_passes,
      ipv4_cidr_one_past_max_prefix_fails,
      ipv6_cidr_at_max_prefix_passes,
      ipv6_cidr_one_past_max_prefix_fails,
      zero_prefix_passes,
      non_numeric_prefix_fails,
      empty_prefix_fails,
      negative_prefix_fails,
      double_slash_fails,
      allowed_ips_entry_is_checked,
      endpoint_missing_port_fails,
      valid_endpoint_passes,
      dns_resolver_bare_ip_passes,
      dns_resolver_ip_port_passes,
      dns_resolver_garbage_fails]"

section \<open>The tests pass\<close>

lemma register_tests_pass: "list_all (\<lambda>t. t) register_tests"
  by (simp add: register_tests_def is_authorized_def blank_response_def classify_cases unset_def
      NonEmptyUrl_display_def
      authorized_with_no_url_is_authorized_def authorized_with_empty_url_is_authorized_not_needs_auth_def
      unauthorized_with_url_needs_auth_def error_rejects_even_with_empty_url_and_unauthorized_def
      error_rejects_even_when_machine_authorized_is_true_def empty_error_string_does_not_reject_def
      node_key_expired_requests_rotation_def node_key_expired_wins_over_machine_authorized_def
      unauthorized_with_no_signal_is_contradictory_not_authorized_def
      authorized_with_pending_url_is_contradictory_def non_empty_url_display_matches_as_str_def)

text \<open>The addresses of the tests, each decided by running the parser.\<close>

lemma test_cidrs [simp]:
  "is_valid_cidr ''100.64.0.1/32''"
  "\<not> is_valid_cidr ''100.64.0.1''"
  "\<not> is_valid_cidr ''100.64.0.1/99''"
  "\<not> is_valid_cidr ''100.64.0.1/33''"
  "\<not> is_valid_cidr ''not-an-ip/32''"
  "is_valid_cidr ''0.0.0.0/0''"
  "\<not> is_valid_cidr ''100.64.0.1/abc''"
  "\<not> is_valid_cidr ''100.64.0.1/''"
  "\<not> is_valid_cidr ''100.64.0.1/-1''"
  "\<not> is_valid_cidr ''100.64.0.1/32/1''"
  "\<not> is_valid_cidr ''garbage''"
  by (simp_all add: cidr_eval)

lemma test_cidrs_v6 [simp]:
  "is_valid_cidr ''fd7a:115c:a1e0::1/128''"
  "\<not> is_valid_cidr ''fd7a:115c:a1e0::1/129''"
  by (simp_all add: cidr_eval)

lemma test_endpoints [simp]:
  "SocketAddr_from_str ''203.0.113.10'' = None"
  "SocketAddr_from_str ''203.0.113.10:41641'' \<noteq> None"
  "IpAddr_from_str ''100.100.100.100'' \<noteq> None"
  "SocketAddr_from_str ''1.1.1.1:53'' \<noteq> None"
  "IpAddr_from_str ''not-an-address'' = None"
  "SocketAddr_from_str ''not-an-address'' = None"
  by (simp_all add: cidr_eval)

lemma test_keys [simp]:
  "is_valid_node_key ''nodekey:1111111111111111111111111111111111111111111111111111111111111111''"
  "\<not> is_valid_node_key ''not-a-key''"
  "\<not> is_valid_disco_key ''discokey:zz''"
  "\<not> is_ok (MachinePublic_from_hex ''mkey:not-hex-at-all'')"
proof -
  have "''nodekey:1111111111111111111111111111111111111111111111111111111111111111''
      = ''nodekey:'' @ replicate 64 CHR ''1''"
    by (simp add: numeral_eq_Suc)
  then show "is_valid_node_key ''nodekey:1111111111111111111111111111111111111111111111111111111111111111''"
    unfolding is_valid_node_key_def node_key.from_hex_ok_iff
    by (intro exI [of _ "replicate 64 CHR ''1''"]) (simp add: is_hex_char_def)
  show "\<not> is_valid_node_key ''not-a-key''"
    unfolding is_valid_node_key_def node_key.from_hex_ok_iff by simp
  show "\<not> is_valid_disco_key ''discokey:zz''"
    unfolding is_valid_disco_key_def disco_key.from_hex_ok_iff by auto
  show "\<not> is_ok (MachinePublic_from_hex ''mkey:not-hex-at-all'')"
    unfolding machine_key.from_hex_ok_iff by auto
qed

lemma validate_tests_pass: "list_all (\<lambda>t. t) validate_tests"
  by (simp add: validate_tests_def node_is_valid_def valid_node_def endpoints_are_valid_def
      dns_resolver_is_valid_def
      valid_node_passes_def
      malformed_key_fails_def
      malformed_disco_key_fails_def
      malformed_machine_key_fails_def
      missing_prefix_length_fails_def
      prefix_length_out_of_range_fails_def
      garbage_address_fails_def
      valid_ipv6_cidr_passes_def
      ipv4_cidr_at_max_prefix_passes_def
      ipv4_cidr_one_past_max_prefix_fails_def
      ipv6_cidr_at_max_prefix_passes_def
      ipv6_cidr_one_past_max_prefix_fails_def
      zero_prefix_passes_def
      non_numeric_prefix_fails_def
      empty_prefix_fails_def
      negative_prefix_fails_def
      double_slash_fails_def
      allowed_ips_entry_is_checked_def
      endpoint_missing_port_fails_def
      valid_endpoint_passes_def
      dns_resolver_bare_ip_passes_def
      dns_resolver_ip_port_passes_def
      dns_resolver_garbage_fails_def
      del: not_None_eq)

end
