(* ===== verification/Transport_Tests.thy ===== *)
theory Transport_Tests
  imports Connect_Example Key_Tests Control_Tests
begin

text \<open>
  The unit tests of \<^verbatim>\<open>crates/dictyon/src/transport.rs\<close>, translated with their names. The random
  source, the base-point multiplication, the base64 coder and the \<^verbatim>\<open>snow\<close> library are arguments;
  an \<^verbatim>\<open>expect\<close> that fails makes the test false.
\<close>

section \<open>The upgrade request\<close>

definition ends_with :: "string \<Rightarrow> string \<Rightarrow> bool" where
  "ends_with t s \<longleftrightarrow> suffix t s"

definition build_upgrade_request_sets_correct_headers ::
  "(bytes \<Rightarrow> string) \<Rightarrow> (string \<Rightarrow> bytes option) \<Rightarrow> ('h, 't, 'e, 'x) Snow_lib_scheme
     \<Rightarrow> (bytes \<Rightarrow> bytes) \<Rightarrow> 'g Key_rand \<Rightarrow> 'g \<Rightarrow> bool" where
  "build_upgrade_request_sets_correct_headers b64 b64_decode sn base_mult rnd g =
     (let (machine_key, g1) = MachinePrivate_generate rnd g;
          (server_key, _) = MachinePrivate_generate rnd g1;
          server_pub = MachinePrivate_public_key base_mult server_key in
      case fst (transport_upgrade_request b64 sn (NoiseHandshake_new machine_key server_pub)
             ''https://controlplane.tailscale.com'') of
        Inl _ \<Rightarrow> False
      | Inr req \<Rightarrow>
          let header_map = map_of (rev (upgrade_headers req)) in
          ends_with ''/ts2021'' (upgrade_url req)
          \<and> upgrade_url req = ''https://controlplane.tailscale.com/ts2021''
          \<and> header_map ''Upgrade'' = Some ''tailscale-control-protocol''
          \<and> header_map ''Connection'' = Some ''Upgrade''
          \<and> (case header_map ''X-Tailscale-Handshake'' of
               None \<Rightarrow> False
             | Some handshake_b64 \<Rightarrow>
                 handshake_b64 \<noteq> []
                 \<and> (case b64_decode handshake_b64 of
                      None \<Rightarrow> False | Some decoded \<Rightarrow> 5 < length decoded)))"

definition build_upgrade_request_strips_trailing_slash ::
  "(bytes \<Rightarrow> string) \<Rightarrow> ('h, 't, 'e, 'x) Snow_lib_scheme \<Rightarrow> (bytes \<Rightarrow> bytes) \<Rightarrow> 'g Key_rand \<Rightarrow> 'g \<Rightarrow> bool" where
  "build_upgrade_request_strips_trailing_slash b64 sn base_mult rnd g =
     (let (machine_key, g1) = MachinePrivate_generate rnd g;
          (server_key, _) = MachinePrivate_generate rnd g1;
          server_pub = MachinePrivate_public_key base_mult server_key in
      case fst (transport_upgrade_request b64 sn (NoiseHandshake_new machine_key server_pub)
             ''https://controlplane.tailscale.com/'') of
        Inl _ \<Rightarrow> False
      | Inr req \<Rightarrow> upgrade_url req = ''https://controlplane.tailscale.com/ts2021'')"

section \<open>Sending\<close>

definition test_message :: bytes where
  "test_message = as_bytes ''test control message''"

text \<open>The handshake the test drives through the library by hand, and the client's transport.\<close>

definition test_handshake ::
  "('h, 't, 'e, 'b, 'x) Snow_builder_scheme \<Rightarrow> bytes \<Rightarrow> bytes \<Rightarrow> bytes \<Rightarrow> ('e, 't) result" where
  "test_handshake sn ck sk server_pub =
     (let params = ''Noise_IK_25519_ChaChaPoly_BLAKE2s'';
          prologue_bytes = as_bytes (''Tailscale Control Protocol v'' @ version_fmt CAPABILITY_VERSION) in
      bind_r (snow_initiator sn params ck server_pub prologue_bytes) (\<lambda>initiator.
      bind_r (snow_params sn params) (\<lambda>params2.
      bind_r (snow_local_private_key sn params2 sk) (\<lambda>b1.
      bind_r (snow_prologue sn b1 prologue_bytes) (\<lambda>b2.
      bind_r (snow_build_responder sn b2) (\<lambda>responder.
      let (w1, initiator1) = snow_hs_write sn initiator [] 65535 in
      bind_r w1 (\<lambda>msg1.
      let (r1, responder1) = snow_hs_read sn responder msg1 65535 in
      bind_r r1 (\<lambda>_.
      let (w2, _) = snow_hs_write sn responder1 [] 65535 in
      bind_r w2 (\<lambda>msg2.
      let (r2, initiator2) = snow_hs_read sn initiator1 msg2 65535 in
      bind_r r2 (\<lambda>_. snow_into_transport sn initiator2))))))))))"

definition send_encrypts_payload ::
  "('h, 't, 'e, 'b, 'x) Snow_builder_scheme \<Rightarrow> (bytes \<Rightarrow> bytes) \<Rightarrow> 'g Key_rand \<Rightarrow> 'g \<Rightarrow> bool" where
  "send_encrypts_payload sn base_mult rnd g =
     (let (machine_key, g1) = MachinePrivate_generate rnd g;
          (server_key, _) = MachinePrivate_generate rnd g1;
          server_pub = MachinePrivate_public_key base_mult server_key in
      case test_handshake sn (machine_private_bytes machine_key) (machine_private_bytes server_key)
             (machine_public_bytes server_pub) of
        Inl _ \<Rightarrow> False
      | Inr t \<Rightarrow>
          let conn = \<lparr> conn_noise = NoiseTransport_from_snow t \<rparr>;
              plaintext = test_message in
          (case fst (send sn conn plaintext) of
             Inl _ \<Rightarrow> False
           | Inr encrypted \<Rightarrow> drop 3 encrypted \<noteq> plaintext \<and> length plaintext < length encrypted))"

section \<open>The tests pass\<close>

text \<open>The laws the tests rely on: base64 decodes what it encoded and the code of a non-empty text
  is not empty; \<^verbatim>\<open>snow\<close> starts a handshake whose first message is short and not empty.\<close>

definition base64_pair :: "(bytes \<Rightarrow> string) \<Rightarrow> (string \<Rightarrow> bytes option) \<Rightarrow> bool" where
  "base64_pair b64 b64_decode \<longleftrightarrow> (\<forall>bs. b64_decode (b64 bs) = Some bs \<and> (b64 bs = [] \<longleftrightarrow> bs = []))"

definition starts_handshake :: "('h, 't, 'e, 'x) Snow_lib_scheme \<Rightarrow> bytes \<Rightarrow> bytes \<Rightarrow> bool" where
  "starts_handshake sn ck pk \<longleftrightarrow>
     (\<exists>hi m hi1. snow_initiator sn NOISE_PARAMS ck pk prologue = Inr hi
        \<and> snow_hs_write sn hi [] 256 = (Inr m, hi1) \<and> m \<noteq> [] \<and> length m < 65536)"

lemma transport_request_started:
  assumes "starts_handshake sn ck pk" and "url \<noteq> []"
  obtains init_msg where "5 < length init_msg"
    "fst (transport_upgrade_request b64 sn (NoiseHandshake_new (MachinePrivate ck) (MachinePublic pk)) url)
      = Inr \<lparr> upgrade_url = trim_end_matches (CHR ''/'') url @ TRANSPORT_UPGRADE_PATH,
              upgrade_headers = [(''Upgrade'', UPGRADE_HEADER_VALUE), (''Connection'', ''Upgrade''),
                (''X-Tailscale-Handshake'', b64 init_msg)] \<rparr>"
proof -
  obtain hi m hi1 where s: "snow_initiator sn NOISE_PARAMS ck pk prologue = Inr hi"
    "snow_hs_write sn hi [] 256 = (Inr m, hi1)" "m \<noteq> []" "length m < 65536"
    using assms(1) by (auto simp: starts_handshake_def)
  define init_msg where "init_msg = version_to_be_bytes CAPABILITY_VERSION @ [MSG_TYPE_INITIATION]
    @ u16_to_be_bytes (of_nat (length m)) @ m"
  have "fst (initiation_message sn (NoiseHandshake_new (MachinePrivate ck) (MachinePublic pk))) = Inr init_msg"
    using s by (simp add: initiation_message_def NoiseHandshake_new_def NoiseHandshake_with_config_def
        scratch_default u16_try_from_length init_msg_def)
  moreover have "5 < length init_msg"
    using s(3) by (simp add: init_msg_def CAPABILITY_VERSION_def u16_to_be_bytes_def)
  ultimately show thesis
    using assms(2) that
    by (cases "initiation_message sn (NoiseHandshake_new (MachinePrivate ck) (MachinePublic pk))")
       (simp add: transport_upgrade_request_def)
qed

lemma test_urls:
  "trim_end_matches (CHR ''/'') ''https://controlplane.tailscale.com'' = ''https://controlplane.tailscale.com''"
  "trim_end_matches (CHR ''/'') ''https://controlplane.tailscale.com/'' = ''https://controlplane.tailscale.com''"
  by (simp_all add: trim_end_matches_def)

lemma test_url_ends: "ends_with ''/ts2021'' ''https://controlplane.tailscale.com/ts2021''"
  by (simp add: ends_with_def suffix_to_prefix)

text \<open>The two keys a test draws have 32 bytes.\<close>

lemma generated_pair:
  assumes "key_sized base_mult rnd"
  obtains ck g1 sk g2 where "MachinePrivate_generate rnd g = (MachinePrivate ck, g1)"
    "MachinePrivate_generate rnd g1 = (MachinePrivate sk, g2)" "length ck = KEY_LEN" "length sk = KEY_LEN"
proof -
  have "\<exists>ck g'. MachinePrivate_generate rnd h = (MachinePrivate ck, g') \<and> length ck = KEY_LEN" for h
    using assms by (simp add: key_sized_def MachinePrivate_generate_def split: prod.split)
  with that show thesis
    by metis
qed

lemma build_upgrade_request_tests_pass:
  assumes "base64_pair b64 b64_decode"
    and "\<And>ck sk. length ck = KEY_LEN \<Longrightarrow> length sk = KEY_LEN \<Longrightarrow> starts_handshake sn ck (base_mult sk)"
    and "key_sized base_mult rnd"
  shows "build_upgrade_request_sets_correct_headers b64 b64_decode sn base_mult rnd g"
    and "build_upgrade_request_strips_trailing_slash b64 sn base_mult rnd g"
proof -
  obtain ck g1 sk g2 where k: "MachinePrivate_generate rnd g = (MachinePrivate ck, g1)"
    "MachinePrivate_generate rnd g1 = (MachinePrivate sk, g2)" "length ck = KEY_LEN" "length sk = KEY_LEN"
    using generated_pair [OF assms(3)] .
  show "build_upgrade_request_sets_correct_headers b64 b64_decode sn base_mult rnd g"
  proof (rule transport_request_started [OF assms(2) [OF k(3,4)],
        of "''https://controlplane.tailscale.com''" b64])
    fix init_msg :: bytes
    assume l: "5 < length init_msg"
      and r: "fst (transport_upgrade_request b64 sn (NoiseHandshake_new (MachinePrivate ck)
          (MachinePublic (base_mult sk))) ''https://controlplane.tailscale.com'')
        = Inr \<lparr> upgrade_url = trim_end_matches (CHR ''/'') ''https://controlplane.tailscale.com''
                  @ TRANSPORT_UPGRADE_PATH,
                upgrade_headers = [(''Upgrade'', UPGRADE_HEADER_VALUE), (''Connection'', ''Upgrade''),
                  (''X-Tailscale-Handshake'', b64 init_msg)] \<rparr>"
    have b: "b64_decode (b64 init_msg) = Some init_msg \<and> (b64 init_msg = [] \<longleftrightarrow> init_msg = [])"
      using assms(1) unfolding base64_pair_def by (rule spec)
    from l have "init_msg \<noteq> []"
      by auto
    with b l show ?thesis
      unfolding build_upgrade_request_sets_correct_headers_def k MachinePrivate_public_key_def
        MachinePrivate.sel Let_def prod.case r sum.case
      by (simp add: test_urls TRANSPORT_UPGRADE_PATH_def UPGRADE_HEADER_VALUE_def test_url_ends)
  qed simp
  show "build_upgrade_request_strips_trailing_slash b64 sn base_mult rnd g"
    by (rule transport_request_started [OF assms(2) [OF k(3,4)],
          of "''https://controlplane.tailscale.com/''" b64])
       (simp_all add: build_upgrade_request_strips_trailing_slash_def k MachinePrivate_public_key_def
          Let_def test_urls TRANSPORT_UPGRADE_PATH_def)
qed

text \<open>A completed handshake gives a transport that seals a short message; the frame is longer by
  its header and tag.\<close>

lemma length_test_message: "length test_message = 20"
  by (simp add: test_message_def)

lemma send_encrypts_payload_passes:
  assumes "seals sn"
    and "\<And>ck sk. length ck = KEY_LEN \<Longrightarrow> length sk = KEY_LEN \<Longrightarrow> \<exists>t. test_handshake sn ck sk (base_mult sk) = Inr t
      \<and> is_ok (fst (send sn \<lparr> conn_noise = NoiseTransport_from_snow t \<rparr> test_message))"
    and "key_sized base_mult rnd"
  shows "send_encrypts_payload sn base_mult rnd g"
proof -
  obtain ck g1 sk g2 where k: "MachinePrivate_generate rnd g = (MachinePrivate ck, g1)"
    "MachinePrivate_generate rnd g1 = (MachinePrivate sk, g2)" "length ck = KEY_LEN" "length sk = KEY_LEN"
    using generated_pair [OF assms(3)] .
  obtain t frame conn' where t: "test_handshake sn ck sk (base_mult sk) = Inr t"
    and s: "send sn \<lparr> conn_noise = NoiseTransport_from_snow t \<rparr> test_message = (Inr frame, conn')"
    using assms(2) [OF k(3,4)] by (metis is_ok_iff prod.collapse)
  obtain nt' where "encrypt sn (NoiseTransport_from_snow t) test_message = (Inr frame, nt')"
    using s by (auto simp: send_def map_err_Inr_iff split: prod.splits)
  then obtain ct u where w: "snow_t_write sn t test_message 36 = (Inr ct, u)"
    and f: "frame = MSG_TYPE_TRANSPORT # be16_enc (length ct) @ ct"
    by (rule encrypt_Inr) (simp add: TAG_LEN_def NoiseTransport_from_snow_def length_test_message)
  have "length ct = 36"
    using assms(1) w unfolding seals_def by (fastforce simp: length_test_message)
  moreover have "length (be16_enc n) = 2" for n
    by (simp add: be16_enc_def u16_to_be_bytes_def)
  ultimately have "drop 3 frame = ct" "length frame = 39"
    by (simp_all add: f)
  moreover have "ct \<noteq> test_message"
    using \<open>length ct = 36\<close> by (auto simp: length_test_message)
  ultimately show ?thesis
    by (simp add: send_encrypts_payload_def k MachinePrivate_public_key_def t Let_def s length_test_message)
qed

section \<open>All unit tests\<close>

definition transport_tests ::
  "(bytes \<Rightarrow> string) \<Rightarrow> (string \<Rightarrow> bytes option) \<Rightarrow> ('h, 't, 'e, 'b, 'x) Snow_builder_scheme
     \<Rightarrow> (bytes \<Rightarrow> bytes) \<Rightarrow> 'g Key_rand \<Rightarrow> 'g \<Rightarrow> bool list" where
  "transport_tests b64 b64_decode sn base_mult rnd g =
     [build_upgrade_request_sets_correct_headers b64 b64_decode sn base_mult rnd g,
      build_upgrade_request_strips_trailing_slash b64 sn base_mult rnd g,
      send_encrypts_payload sn base_mult rnd g]"

text \<open>What \<^verbatim>\<open>snow\<close> does for any pair of private keys of 32 bytes: the handshake of the tests completes, and its
  transport seals the message the test sends.\<close>

definition completes_handshakes :: "('h, 't, 'e, 'b, 'x) Snow_builder_scheme \<Rightarrow> (bytes \<Rightarrow> bytes) \<Rightarrow> bool" where
  "completes_handshakes sn base_mult \<longleftrightarrow>
     (\<forall>ck sk. length ck = KEY_LEN \<and> length sk = KEY_LEN \<longrightarrow> starts_handshake sn ck (base_mult sk)
        \<and> (\<exists>t. test_handshake sn ck sk (base_mult sk) = Inr t \<and> is_ok (fst (snow_t_write sn t test_message 36))))"

lemma transport_tests_pass:
  fixes sn :: "('h, 't, 'e, 'b, 'x) Snow_builder_scheme"
  assumes "base64_pair b64 b64_decode" and "seals sn" and "completes_handshakes sn base_mult"
    and "key_sized base_mult rnd"
  shows "list_all (\<lambda>t. t) (transport_tests b64 b64_decode sn base_mult rnd g)"
proof -
  have s: "starts_handshake sn ck (base_mult sk)" if "length ck = KEY_LEN" "length sk = KEY_LEN" for ck sk
    using assms(3) that by (simp add: completes_handshakes_def)
  have sent: "\<exists>t. test_handshake sn ck sk (base_mult sk) = Inr t
      \<and> is_ok (fst (send sn \<lparr> conn_noise = NoiseTransport_from_snow t \<rparr> test_message))"
    if k: "length ck = KEY_LEN" "length sk = KEY_LEN" for ck sk
  proof -
    obtain t where t: "test_handshake sn ck sk (base_mult sk) = Inr t"
      and w: "is_ok (fst (snow_t_write sn t test_message 36))"
      using assms(3) k unfolding completes_handshakes_def by blast
    then obtain ct u where ct: "snow_t_write sn t test_message 36 = (Inr ct, u)"
      by (metis is_ok_iff prod.collapse)
    then have "length ct = 36"
      using assms(2) unfolding seals_def by (fastforce simp: length_test_message)
    with ct have "is_ok (fst (send sn \<lparr> conn_noise = NoiseTransport_from_snow t \<rparr> test_message))"
      by (simp add: send_def encrypt_def NoiseTransport_from_snow_def NoiseConfig_default_def
          config_constants length_test_message TAG_LEN_def u16_try_from_def Let_def)
    with t show ?thesis
      by blast
  qed
  have "build_upgrade_request_sets_correct_headers b64 b64_decode sn base_mult rnd g"
    by (rule build_upgrade_request_tests_pass(1) [OF assms(1) _ assms(4)]) (rule s)
  moreover have "build_upgrade_request_strips_trailing_slash b64 sn base_mult rnd g"
    by (rule build_upgrade_request_tests_pass(2) [OF assms(1) _ assms(4)]) (rule s)
  moreover have "send_encrypts_payload sn base_mult rnd g"
    by (rule send_encrypts_payload_passes [OF assms(2) _ assms(4)]) (rule sent)
  ultimately show ?thesis
    by (simp add: transport_tests_def)
qed

definition unit_tests ::
  "(bytes \<Rightarrow> string) \<Rightarrow> (string \<Rightarrow> bytes option) \<Rightarrow> ('h, 't, 'e, 'b, 'x) Snow_builder_scheme
     \<Rightarrow> (bytes \<Rightarrow> bytes) \<Rightarrow> 'g Key_rand \<Rightarrow> 'g \<Rightarrow> bool list" where
  "unit_tests b64 b64_decode sn base_mult rnd g =
     key_tests base_mult rnd g @ capability_tests @ register_tests @ validate_tests
     @ transport_tests b64 b64_decode sn base_mult rnd g"

definition sample_rand :: "nat Key_rand" where
  "sample_rand = \<lparr> rand_key = (\<lambda>g. (replicate 32 (of_nat g), Suc g)),
     static_secret = (\<lambda>bs. if length bs = 32 then bs else replicate 32 0) \<rparr>"

lemma mock_builder_write: "snow_t_write mock_builder = snow_t_write mock_snow"
  by (simp add: mock_builder_def Snow_lib.defs Snow_builder.defs)

lemma mock_builder_handshake: "test_handshake mock_builder ck sk pk = Inr 0"
  by (simp add: test_handshake_def Let_def) (simp add: mock_snow_def)

lemma mock_builder_completes: "completes_handshakes mock_builder base_mult"
  by (simp add: completes_handshakes_def starts_handshake_def mock_builder_handshake mock_builder_write)
     (simp add: mock_snow_def length_test_message)

text \<open>
  The model passes the inline tests of \<^verbatim>\<open>keys.rs\<close>, \<^verbatim>\<open>capability.rs\<close>, \<^verbatim>\<open>register.rs\<close>,
  \<^verbatim>\<open>validate.rs\<close> and \<^verbatim>\<open>transport.rs\<close>, all of them but the one that two random keys differ, with every
  random source and every base-point multiplication of the right sizes, every base64 coder, and
  every Noise library that completes handshakes between 32-byte keys and appends a 16-byte tag. The
  property tests and the test files beside the modules are not among them.
\<close>

lemma unit_tests_pass:
  assumes "key_sized base_mult rnd" and "base64_pair b64 b64_decode"
    and "seals sn" and "completes_handshakes sn base_mult"
  shows "list_all (\<lambda>t. t) (unit_tests b64 b64_decode sn base_mult rnd g)"
  using key_tests_pass [OF assms(1)] capability_tests_pass register_tests_pass validate_tests_pass
    transport_tests_pass [OF assms(2-4,1)]
  by (simp only: unit_tests_def list_all_append simp_thms)

lemma unit_tests_sample:
  "list_all (\<lambda>t. t) (unit_tests str_of_bytes (\<lambda>s. Some (as_bytes s)) mock_builder
     (\<lambda>_. replicate 32 7) sample_rand 0)"
proof (rule unit_tests_pass)
  show "key_sized (\<lambda>_. replicate 32 7) sample_rand"
    by (simp add: key_sized_def sample_rand_def KEY_LEN_def)
  show "base64_pair str_of_bytes (\<lambda>s. Some (as_bytes s))"
    by (simp add: base64_pair_def) (simp add: str_of_bytes_def)
  show "seals mock_builder"
    using mock_seals by (simp add: seals_def mock_builder_write)
  show "completes_handshakes mock_builder (\<lambda>_. replicate 32 7)"
    by (rule mock_builder_completes)
qed

end
