(* ===== verification/Config_Serde.thy ===== *)
theory Config_Serde
  imports Config Serde_Json Rust_Str
begin

text \<open>
  Loading and storing the configuration (\<^verbatim>\<open>crates/mitos/src/config/mod.rs\<close>): the derived
  serializers of the three structs, the derived deserializers of the mirror structs, which deny
  undeclared keys, and the validated conversions the public structs are read through. A key of
  the top-level struct that is absent takes its default.
\<close>

section \<open>Serializers\<close>

definition WireConfig_ser :: "WireConfig \<Rightarrow> json" where
  "WireConfig_ser c =
     JObject (emit
       [(''max_header_bytes'', Some (ser_u64 (max_header_bytes c))),
        (''key_response_body_multiplier'', Some (ser_u64 (key_response_body_multiplier c))),
        (''header_read_initial_capacity'', Some (ser_u64 (header_read_initial_capacity c))),
        (''response_read_chunk_bytes'', Some (ser_u64 (response_read_chunk_bytes c))),
        (''connect_timeout_ms'', Some (ser_u64 (connect_timeout_ms c)))])"

definition NoiseConfig_ser :: "NoiseConfig \<Rightarrow> json" where
  "NoiseConfig_ser c =
     JObject (emit
       [(''max_frame_payload'', Some (ser_u64 (max_frame_payload c))),
        (''handshake_scratch_bytes'', Some (ser_u64 (handshake_scratch_bytes c)))])"

definition Config_ser :: "HammaConfig \<Rightarrow> json" where
  "Config_ser c =
     JObject (emit
       [(''wire'', Some (WireConfig_ser (config_wire c))),
        (''noise'', Some (NoiseConfig_ser (config_noise c)))])"

section \<open>Deserializers\<close>

definition WireConfigFields_fields :: "Field list" where
  "WireConfigFields_fields =
     [field_of ''max_header_bytes'' de_usize,
      field_of ''key_response_body_multiplier'' de_usize,
      field_of ''header_read_initial_capacity'' de_usize,
      field_of ''response_read_chunk_bytes'' de_usize,
      default_field ''connect_timeout_ms'' de_u64]"

definition WireConfigFields_de :: "WireConfigFields decoder" where
  "WireConfigFields_de j =
     bind_r (visit_struct ''WireConfigFields'' True WireConfigFields_fields j) (\<lambda>m.
     bind_r (required m ''max_header_bytes'' de_usize) (\<lambda>v0.
     bind_r (required m ''key_response_body_multiplier'' de_usize) (\<lambda>v1.
     bind_r (required m ''header_read_initial_capacity'' de_usize) (\<lambda>v2.
     bind_r (required m ''response_read_chunk_bytes'' de_usize) (\<lambda>v3.
     bind_r (defaulted m ''connect_timeout_ms'' default_connect_timeout_ms de_u64) (\<lambda>v4.
     Inr \<lparr> f_max_header_bytes = v0, f_key_response_body_multiplier = v1,
           f_header_read_initial_capacity = v2, f_response_read_chunk_bytes = v3,
           f_connect_timeout_ms = v4 \<rparr>))))))"

definition NoiseConfigFields_fields :: "Field list" where
  "NoiseConfigFields_fields =
     [field_of ''max_frame_payload'' de_usize,
      field_of ''handshake_scratch_bytes'' de_usize]"

definition NoiseConfigFields_de :: "NoiseConfigFields decoder" where
  "NoiseConfigFields_de j =
     bind_r (visit_struct ''NoiseConfigFields'' True NoiseConfigFields_fields j) (\<lambda>m.
     bind_r (required m ''max_frame_payload'' de_usize) (\<lambda>v0.
     bind_r (required m ''handshake_scratch_bytes'' de_usize) (\<lambda>v1.
     Inr \<lparr> f_max_frame_payload = v0, f_handshake_scratch_bytes = v1 \<rparr>)))"

fun ConfigError_display :: "ConfigError \<Rightarrow> string" where
  "ConfigError_display (OutOfRange field mn mx v) =
     field @ '' must be in ['' @ show_nat (unat mn) @ '', '' @ show_nat (unat mx) @ ''], got ''
     @ show_nat (unat v)"

text \<open>\<^verbatim>\<open>serde(try_from = ...)\<close>: the error of the conversion becomes a custom error.\<close>

definition WireConfig_de :: "WireConfig decoder" where
  "WireConfig_de j =
     bind_r (WireConfigFields_de j) (\<lambda>f.
     map_err (\<lambda>e. Custom (ConfigError_display e)) (WireConfig_try_from f))"

definition NoiseConfig_de :: "NoiseConfig decoder" where
  "NoiseConfig_de j =
     bind_r (NoiseConfigFields_de j) (\<lambda>f.
     map_err (\<lambda>e. Custom (ConfigError_display e)) (NoiseConfig_try_from f))"

definition Config_fields :: "Field list" where
  "Config_fields = [default_field ''wire'' WireConfig_de, default_field ''noise'' NoiseConfig_de]"

definition Config_de :: "HammaConfig decoder" where
  "Config_de j =
     bind_r (visit_struct ''Config'' True Config_fields j) (\<lambda>m.
     bind_r (defaulted m ''wire'' (config_wire Config_default) WireConfig_de) (\<lambda>v0.
     bind_r (defaulted m ''noise'' (config_noise Config_default) NoiseConfig_de) (\<lambda>v1.
     Inr \<lparr> config_wire = v0, config_noise = v1 \<rparr>)))"

section \<open>The structs as codecs\<close>

lemma WireConfigFields_de_ser:
  "WireConfigFields_de (WireConfig_ser c) =
     Inr \<lparr> f_max_header_bytes = max_header_bytes c,
           f_key_response_body_multiplier = key_response_body_multiplier c,
           f_header_read_initial_capacity = header_read_initial_capacity c,
           f_response_read_chunk_bytes = response_read_chunk_bytes c,
           f_connect_timeout_ms = connect_timeout_ms c \<rparr>"
  by (simp add: WireConfigFields_de_def WireConfig_ser_def WireConfigFields_fields_def
      struct_roundtrip u64_codec.emitted usize_codec.emitted)

lemma NoiseConfigFields_de_ser:
  "NoiseConfigFields_de (NoiseConfig_ser c) =
     Inr \<lparr> f_max_frame_payload = max_frame_payload c,
           f_handshake_scratch_bytes = handshake_scratch_bytes c \<rparr>"
  by (simp add: NoiseConfigFields_de_def NoiseConfig_ser_def NoiseConfigFields_fields_def
      struct_roundtrip u64_codec.emitted usize_codec.emitted)

lemma WireConfig_de_ok: "WireConfig_de j = Inr c \<Longrightarrow> wire_in_range c"
  by (auto simp: WireConfig_de_def bind_r_Inr_iff map_err_Inr_iff wire_struct.convert_Inr_iff)

lemma NoiseConfig_de_ok: "NoiseConfig_de j = Inr c \<Longrightarrow> noise_in_range c"
  by (auto simp: NoiseConfig_de_def bind_r_Inr_iff map_err_Inr_iff noise_struct.convert_Inr_iff)

lemma WireConfig_de_ser: "wire_in_range c \<Longrightarrow> WireConfig_de (WireConfig_ser c) = Inr c"
  by (simp add: WireConfig_de_def WireConfigFields_de_ser map_err_Inr_iff
      wire_struct.convert_Inr_iff WireConfig_of_fields_def)

lemma NoiseConfig_de_ser: "noise_in_range c \<Longrightarrow> NoiseConfig_de (NoiseConfig_ser c) = Inr c"
  by (simp add: NoiseConfig_de_def NoiseConfigFields_de_ser map_err_Inr_iff
      noise_struct.convert_Inr_iff NoiseConfig_of_fields_def)

interpretation wire_codec: codec WireConfig_de wire_in_range WireConfig_ser
  by unfold_locales (simp_all add: WireConfig_de_ok WireConfig_de_ser, simp add: WireConfig_ser_def)

interpretation noise_codec: codec NoiseConfig_de noise_in_range NoiseConfig_ser
  by unfold_locales (simp_all add: NoiseConfig_de_ok NoiseConfig_de_ser, simp add: NoiseConfig_ser_def)

definition config_in_range :: "HammaConfig \<Rightarrow> bool" where
  "config_in_range c \<longleftrightarrow> wire_in_range (config_wire c) \<and> noise_in_range (config_noise c)"

lemma config_validate_iff: "Config_validate c = Inr () \<longleftrightarrow> config_in_range c"
  by (auto simp: Config_validate_def config_in_range_def bind_r_Inr_iff wire_validate_iff noise_validate_iff)

lemma default_in_range: "wire_in_range WireConfig_default" "noise_in_range NoiseConfig_default"
  by (simp_all add: wire_in_range_def noise_in_range_def WireConfig_default_def
      NoiseConfig_default_def config_constants)

lemma Config_de_ok: "Config_de j = Inr c \<Longrightarrow> config_in_range c"
  by (auto simp: Config_de_def Config_default_def config_in_range_def bind_r_Inr_iff default_in_range
      dest: wire_codec.defaulted_ok noise_codec.defaulted_ok)

lemma Config_de_ser: "config_in_range c \<Longrightarrow> Config_de (Config_ser c) = Inr c"
  by (simp add: Config_de_def Config_ser_def Config_fields_def config_in_range_def struct_roundtrip
      wire_codec.emitted noise_codec.emitted)

interpretation config_codec: codec Config_de config_in_range Config_ser
  by unfold_locales (simp_all add: Config_de_ok Config_de_ser, simp add: Config_ser_def)

lemma struct_denied_key:
  "k \<notin> names_of fs \<Longrightarrow> \<exists>e. visit_struct name True fs (JObject (xs @ (k, v) # ys)) = Inl e"
  by (simp add: visit_struct_def visit_map_denied)

section \<open>Properties\<close>

text \<open>
  Claim C15. A configuration survives being stored and loaded exactly when it is valid, and nothing
  that loads is invalid, whatever the document.
\<close>

theorem config_store_load:
  "(Config_de (Config_ser c) = Inr c \<longleftrightarrow> Config_validate c = Inr ())
   \<and> (Config_de j = Inr c' \<longrightarrow> Config_validate c' = Inr ())"
  using Config_de_ser Config_de_ok by (auto simp: config_validate_iff)

theorem config_store_load_witness:
  "Config_de (JObject []) = Inr Config_default \<and> Config_validate Config_default = Inr ()"
proof -
  have "Config_de (JObject []) = Inr Config_default"
    by (simp add: Config_de_def visit_struct_def defaulted_def)
  with conjunct2 [OF config_store_load, of "JObject []" Config_default] show ?thesis
    by simp
qed

lemma absent_tables:
  "Config_de (JObject []) = Inr Config_default"
  "Config_de (JObject [(''wire'', j)]) = bind_r (WireConfig_de j) (\<lambda>w. Inr (Config_default\<lparr> config_wire := w \<rparr>))"
  "Config_de (JObject [(''noise'', j)]) = bind_r (NoiseConfig_de j) (\<lambda>n. Inr (Config_default\<lparr> config_noise := n \<rparr>))"
proof -
  show "Config_de (JObject []) = Inr Config_default"
    by (simp add: Config_de_def visit_struct_def defaulted_def)
  show "Config_de (JObject [(''wire'', j)]) = bind_r (WireConfig_de j) (\<lambda>w. Inr (Config_default\<lparr> config_wire := w \<rparr>))"
    by (cases "WireConfig_de j")
       (simp_all add: Config_de_def Config_fields_def visit_struct_def defaulted_def decode_error_def default_field_def)
  show "Config_de (JObject [(''noise'', j)]) = bind_r (NoiseConfig_de j) (\<lambda>n. Inr (Config_default\<lparr> config_noise := n \<rparr>))"
    by (cases "NoiseConfig_de j")
       (simp_all add: Config_de_def Config_fields_def visit_struct_def defaulted_def decode_error_def default_field_def)
qed

text \<open>
  Claim C39. Which keys a configuration may have. An undeclared key, wherever it stands, is an error in the
  configuration and in its wire and its noise table, whatever the other entries are. A table that is absent
  takes its defaults and leaves the other as written, and a wire table stored before the connect timeout
  existed loads as if it held the default timeout.
\<close>

theorem config_keys:
  assumes "k \<notin> {''wire'', ''noise''}"
    and "kw \<notin> {''max_header_bytes'', ''key_response_body_multiplier'', ''header_read_initial_capacity'',
               ''response_read_chunk_bytes'', ''connect_timeout_ms''}"
    and "kn \<notin> {''max_frame_payload'', ''handshake_scratch_bytes''}"
  shows "(\<exists>e. Config_de (JObject (xs @ (k, v) # ys)) = Inl e)
    \<and> (\<exists>e. WireConfig_de (JObject (xs @ (kw, v) # ys)) = Inl e)
    \<and> (\<exists>e. NoiseConfig_de (JObject (xs @ (kn, v) # ys)) = Inl e)
    \<and> Config_de (JObject []) = Inr Config_default
    \<and> Config_de (JObject [(''wire'', j)]) = bind_r (WireConfig_de j) (\<lambda>w. Inr (Config_default\<lparr> config_wire := w \<rparr>))
    \<and> Config_de (JObject [(''noise'', j)]) = bind_r (NoiseConfig_de j) (\<lambda>n. Inr (Config_default\<lparr> config_noise := n \<rparr>))
    \<and> WireConfig_de (JObject (emit
         [(''max_header_bytes'', Some (ser_u64 a)), (''key_response_body_multiplier'', Some (ser_u64 b)),
          (''header_read_initial_capacity'', Some (ser_u64 c)),
          (''response_read_chunk_bytes'', Some (ser_u64 d)), (''connect_timeout_ms'', None)]))
      = WireConfig_de (WireConfig_ser
          \<lparr> max_header_bytes = a, key_response_body_multiplier = b, header_read_initial_capacity = c,
            response_read_chunk_bytes = d, connect_timeout_ms = 10000 \<rparr>)"
proof (intro conjI absent_tables)
  have "k \<notin> names_of Config_fields" "kw \<notin> names_of WireConfigFields_fields" "kn \<notin> names_of NoiseConfigFields_fields"
    using assms by (simp_all add: Config_fields_def WireConfigFields_fields_def NoiseConfigFields_fields_def)
  then obtain e ew en where
    "visit_struct ''Config'' True Config_fields (JObject (xs @ (k, v) # ys)) = Inl e"
    "visit_struct ''WireConfigFields'' True WireConfigFields_fields (JObject (xs @ (kw, v) # ys)) = Inl ew"
    "visit_struct ''NoiseConfigFields'' True NoiseConfigFields_fields (JObject (xs @ (kn, v) # ys)) = Inl en"
    using struct_denied_key by metis
  then show "\<exists>e. Config_de (JObject (xs @ (k, v) # ys)) = Inl e"
    and "\<exists>e. WireConfig_de (JObject (xs @ (kw, v) # ys)) = Inl e"
    and "\<exists>e. NoiseConfig_de (JObject (xs @ (kn, v) # ys)) = Inl e"
    by (simp_all add: Config_de_def WireConfig_de_def WireConfigFields_de_def NoiseConfig_de_def NoiseConfigFields_de_def)
qed (simp add: WireConfig_de_def WireConfigFields_de_def WireConfig_ser_def WireConfigFields_fields_def
    struct_roundtrip u64_codec.emitted usize_codec.emitted u64_codec.dec_enc defaulted_def default_connect_timeout_ms_def
    DEFAULT_CONNECT_TIMEOUT_MS_def)

theorem config_keys_witness:
  "\<exists>e. Config_de (JObject [(''wires'', JNull)]) = Inl e"
  using conjunct1 [OF config_keys [of "''wires''" "''x''" "''y''" "[]" JNull "[]"]] by simp

end
