(* ===== verification/Netmap_Log.thy ===== *)
theory Netmap_Log
  imports Control
begin

text \<open>
  The log of the network map (\<^verbatim>\<open>crates/dictyon/src/control/netmap.rs\<close>): the same operations as in
  \<open>Netmap\<close>, returning the new state together with the warnings the code writes, with the counters
  and differences their fields show. The lemmas prove that logging never changes the map, that
  an update is quiet exactly when no check and no cap discarded anything, that a quiet update is the
  merge of the whole response less the values the code ignores by design, and that the numbers are exact.
\<close>

section \<open>Lists and resolvers\<close>

text \<open>\<^verbatim>\<open>let before = xs.len(); xs.retain(P); if xs.len() < before { warn!(..) }\<close>, which the
  source writes for the initial peers, for a replacing peer list and for the resolvers.\<close>

definition retain_log :: "('a \<Rightarrow> bool) \<Rightarrow> string \<Rightarrow> 'a list \<Rightarrow> 'a list logged" where
  "retain_log P msg xs =
     (let before = length xs; xs' = filter P xs in
      (xs', if length xs' < before
            then [LogLine Warn [(''rejected'', show_nat (before - length xs'))] msg] else []))"

definition cap_peers_log :: "Node list \<Rightarrow> Node list logged" where
  "cap_peers_log ps =
     (if MAX_PEERS < length ps then
        let dropped = length ps - MAX_PEERS in
        (take MAX_PEERS ps,
         [LogLine Warn [(''cap'', show_nat MAX_PEERS), (''dropped'', show_nat dropped)]
            ''map response exceeded the peer cap; dropped the excess peers''])
      else (ps, []))"

definition sanitize_dns_config_log :: "DnsConfig \<Rightarrow> DnsConfig logged" where
  "sanitize_dns_config_log dns =
     (case resolvers dns of
        None \<Rightarrow> (dns, [])
      | Some rs \<Rightarrow>
          let (rs', l) = retain_log dns_resolver_is_valid
                ''rejected malformed DNS resolver addresses in a map response'' rs in
          (dns\<lparr> resolvers := Some rs' \<rparr>, l))"

section \<open>Full responses\<close>

definition from_full_response_log :: "MapResponse \<Rightarrow> Netmap logged" where
  "from_full_response_log resp =
     (let (sn, l1) =
            (case resp_node resp of
               None \<Rightarrow> (zero_value_node, [])
             | Some n \<Rightarrow>
                 if node_is_valid n then (n, [])
                 else (zero_value_node,
                       [LogLine Warn [(''node_id'', show_int (node_id n))]
                          ''rejected malformed self node in initial map response'']));
          (ps, l2) = retain_log node_is_valid ''rejected malformed peers in the initial map response''
            (case resp_peers resp of None \<Rightarrow> [] | Some ps \<Rightarrow> ps);
          (ps', l3) = cap_peers_log ps;
          (dns, l4) =
            (case resp_dns_config resp of
               None \<Rightarrow> (None, [])
             | Some d \<Rightarrow> let (d', l) = sanitize_dns_config_log d in (Some d', l)) in
      (\<lparr> self_node = sn, peers = ps', dns_config = dns, derp_map = resp_derp_map resp \<rparr>,
       l1 @ l2 @ l3 @ l4))"

section \<open>Deltas\<close>

definition delta_self_log :: "MapResponse \<Rightarrow> Netmap \<Rightarrow> Netmap logged" where
  "delta_self_log resp nm =
     (case resp_node resp of
        None \<Rightarrow> (nm, [])
      | Some n \<Rightarrow>
          if node_is_valid n then (nm\<lparr> self_node := n \<rparr>, [])
          else (nm, [LogLine Warn [(''node_id'', show_int (node_id n))]
                       ''rejected malformed self node update'']))"

definition delta_peers_log :: "MapResponse \<Rightarrow> Netmap \<Rightarrow> Netmap logged" where
  "delta_peers_log resp nm =
     (case resp_peers resp of
        None \<Rightarrow> (nm, [])
      | Some ps \<Rightarrow>
          let (ps1, l1) = retain_log node_is_valid
                ''rejected malformed peers in a full peer-list replacement'' ps;
              (ps2, l2) = cap_peers_log ps1 in
          (nm\<lparr> peers := ps2 \<rparr>, l1 @ l2))"

text \<open>One iteration of the loop over \<^verbatim>\<open>peers_changed\<close>, on the peers and the two counters.\<close>

definition change_peer_count :: "Node \<Rightarrow> Node list \<times> nat \<times> nat \<Rightarrow> Node list \<times> nat \<times> nat" where
  "change_peer_count n = (\<lambda>(ps, refused, rejected).
     if \<not> node_is_valid n then (ps, refused, rejected + 1)
     else if \<exists>p\<in>set ps. node_key p = node_key n
       then (update_first (\<lambda>p. node_key p = node_key n) (\<lambda>_. n) ps, refused, rejected)
     else if length ps < MAX_PEERS then (ps @ [n], refused, rejected)
     else (ps, refused + 1, rejected))"

definition delta_changed_log :: "MapResponse \<Rightarrow> Netmap \<Rightarrow> Netmap logged" where
  "delta_changed_log resp nm =
     (case peers_changed resp of
        None \<Rightarrow> (nm, [])
      | Some ns \<Rightarrow>
          let (ps, refused, rejected) = fold change_peer_count ns (peers nm, 0, 0) in
          (nm\<lparr> peers := ps \<rparr>,
           (if 0 < refused then
              [LogLine Warn [(''cap'', show_nat MAX_PEERS), (''refused'', show_nat refused)]
                 ''netmap is at the peer cap; refused new peers from a map response''] else [])
           @ (if 0 < rejected then
              [LogLine Warn [(''rejected'', show_nat rejected)]
                 ''rejected malformed peers from a map response delta''] else [])))"

definition delta_dns_log :: "MapResponse \<Rightarrow> Netmap \<Rightarrow> Netmap logged" where
  "delta_dns_log resp nm =
     (case resp_dns_config resp of
        None \<Rightarrow> (nm, [])
      | Some dns \<Rightarrow>
          let (dns', l) = sanitize_dns_config_log dns in (nm\<lparr> dns_config := Some dns' \<rparr>, l))"

section \<open>Patches\<close>

text \<open>The three steps of a patch that check their value and log a refusal; the others are silent.\<close>

definition patch_endpoints_log :: "PeerChange \<Rightarrow> Node \<Rightarrow> Node logged" where
  "patch_endpoints_log ch p =
     (case option_filter (\<lambda>es. es \<noteq> []) (change_endpoints ch) of
        None \<Rightarrow> (p, [])
      | Some es \<Rightarrow>
          if endpoints_are_valid es then (p\<lparr> node_endpoints := Some es \<rparr>, [])
          else (p, [LogLine Warn [(''node_id'', show_int (node_id p))]
                      ''rejected malformed endpoints in a peer patch'']))"

definition patch_key_log :: "PeerChange \<Rightarrow> Node \<Rightarrow> Node logged" where
  "patch_key_log ch p =
     (case change_key ch of
        None \<Rightarrow> (p, [])
      | Some k \<Rightarrow>
          if is_valid_node_key k then (p\<lparr> node_key := k \<rparr>, [])
          else (p, [LogLine Warn [(''node_id'', show_int (node_id p))]
                      ''rejected malformed key in a peer patch'']))"

definition patch_disco_key_log :: "PeerChange \<Rightarrow> Node \<Rightarrow> Node logged" where
  "patch_disco_key_log ch p =
     (case change_disco_key ch of
        None \<Rightarrow> (p, [])
      | Some k \<Rightarrow>
          if is_valid_disco_key k then (p\<lparr> node_disco_key := Some k \<rparr>, [])
          else (p, [LogLine Warn [(''node_id'', show_int (node_id p))]
                      ''rejected malformed disco_key in a peer patch'']))"

definition patch_peer_log :: "PeerChange \<Rightarrow> Node \<Rightarrow> Node logged" where
  "patch_peer_log ch p =
     log_then (patch_endpoints_log ch (patch_cap ch (patch_derp ch p))) (\<lambda>p.
     log_then (patch_key_log ch p) (\<lambda>p.
     log_then (patch_disco_key_log ch p) (\<lambda>p.
     (patch_key_expiry ch (patch_last_seen ch (patch_online ch p)), []))))"

definition apply_peer_change_log :: "PeerChange \<Rightarrow> Node list \<Rightarrow> Node list logged" where
  "apply_peer_change_log ch ps =
     (case find (\<lambda>p. node_id p = change_node_id ch) ps of
        None \<Rightarrow> (ps, [])
      | Some p \<Rightarrow>
          let (p', l) = patch_peer_log ch p in
          (update_first (\<lambda>p. node_id p = change_node_id ch) (\<lambda>_. p') ps, l))"

fun apply_patches_log :: "PeerChange list \<Rightarrow> Node list \<Rightarrow> Node list logged" where
  "apply_patches_log [] ps = (ps, [])"
| "apply_patches_log (ch # chs) ps = log_then (apply_peer_change_log ch ps) (apply_patches_log chs)"

definition delta_patch_log :: "MapResponse \<Rightarrow> Netmap \<Rightarrow> Netmap logged" where
  "delta_patch_log resp nm =
     (case peers_changed_patch resp of
        None \<Rightarrow> (nm, [])
      | Some chs \<Rightarrow> let (ps, l) = apply_patches_log chs (peers nm) in (nm\<lparr> peers := ps \<rparr>, l))"

definition apply_delta_log :: "MapResponse \<Rightarrow> Netmap \<Rightarrow> Netmap logged" where
  "apply_delta_log resp nm =
     log_then (delta_self_log resp nm) (\<lambda>nm.
     log_then (delta_peers_log resp nm) (\<lambda>nm.
     log_then (delta_changed_log resp nm) (\<lambda>nm.
     log_then (delta_removed resp nm, []) (\<lambda>nm.
     log_then (delta_patch_log resp nm) (\<lambda>nm.
     log_then (delta_dns_log resp nm) (\<lambda>nm.
     (delta_derp resp nm, [])))))))"

definition apply_map_response_log :: "MapResponse \<Rightarrow> 't ControlClient \<Rightarrow> 't ControlClient logged" where
  "apply_map_response_log resp self =
     (if keep_alive resp = Some True then (self, [])
      else
        (case client_netmap self of
           None \<Rightarrow> let (nm, l) = from_full_response_log resp in (self\<lparr> client_netmap := Some nm \<rparr>, l)
         | Some nm \<Rightarrow> let (nm', l) = apply_delta_log resp nm in (self\<lparr> client_netmap := Some nm' \<rparr>, l)))"

section \<open>Logging never changes the map\<close>

lemma fst_retain_log [simp]: "fst (retain_log P msg xs) = filter P xs"
  by (simp add: retain_log_def Let_def)

lemma snd_retain_log:
  "snd (retain_log P msg xs) =
     (if list_all P xs then [] else
      [LogLine Warn [(''rejected'', show_nat (length (filter (\<lambda>x. \<not> P x) xs)))] msg])"
proof -
  have "length xs = length (filter P xs) + length (filter (\<lambda>x. \<not> P x) xs)"
    by (simp add: sum_length_filter_compl)
  moreover have "list_all P xs \<longleftrightarrow> filter (\<lambda>x. \<not> P x) xs = []"
    by (simp add: filter_empty_conv list_all_iff)
  ultimately show ?thesis
    by (simp add: retain_log_def Let_def)
qed

lemma fst_cap_peers_log [simp]: "fst (cap_peers_log ps) = cap_peers ps"
  by (simp add: cap_peers_log_def cap_peers_def Let_def)

lemma snd_cap_peers_log:
  "snd (cap_peers_log ps) =
     (if length ps \<le> MAX_PEERS then [] else
      [LogLine Warn [(''cap'', show_nat MAX_PEERS), (''dropped'', show_nat (length ps - MAX_PEERS))]
         ''map response exceeded the peer cap; dropped the excess peers''])"
  by (simp add: cap_peers_log_def Let_def)

lemma fst_sanitize_log [simp]: "fst (sanitize_dns_config_log d) = sanitize_dns_config d"
  by (simp add: sanitize_dns_config_log_def sanitize_dns_config_def split: option.split prod.split)
     (metis fst_conv fst_retain_log)



section \<open>The two counters\<close>

context bounded_store
begin

lemma fold_put_keeps: "look s k \<noteq> None \<Longrightarrow> look (fold put vs s) k \<noteq> None"
  by (simp add: fold_put_held map_add_def split: option.split)

text \<open>Whether an accepted value was refused can be read off the final store: a key that was
  refused stays absent, a key that was stored stays held.\<close>

lemma refused_iff_absent:
  assumes "accept v"
  shows "look (fold put vs (put v s)) (key v) = None \<longleftrightarrow> look s (key v) = None \<and> cap \<le> count s"
proof (cases "look s (key v)")
  case None
  show ?thesis
  proof (cases "cap \<le> count s")
    case True
    with None show ?thesis
      by (simp add: put_full fold_put_full)
  next
    case False
    with None assms have "look (put v s) (key v) \<noteq> None"
      by (simp add: put_new)
    with False show ?thesis
      using fold_put_keeps by blast
  qed
next
  case (Some w)
  with assms have "look (put v s) (key v) \<noteq> None"
    by (simp add: put_held)
  with Some show ?thesis
    using fold_put_keeps by (metis option.distinct(1))
qed

end

definition refused_nodes :: "Node list \<Rightarrow> Node list \<Rightarrow> Node list" where
  "refused_nodes ns ps = filter (\<lambda>n. node_is_valid n \<and> lookup_peer ps (node_key n) = None) ns"

definition rejected_nodes :: "Node list \<Rightarrow> Node list" where
  "rejected_nodes ns = filter (\<lambda>n. \<not> node_is_valid n) ns"

lemma change_peer_count_step:
  "change_peer_count n (ps, a, b) =
     (change_peer n ps,
      if node_is_valid n \<and> lookup_peer ps (node_key n) = None \<and> MAX_PEERS \<le> length ps then a + 1 else a,
      if node_is_valid n then b else b + 1)"
  by (auto simp: change_peer_count_def change_peer_def lookup_peer_None_iff)

lemma fold_change_peer_count:
  "fold change_peer_count ns (ps, a, b) =
     (fold change_peer ns ps,
      a + length (refused_nodes ns (fold change_peer ns ps)), b + length (rejected_nodes ns))"
proof (induction ns arbitrary: ps a b)
  case Nil
  then show ?case by (simp add: refused_nodes_def rejected_nodes_def)
next
  case (Cons n ns)
  show ?case
    using Cons.IH peer_store.refused_iff_absent [of n ns ps]
    by (auto simp: change_peer_count_step refused_nodes_def rejected_nodes_def)
qed

text \<open>What the loop over \<^verbatim>\<open>peers_changed\<close> logs, from the list sent and the map it leaves.\<close>

lemma delta_changed_log_eq:
  "delta_changed_log resp nm =
     (delta_changed resp nm,
      case peers_changed resp of
        None \<Rightarrow> []
      | Some ns \<Rightarrow>
          let refused = refused_nodes ns (peers (delta_changed resp nm)); rejected = rejected_nodes ns in
          (if refused = [] then [] else
             [LogLine Warn [(''cap'', show_nat MAX_PEERS), (''refused'', show_nat (length refused))]
                ''netmap is at the peer cap; refused new peers from a map response''])
          @ (if rejected = [] then [] else
             [LogLine Warn [(''rejected'', show_nat (length rejected))]
                ''rejected malformed peers from a map response delta'']))"
  by (simp add: delta_changed_log_def delta_changed_def fold_change_peer_count Let_def split: option.split)

section \<open>Clean responses\<close>













text \<open>The steps of a patch, and the node id their log lines show.\<close>

definition patch_line :: "i64 \<Rightarrow> string \<Rightarrow> LogLine" where
  "patch_line i what =
     LogLine Warn [(''node_id'', show_int i)] (''rejected malformed '' @ what @ '' in a peer patch'')"

lemma patch_steps_log:
  "patch_endpoints_log ch p = (patch_endpoints ch p,
     if is_none_or (change_endpoints ch) endpoints_are_valid then [] else [patch_line (node_id p) ''endpoints''])"
  "patch_key_log ch p = (patch_key ch p,
     if is_none_or (change_key ch) is_valid_node_key then [] else [patch_line (node_id p) ''key''])"
  "patch_disco_key_log ch p = (patch_disco_key ch p,
     if is_none_or (change_disco_key ch) is_valid_disco_key then [] else [patch_line (node_id p) ''disco_key''])"
  by (auto simp: patch_endpoints_log_def patch_endpoints_def patch_key_log_def patch_key_def
      patch_disco_key_log_def patch_disco_key_def patch_line_def option_filter_def endpoints_are_valid_def
      split: option.split)

definition patch_lines :: "PeerChange \<Rightarrow> LogLine list" where
  "patch_lines ch =
     (if is_none_or (change_endpoints ch) endpoints_are_valid then []
      else [patch_line (change_node_id ch) ''endpoints''])
     @ (if is_none_or (change_key ch) is_valid_node_key then []
        else [patch_line (change_node_id ch) ''key''])
     @ (if is_none_or (change_disco_key ch) is_valid_disco_key then []
        else [patch_line (change_node_id ch) ''disco_key''])"


lemma patch_step_ids [simp]:
  "node_id (patch_derp ch p) = node_id p"
  "node_id (patch_cap ch p) = node_id p"
  "node_id (patch_endpoints ch p) = node_id p"
  "node_id (patch_key ch p) = node_id p"
  by (simp_all add: patch_steps)

lemma patch_peer_log_eq:
  "node_id p = change_node_id ch \<Longrightarrow> patch_peer_log ch p = (patch_peer ch p, patch_lines ch)"
  by (rule prod_eqI)
     (simp_all add: patch_peer_log_def patch_steps_log patch_peer_def patch_lines_def)

lemma update_first_found:
  "find P xs = Some x \<Longrightarrow> update_first P (\<lambda>_. f x) xs = update_first P f xs"
  by (induction xs) (auto split: if_splits)

lemma apply_peer_change_log_eq:
  "apply_peer_change_log ch ps =
     (apply_peer_change ps ch, if change_node_id ch \<in> node_id ` set ps then patch_lines ch else [])"
proof (cases "find (\<lambda>p. node_id p = change_node_id ch) ps")
  case None
  then have "\<not> (\<exists>p\<in>set ps. node_id p = change_node_id ch)"
    by (simp add: find_None_iff)
  with None show ?thesis
    by (auto simp: apply_peer_change_log_def apply_peer_change_def update_first_absent)
next
  case (Some p)
  then have "node_id p = change_node_id ch" and "p \<in> set ps"
    by (auto simp: find_Some_iff)
  with Some show ?thesis
    by (force simp: apply_peer_change_log_def apply_peer_change_def patch_peer_log_eq update_first_found)
qed

lemma apply_patches_log_eq:
  "apply_patches_log chs ps =
     (fold (\<lambda>ch ps. apply_peer_change ps ch) chs ps,
      concat (map patch_lines (filter (\<lambda>ch. change_node_id ch \<in> node_id ` set ps) chs)))"
proof (induction chs arbitrary: ps)
  case Nil
  then show ?case by simp
next
  case (Cons ch chs)
  have "node_id ` set (apply_peer_change ps ch) = node_id ` set ps"
    using ids_apply_peer_change [of ps ch] by (metis set_map)
  with Cons show ?case
    by (simp add: log_then_def apply_peer_change_log_eq)
qed

lemma delta_patch_log_eq:
  "delta_patch_log resp nm =
     (delta_patch resp nm,
      case peers_changed_patch resp of
        None \<Rightarrow> []
      | Some chs \<Rightarrow>
          concat (map patch_lines (filter (\<lambda>ch. change_node_id ch \<in> node_id ` set (peers nm)) chs)))"
  by (simp add: delta_patch_log_def delta_patch_def apply_patches_log_eq split: option.split)


section \<open>The whole delta\<close>





section \<open>The update without checks\<close>

text \<open>What the code ignores by design, whatever its value and with no line: in a patch the values that
  stand for unset (a region or a capability version that is not positive, an empty endpoint list) and
  \<^verbatim>\<open>CapMap\<close>; in the first response, the three lists of changes to a map that is not there yet.\<close>

definition drop_unset :: "PeerChange \<Rightarrow> PeerChange" where
  "drop_unset ch = ch\<lparr>
     derp_region := option_filter (\<lambda>r. 0 < r) (derp_region ch),
     change_cap := option_filter (\<lambda>c. 0 < c) (change_cap ch),
     cap_map := None,
     change_endpoints := option_filter (\<lambda>es. es \<noteq> []) (change_endpoints ch) \<rparr>"








lemma drop_unset_id [simp]: "change_node_id (drop_unset ch) = change_node_id ch"
  by (simp add: drop_unset_def)












section \<open>What the lines hold\<close>

definition patch_count :: "MapResponse \<Rightarrow> nat" where
  "patch_count resp = (case peers_changed_patch resp of None \<Rightarrow> 0 | Some chs \<Rightarrow> length chs)"

text \<open>At most \<open>n\<close> lines, all of them warnings with nothing but numbers in their fields.\<close>

definition modest :: "nat \<Rightarrow> LogLine list \<Rightarrow> bool" where
  "modest n ls \<longleftrightarrow> length ls \<le> n \<and> list_all (\<lambda>l. log_level l = Warn \<and> numeric_line l) ls"

lemma modest_Nil [simp]: "modest n []"
  by (simp add: modest_def)

lemma modest_append: "modest m ls \<Longrightarrow> modest n ks \<Longrightarrow> modest (m + n) (ls @ ks)"
  by (auto simp: modest_def)

lemma modest_mono: "modest m ls \<Longrightarrow> m \<le> n \<Longrightarrow> modest n ls"
  by (auto simp: modest_def)

lemma modest_retain [simp]: "modest (Suc 0) (snd (retain_log P msg xs))"
  by (simp add: snd_retain_log modest_def numeric_line_def)

lemma modest_cap [simp]: "modest (Suc 0) (snd (cap_peers_log ps))"
  by (simp add: snd_cap_peers_log modest_def numeric_line_def)

lemma modest_sanitize [simp]: "modest (Suc 0) (snd (sanitize_dns_config_log d))"
  by (simp add: sanitize_dns_config_log_def case_prod_beta Let_def split: option.split)

lemma modest_two: "modest (Suc 0) ls \<Longrightarrow> modest (Suc 0) ks \<Longrightarrow> modest 2 (ls @ ks)"
  by (auto simp: modest_def)

lemma modest_self: "modest (Suc 0) (snd (delta_self_log resp nm))"
  by (simp add: delta_self_log_def modest_def numeric_line_def split: option.split)

lemma modest_peers: "modest 2 (snd (delta_peers_log resp nm))"
  by (auto simp: delta_peers_log_def case_prod_beta Let_def split: option.split
      intro: modest_two)

lemma modest_changed: "modest 2 (snd (delta_changed_log resp nm))"
  by (simp add: delta_changed_log_eq modest_def numeric_line_def Let_def split: option.split)

lemma modest_dns: "modest (Suc 0) (snd (delta_dns_log resp nm))"
  by (simp add: delta_dns_log_def case_prod_beta Let_def split: option.split)

lemma modest_patch_lines: "modest 3 (patch_lines ch)"
  by (simp add: patch_lines_def patch_line_def modest_def numeric_line_def)

lemma modest_concat: "modest (3 * length chs) (concat (map patch_lines chs))"
proof (induction chs)
  case Nil
  then show ?case by simp
next
  case (Cons ch chs)
  show ?case
    using modest_append [OF modest_patch_lines [of ch] Cons.IH] by simp
qed

lemma modest_patch: "modest (3 * patch_count resp) (snd (delta_patch_log resp nm))"
proof (cases "peers_changed_patch resp")
  case None
  then show ?thesis by (simp add: delta_patch_log_eq)
next
  case (Some chs)
  have "modest (3 * length (filter P chs)) (concat (map patch_lines (filter P chs)))" for P
    by (rule modest_concat)
  then have "modest (3 * length chs) (concat (map patch_lines (filter P chs)))" for P
    by (rule modest_mono) simp
  with Some show ?thesis
    by (simp add: delta_patch_log_eq patch_count_def)
qed

lemma modest_delta: "modest (6 + 3 * patch_count resp) (snd (apply_delta_log resp nm))"
proof -
  note blocks = modest_append [OF modest_self modest_append [OF modest_peers modest_append
    [OF modest_changed modest_append [OF modest_patch modest_dns]]]]
  show ?thesis
    by (simp add: apply_delta_log_def) (rule modest_mono, rule blocks, simp)
qed

lemma modest_full: "modest 4 (snd (from_full_response_log resp))"
proof -
  have s: "modest (Suc 0) (snd (case resp_node resp of None \<Rightarrow> (zero_value_node, []) | Some n \<Rightarrow>
      if node_is_valid n then (n, []) else (zero_value_node, [LogLine Warn [(''node_id'', show_int (node_id n))]
        ''rejected malformed self node in initial map response''])))"
    by (simp add: modest_def numeric_line_def split: option.split)
  have d: "modest (Suc 0) (snd (case resp_dns_config resp of None \<Rightarrow> (None, []) | Some d \<Rightarrow>
      let (d', l) = sanitize_dns_config_log d in (Some d', l)))"
    by (simp add: case_prod_beta Let_def split: option.split)
  show ?thesis
    unfolding from_full_response_log_def Let_def case_prod_beta snd_conv
    by (rule modest_mono, rule modest_append [OF s modest_append [OF modest_retain modest_append
          [OF modest_cap d [unfolded Let_def case_prod_beta]]]]) simp
qed

section \<open>Properties\<close>




text \<open>
  Claim C9. The numbers logged for a delta's changed peers are exact: \<^verbatim>\<open>rejected\<close> counts the
  malformed records of the list, and \<^verbatim>\<open>refused\<close> counts the well-formed records whose key the map
  does not hold afterwards. Each count has one line, written only when it is not zero.
\<close>

theorem logged_counts_exact:
  "fst (delta_changed_log resp nm) = delta_changed resp nm
   \<and> snd (delta_changed_log resp nm) =
     (case peers_changed resp of
        None \<Rightarrow> []
      | Some ns \<Rightarrow>
          let held = lookup_peer (peers (delta_changed resp nm));
              refused = length (filter (\<lambda>n. node_is_valid n \<and> held (node_key n) = None) ns);
              rejected = length (filter (\<lambda>n. \<not> node_is_valid n) ns) in
          (if refused = 0 then [] else
             [LogLine Warn [(''cap'', show_nat MAX_PEERS), (''refused'', show_nat refused)]
                ''netmap is at the peer cap; refused new peers from a map response''])
          @ (if rejected = 0 then [] else
             [LogLine Warn [(''rejected'', show_nat rejected)]
                ''rejected malformed peers from a map response delta'']))"
  by (simp add: delta_changed_log_eq refused_nodes_def rejected_nodes_def Let_def split: option.split)

text \<open>
  Claim C25. A map update costs a bounded number of log lines, at most six and three more for each
  patch it carries, however many peers it lists; and no line repeats text the server sent: every
  field of every line is a decimal number.
\<close>

theorem log_lines_bounded:
  "length (snd (apply_map_response_log resp self)) \<le> 6 + 3 * patch_count resp
   \<and> list_all (\<lambda>l. log_level l = Warn \<and> numeric_line l) (snd (apply_map_response_log resp self))"
proof -
  have "modest (6 + 3 * patch_count resp) (snd (apply_map_response_log resp self))"
    using modest_delta [of resp] modest_mono [OF modest_full [of resp], of "6 + 3 * patch_count resp"]
    by (simp add: apply_map_response_log_def case_prod_beta Let_def split: option.split)
  then show ?thesis
    by (simp add: modest_def)
qed

end
