(* ===== verification/Error_Display.thy ===== *)
theory Error_Display
  imports Control
begin

text \<open>
  The texts of the errors, as the \<^verbatim>\<open>snafu(display(..))\<close> attributes give them: \<^verbatim>\<open>KeyError\<close>
  (\<^verbatim>\<open>crates/mitos/src/keys.rs\<close>), \<^verbatim>\<open>NoiseError\<close>, \<^verbatim>\<open>TransportError\<close>, \<^verbatim>\<open>WireError\<close>, \<^verbatim>\<open>ControlError\<close> and
  the unified \<^verbatim>\<open>DictyonError\<close> (\<^verbatim>\<open>crates/dictyon/src\<close>). The texts of \<^verbatim>\<open>std::io::Error\<close> and of
  \<^verbatim>\<open>snow::Error\<close> are parameters. A text is the UTF-8 bytes the formatter writes.
\<close>

section \<open>Characters\<close>

text \<open>Hexadecimal digits of a code below 256 without leading zeros.\<close>

definition show_hex :: "nat \<Rightarrow> string" where
  "show_hex n = (if n < 16 then [hex_digit n] else [hex_digit (n div 16), hex_digit (n mod 16)])"

text \<open>\<^verbatim>\<open>{:?}\<close> of a \<^verbatim>\<open>char\<close> obtained from a byte: single quotes around the character, escaped when it
  is a quote, a backslash, a control character, the no-break space or the soft hyphen; a printable
  one above ASCII is written in UTF-8.\<close>

definition char_debug :: "char \<Rightarrow> string" where
  "char_debug c =
     (let n = (of_char c :: nat); bs = CHR 0x5C; q = CHR 0x27 in
      [q] @
      (if n = 0 then [bs, CHR ''0'']
       else if n = 9 then [bs, CHR ''t'']
       else if n = 10 then [bs, CHR ''n'']
       else if n = 13 then [bs, CHR ''r'']
       else if n = 39 \<or> n = 92 then [bs, c]
       else if n < 32 \<or> (127 \<le> n \<and> n \<le> 160) \<or> n = 173 then [bs] @ ''u{'' @ show_hex n @ ''}''
       else if n < 128 then [c]
       else [char_of (192 + n div 64), char_of (128 + n mod 64)])
      @ [q])"

section \<open>The error types\<close>

fun KeyError_display :: "KeyError \<Rightarrow> string" where
  "KeyError_display (MissingPrefix pre input) =
     ''key missing prefix '' @ [CHR 0x27] @ pre @ [CHR 0x27] @ '': got '' @ [CHR 0x27] @ input @ [CHR 0x27]"
| "KeyError_display (OddHexLength len) =
     ''invalid hex in key: odd number of hex digits ('' @ show_nat len @ '')''"
| "KeyError_display (InvalidHexDigit digit offset) =
     ''invalid hex in key: invalid hex digit '' @ char_debug digit @ '' at offset '' @ show_nat offset"
| "KeyError_display (WrongLength expected actual) =
     ''key length wrong: expected '' @ show_nat expected @ '', got '' @ show_nat actual"

fun NoiseError_display :: "('e \<Rightarrow> string) \<Rightarrow> 'e NoiseError \<Rightarrow> string" where
  "NoiseError_display snow (HandshakeFailed message) = ''noise handshake failed: '' @ message"
| "NoiseError_display snow (DecryptionFailed message) = ''decryption failed: '' @ message"
| "NoiseError_display snow (FrameTooLarge message) = ''frame too large: '' @ message"
| "NoiseError_display snow (InvalidState message) = ''invalid state: '' @ message"
| "NoiseError_display snow (Snow e) = ''snow error: '' @ snow e"

fun TransportError_display :: "('e \<Rightarrow> string) \<Rightarrow> 'e TransportError \<Rightarrow> string" where
  "TransportError_display snow (TransportError.Noise e) = ''noise error: '' @ NoiseError_display snow e"
| "TransportError_display snow (TransportError.InvalidUrl url) = ''invalid control URL: '' @ url"

fun WireError_display :: "('i \<Rightarrow> string) \<Rightarrow> ('e \<Rightarrow> string) \<Rightarrow> ('i, 'e) WireError \<Rightarrow> string" where
  "WireError_display ioerr snow (TcpConnect e) = ''TCP connect failed: '' @ ioerr e"
| "WireError_display ioerr snow (Tls e) = ''TLS error: '' @ ioerr e"
| "WireError_display ioerr snow (WireError.InvalidUrl url) = ''invalid control URL (no host): '' @ url"
| "WireError_display ioerr snow (UnexpectedStatus status_line) = ''expected HTTP 101, got: '' @ status_line"
| "WireError_display ioerr snow (MalformedHeaders message) = ''malformed HTTP headers: '' @ message"
| "WireError_display ioerr snow (KeyParse message) = ''key endpoint parse error: '' @ message"
| "WireError_display ioerr snow (ServerKey e) = ''server key invalid: '' @ KeyError_display e"
| "WireError_display ioerr snow (WireError.Noise e) = ''noise error: '' @ NoiseError_display snow e"
| "WireError_display ioerr snow (Frame message) = ''frame error: '' @ message"
| "WireError_display ioerr snow (ConnectTimeout millis) =
     ''control connection timed out after '' @ show_nat (unat millis) @ '' ms''"

fun ControlError_display :: "('i \<Rightarrow> string) \<Rightarrow> ('e \<Rightarrow> string) \<Rightarrow> ('i, 'e) ControlError \<Rightarrow> string" where
  "ControlError_display ioerr snow (Json message) = ''json error: '' @ message"
| "ControlError_display ioerr snow (Transport e) = ''transport error: '' @ TransportError_display snow e"
| "ControlError_display ioerr snow (MalformedResponse message) = ''malformed response: '' @ message"
| "ControlError_display ioerr snow (Wire e) = ''wire error: '' @ WireError_display ioerr snow e"
| "ControlError_display ioerr snow (PayloadTooLarge len) =
     ''payload of '' @ show_nat len @ '' bytes exceeds the u32 frame length prefix''"

fun DictyonError_display :: "('i \<Rightarrow> string) \<Rightarrow> ('e \<Rightarrow> string) \<Rightarrow> ('i, 'e) DictyonError \<Rightarrow> string" where
  "DictyonError_display ioerr snow (DictyonWire e) = ''wire error: '' @ WireError_display ioerr snow e"
| "DictyonError_display ioerr snow (DictyonControl e) = ''control error: '' @ ControlError_display ioerr snow e"
| "DictyonError_display ioerr snow (DictyonNoise e) = ''noise error: '' @ NoiseError_display snow e"

section \<open>Lengths\<close>

lemma length_show_nat: "n < 10 ^ k \<Longrightarrow> 0 < k \<Longrightarrow> length (show_nat n) \<le> k"
proof (induction n arbitrary: k rule: show_nat.induct)
  case (1 n)
  show ?case
  proof (cases "n < 10")
    case True
    with 1(3) show ?thesis
      by (subst show_nat.simps) simp
  next
    case False
    with 1(2) obtain j where k: "k = Suc j" "0 < j"
      by (cases k; cases "k - 1") auto
    with 1(2) have "n div 10 < 10 ^ j"
      by (simp add: less_mult_imp_div_less mult.commute)
    with 1(1) False k show ?thesis
      by (subst show_nat.simps) simp
  qed
qed

lemma length_show_usize: "n < 2 ^ 64 \<Longrightarrow> length (show_nat n) \<le> 20"
  by (rule length_show_nat) simp_all

lemma length_char_debug: "length (char_debug c) \<le> 8"
  by (simp add: char_debug_def show_hex_def Let_def)

lemma count_chars_append [simp]: "count_chars (s @ t) = count_chars s + count_chars t"
  by (simp add: count_chars_def)

lemma count_chars_Cons: "count_chars (c # cs) = (if is_continuation c then 0 else 1) + count_chars cs"
  by (simp add: count_chars_def)

lemma count_chars_Nil [simp]: "count_chars [] = 0"
  by (simp add: count_chars_def)

lemma count_chars_length: "count_chars s \<le> length s"
  by (simp add: count_chars_def)

text \<open>The errors \<^verbatim>\<open>from_hex\<close> can give for an input of at most \<open>n\<close> bytes, against the prefix \<open>pre\<close>.\<close>

fun key_error_ok :: "string \<Rightarrow> nat \<Rightarrow> KeyError \<Rightarrow> bool" where
  "key_error_ok pre n (MissingPrefix p input) = (p = pre \<and> count_chars input \<le> 80)"
| "key_error_ok pre n (OddHexLength len) = (len \<le> n)"
| "key_error_ok pre n (InvalidHexDigit digit offset) = (offset < 64)"
| "key_error_ok pre n (WrongLength expected actual) = (expected = 32 \<and> actual \<le> n)"

lemma key_error_text:
  assumes "key_error_ok pre n e" and "n < 2 ^ 64"
  shows "count_chars (KeyError_display e) \<le> 109 + count_chars pre"
proof (cases e)
  case (MissingPrefix p input)
  with assms(1) show ?thesis
    by (simp add: count_chars_Cons is_continuation_def)
next
  case (OddHexLength len)
  with assms have "length (KeyError_display e) \<le> 67"
    using length_show_usize [of len] by simp
  then show ?thesis
    using count_chars_length [of "KeyError_display e"] by simp
next
  case (InvalidHexDigit digit offset)
  with assms have "length (KeyError_display e) \<le> 60"
    using length_show_nat [of offset 2] length_char_debug [of digit] by simp
  then show ?thesis
    using count_chars_length [of "KeyError_display e"] by simp
next
  case (WrongLength expected actual)
  with assms have "length (KeyError_display e) \<le> 55"
    using length_show_usize [of actual] length_show_nat [of expected 2] by simp
  then show ?thesis
    using count_chars_length [of "KeyError_display e"] by simp
qed

context prefixed_key
begin

lemma from_hex_error_ok:
  assumes "from_hex s = Inl e"
  shows "key_error_ok pre (length s) e"
proof (cases "prefix pre s")
  case False
  with assms show ?thesis
    by (simp add: from_hex_missing_prefix)
       (auto simp: truncate_for_report_def MAX_REPORTED_INPUT_def count_chars_take_chars)
next
  case True
  then obtain h where s: "s = pre @ h"
    by (auto simp: prefix_def)
  consider "length h \<noteq> 64" | "length h = 64" "\<forall>c\<in>set h. is_hex_char c"
    | "length h = 64" "\<not> (\<forall>c\<in>set h. is_hex_char c)"
    by blast
  then show ?thesis
  proof cases
    case 1
    with assms s show ?thesis
      by (auto simp: from_hex_wrong_length KEY_LEN_def)
  next
    case 2
    with s have "is_ok (from_hex s)"
      using from_hex_ok_iff by blast
    with assms show ?thesis
      by simp
  next
    case 3
    with assms s show ?thesis
      using from_hex_bad_digit by fastforce
  qed
qed

lemma from_hex_error_text:
  assumes "from_hex s = Inl e" and "length s < 2 ^ 64"
  shows "count_chars (KeyError_display e) \<le> 109 + count_chars pre"
  using key_error_text [OF from_hex_error_ok [OF assms(1)] assms(2)] .

end

section \<open>Properties\<close>

text \<open>
  Claim C35. The text of an error about a key stays short however long the rejected text is. Whatever
  a server sends in place of a machine, node or disco key, up to the largest string the machine
  can hold, the error's text has at most 118 characters; reported through the wire, control and
  top-level errors it has at most 165.
\<close>

theorem key_error_text_bounded:
  assumes "length s < 2 ^ 64"
    and "MachinePublic_from_hex s = Inl e \<or> NodePublic_from_hex s = Inl e \<or> DiscoPublic_from_hex s = Inl e"
  shows "count_chars (KeyError_display e) \<le> 118
    \<and> count_chars (DictyonError_display ioerr snow (DictyonControl (Wire (ServerKey e)))) \<le> 165"
proof -
  have "count_chars (KeyError_display e) \<le> 118"
    using assms(2)
  proof (elim disjE)
    assume "MachinePublic_from_hex s = Inl e"
    from machine_key.from_hex_error_text [OF this assms(1)] show ?thesis
      by (simp add: count_chars_Cons is_continuation_def)
  next
    assume "NodePublic_from_hex s = Inl e"
    from node_key.from_hex_error_text [OF this assms(1)] show ?thesis
      by (simp add: count_chars_Cons is_continuation_def)
  next
    assume "DiscoPublic_from_hex s = Inl e"
    from disco_key.from_hex_error_text [OF this assms(1)] show ?thesis
      by (simp add: count_chars_Cons is_continuation_def)
  qed
  then show ?thesis
    by (simp add: count_chars_Cons is_continuation_def)
qed

theorem key_error_text_bounded_witness:
  "count_chars (KeyError_display (WrongLength 32 1000)) \<le> 118"
proof -
  have "MachinePublic_from_hex (''mkey:'' @ replicate 2000 CHR ''z'') = Inl (WrongLength 32 1000)"
    by (subst machine_key.from_hex_wrong_length) (simp_all add: KEY_LEN_def)
  then show ?thesis
    by (intro conjunct1 [OF key_error_text_bounded [OF _ disjI1]]) simp_all
qed

end
