(* ===== verification/Message_Limits.thy ===== *)
theory Message_Limits
  imports Control
begin

text \<open>
  How large a control message can be. A map update is read from one Noise message, whose frame
  carries a 16-bit length (\<^verbatim>\<open>crates/dictyon/src/wire/mod.rs\<close>), and the control client
  (\<^verbatim>\<open>crates/dictyon/src/control/mod.rs\<close>) neither joins several messages nor splits one it sends.
\<close>

section \<open>The law of the library\<close>

text \<open>\<^verbatim>\<open>TransportState::read_message\<close> removes the 16-byte tag.\<close>

definition opens :: "('h, 't, 'e, 'x) Snow_lib_scheme \<Rightarrow> bool" where
  "opens sn \<longleftrightarrow>
     (\<forall>t ct n pt t'. snow_t_read sn t ct n = (Inr pt, t') \<longrightarrow> length ct = length pt + 16)"

lemma mock_opens: "opens mock_snow"
  by (auto simp: opens_def mock_snow_def Let_def split: if_splits)

section \<open>Received messages\<close>

lemma fill_exact_length:
  "fill_exact ops n a = Some (Inr bs :: (('i, 'e) WireError, bytes) result, a') \<Longrightarrow> length bs = n"
  by (auto simp: fill_exact_def Let_def take_pending_def split: if_splits option.splits sum.splits)

lemma recv_message_length:
  fixes sn :: "('h, 't, 'e, 'y) Snow_lib_scheme" and ops :: "('s, 'i, 'x) Stream_ops_scheme"
  assumes "opens sn"
    and "recv_message sn ops a = Some (Inr raw :: (('i, 'e) WireError, bytes) result, a')"
  shows "length raw \<le> 65519"
proof -
  obtain n ct a1 a2 where f: "fill_exact ops n a1 = Some (Inr ct :: (('i, 'e) WireError, bytes) result, a2)"
    and n: "n < 65536" and o: "open_frame sn ct a2 = Some (Inr raw :: (('i, 'e) WireError, bytes) result, a')"
    using assms(2) unat_u16_lt
    by (fastforce simp: recv_message_def bind_io_Inr_iff Let_def split: if_splits)
  obtain t' where "snow_t_read sn (transport (conn_noise (acs_conn a2))) ct (length ct) = (Inr raw, t')"
    using o by (auto simp: open_frame_def receive_def decrypt_def map_err_Inr_iff
        split: prod.splits sum.splits if_splits)
  then have "length ct = length raw + 16"
    using assms(1) unfolding opens_def by blast
  with fill_exact_length [OF f] n show ?thesis
    by simp
qed

text \<open>The payload a parsed map frame was decoded from.\<close>

definition map_payload :: "Ctl_ops \<Rightarrow> bytes \<Rightarrow> MapResponse \<Rightarrow> bool" where
  "map_payload ctl payload resp \<longleftrightarrow>
     bind_r (decode_map_payload ctl payload) (\<lambda>p. map_err Json (de_map ctl p))
       = (Inr resp :: ((unit, unit) ControlError, MapResponse) result)"

lemma map_payload_any_error:
  assumes "bind_r (decode_map_payload ctl payload) (\<lambda>p. map_err Json (de_map ctl p))
    = (Inr resp :: (('i, 'e) ControlError, MapResponse) result)"
  shows "map_payload ctl payload resp"
  using assms
  by (auto simp: map_payload_def decode_map_payload_def bind_r_Inr_iff map_err_Inr_iff split: if_splits)

lemma get_to_four:
  assumes "get_to xs 4 = Some h"
  obtains b0 b1 b2 b3 where "h = [b0, b1, b2, b3]" "take 4 xs = h" "4 \<le> length xs"
proof -
  have "length h = 4" "take 4 xs = h" "4 \<le> length xs"
    using assms by (auto simp: get_to_def split: if_splits)
  then show thesis
    using that by (auto simp: numeral_eq_Suc length_Suc_conv)
qed

lemma parse_map_response_Inr:
  assumes "parse_map_response ctl raw = (Inr resp :: (('i, 'e) ControlError, MapResponse) result)"
  obtains payload tail where "raw = take 4 raw @ payload @ tail" "4 \<le> length raw"
    "le32_dec (take 4 raw) = length payload" "map_payload ctl payload resp"
proof (cases "get_to raw 4")
  case None
  with assms show thesis
    by (simp add: parse_map_response_def)
next
  case (Some h)
  then obtain b0 b1 b2 b3 where h: "h = [b0, b1, b2, b3]" "take 4 raw = h" "4 \<le> length raw"
    by (rule get_to_four)
  define n where "n = unat (u32_from_le_bytes b0 b1 b2 b3)"
  obtain payload where g: "get_range raw 4 (4 + n) = Some payload"
    and d: "bind_r (decode_map_payload ctl payload) (\<lambda>p. map_err Json (de_map ctl p))
      = (Inr resp :: (('i, 'e) ControlError, MapResponse) result)"
    using assms Some h(1)
    by (auto simp: parse_map_response_def Let_def bind_r_Inr_iff ok_or_Inr_iff n_def [symmetric])
  have p: "payload = take n (drop 4 raw)" "length payload = n"
    using g by (auto simp: get_range_def take_drop add.commute split: if_splits)
  show thesis
  proof (rule that [of payload "drop n (drop 4 raw)"])
    show "raw = take 4 raw @ payload @ drop n (drop 4 raw)"
      by (simp only: p(1) append_take_drop_id)
    show "4 \<le> length raw"
      by (rule h(3))
    show "le32_dec (take 4 raw) = length payload"
      by (simp add: h(1,2) le32_dec_def p(2)) (simp add: n_def)
    show "map_payload ctl payload resp"
      by (rule map_payload_any_error [OF d])
  qed
qed

section \<open>Sent messages\<close>

text \<open>A message above the configured payload limit is refused before anything is written.\<close>

lemma oversized_message_refused:
  assumes "unat (max_frame_payload (nt_config (conn_noise (acs_conn a)))) < length framed"
  shows "\<exists>msg. send_message sn ops framed a
    = Some (Inl (WireError.Noise (FrameTooLarge msg)) :: (('i, 'e) WireError, unit) result, a)"
  using assms by (simp add: send_message_def send_def encrypt_def Let_def)

section \<open>Properties\<close>

text \<open>
  Claim C30. A map update always comes from a single Noise message, so however long the 32-bit
  length field of the control frame could be, the payload of an accepted update has at most
  65,515 bytes: what the length field names lies inside the one message that was received, and
  the update applied is the one these bytes decode to.
\<close>

theorem map_update_fits_one_message:
  fixes sn :: "('h, 'u, 'e, 'y) Snow_lib_scheme" and ops :: "('s, 'i, 'x) Stream_ops_scheme"
  assumes "opens sn"
    and "recv_map_update ctl sn ops (client, a)
      = Some (Inr k :: (('i, 'e) ControlError, bool) result, (client', a'))"
  shows "\<exists>raw payload tail resp.
    recv_message sn ops a = Some (Inr raw :: (('i, 'e) WireError, bytes) result, a')
    \<and> raw = take 4 raw @ payload @ tail \<and> le32_dec (take 4 raw) = length payload
    \<and> length payload \<le> 65515
    \<and> map_payload ctl payload resp \<and> client' = apply_map_response resp client"
proof -
  obtain raw resp where r: "recv_message sn ops a = Some (Inr raw :: (('i, 'e) WireError, bytes) result, a')"
    and p: "parse_map_response ctl raw = (Inr resp :: (('i, 'e) ControlError, MapResponse) result)"
    and c: "client' = apply_map_response resp client"
    using assms(2) by (auto simp: recv_map_update_def Let_def map_err_io_Inr_iff split: option.splits sum.splits)
  obtain payload tail where f: "raw = take 4 raw @ payload @ tail" "4 \<le> length raw"
    "le32_dec (take 4 raw) = length payload" "map_payload ctl payload resp"
    using p by (rule parse_map_response_Inr)
  have "length raw = 4 + length payload + length tail"
    by (subst f(1)) (simp add: min_absorb2 f(2))
  with recv_message_length [OF assms(1) r] have "length payload \<le> 65515"
    by simp
  with r f c show ?thesis
    by blast
qed

theorem map_update_fits_one_message_witness:
  "\<exists>payload resp. length payload \<le> 65515 \<and> map_payload sample_ctl payload resp
    \<and> apply_map_response sample_response sample_client = apply_map_response resp sample_client"
proof -
  have "recv_map_update sample_ctl mock_snow script_ops (sample_client, sample_map_stream)
    = (Some (Inr False, (apply_map_response sample_response sample_client, sample_map_stream_after))
        :: (((unit, unit) ControlError, bool) result \<times> nat ControlClient \<times> (bytes list, nat) AsyncControlStream) option)"
    by (simp add: recv_map_update_def sample_recv map_err_io_Inr [where s = sample_map_stream] sample_parse)
       (simp add: sample_response_def empty_response_def)
  from map_update_fits_one_message [OF mock_opens this] show ?thesis
    by blast
qed

end
