(* ===== verification/Key_Trust.thy ===== *)
theory Key_Trust
  imports Wire
begin

text \<open>
  Which key a connection trusts: the \<^verbatim>\<open>/key\<close> response as \<^verbatim>\<open>read_full_response\<close> accumulates it, the
  key that \<^verbatim>\<open>parse_server_key_response\<close> takes out of it, and the handshake that \<^verbatim>\<open>connect\<close> runs
  with that key (\<^verbatim>\<open>crates/dictyon/src/wire/mod.rs\<close>, \<^verbatim>\<open>wire/support.rs\<close>). Unlike the lemmas of the
  wire layer on a stream that keeps delivering, these hold on every stream that delivers in order,
  whether or not it stalls or fails.
\<close>

section \<open>The response as a whole\<close>

text \<open>A response that is returned is everything the stream had left, and it fits the limit.\<close>

lemma full_loop_complete:
  fixes y :: "(('i, 'e) WireError, bytes) result \<times> 's"
  assumes "full_loop ops mx chunk buf s = Some y" and "reliable ops content"
    and "0 < chunk" and "length buf \<le> mx" and "mx < 2 ^ 64 - 1"
  shows "fst y = Inr out \<longrightarrow> out = buf @ content s \<and> length out \<le> mx"
  using assms
proof (induction rule: full_loop.raw_induct [rotated, consumes 1, case_names step])
  case (step loop ops mx chunk buf s y)
  note body = step(2)
  have stream: "reliable_stream ops content"
    using step(3) by unfold_locales
  from body obtain r s1 where r: "stream_read ops chunk s = Some (r, s1)"
    by (cases "stream_read ops chunk s") auto
  show ?case
  proof (cases r)
    case (Inl e)
    with body r show ?thesis
      by auto
  next
    case (Inr bs)
    with r have "stream_read ops chunk s = Some (Inr bs, s1)"
      by simp
    note t = reliable_stream.read_takes [OF stream this]
    show ?thesis
    proof (cases "bs = [] \<or> mx < saturating_add (length buf) (length bs)")
      case True
      with body r Inr t step(4,5) show ?thesis
        by (auto simp: push_within_limit_def split: if_splits)
    next
      case False
      with step(6) have fits: "length (buf @ bs) \<le> mx"
        by (simp add: saturating_add_def min_def split: if_splits)
      have "loop ops mx chunk (buf @ bs) s1 = Some y"
        using body r Inr t False by (simp add: push_within_limit_def split: if_splits)
      from step(1) [OF this step(3,4) fits step(6)] t show ?thesis
        by simp
    qed
  qed
qed

context reliable_stream
begin

lemma full_response_complete:
  assumes "read_full_response ops cfg s = Some (Inr out :: (('i, 'e) WireError, bytes) result, s')"
    and "WireConfig_validate cfg = Inr ()"
  shows "out = content s \<and> length (content s) \<le> unat (key_response_max_bytes cfg)"
proof -
  have r: "wire_in_range cfg"
    using assms(2) by (simp add: wire_validate_iff)
  have "0 < unat (response_read_chunk_bytes cfg)" "unat (key_response_max_bytes cfg) < 2 ^ 64 - 1"
    using r key_response_max_value(3) [OF r] by (simp_all add: wire_in_range_def)
  with full_loop_complete [OF assms(1) [unfolded read_full_response_def] stream_reliable, of out]
  show ?thesis
    by auto
qed

end

section \<open>The key in the response\<close>

text \<open>The body of an HTTP response without a length: what follows the first empty line.\<close>

definition response_body :: "bytes \<Rightarrow> bytes" where
  "response_body response =
     (case position_window header_sep response of None \<Rightarrow> response | Some p \<Rightarrow> drop (p + 4) response)"

text \<open>A response publishes a key: its body is a JSON object whose \<^verbatim>\<open>PublicKey\<close> is the key's text.\<close>

definition publishes :: "(bytes \<Rightarrow> string + json) \<Rightarrow> bytes \<Rightarrow> MachinePublic \<Rightarrow> bool" where
  "publishes from_slice response key \<longleftrightarrow>
     (case from_slice (response_body response) of
        Inr (JObject es) \<Rightarrow>
          (case map_of es ''PublicKey'' of
             Some (JString text) \<Rightarrow> MachinePublic_from_hex text = Inr key
           | _ \<Rightarrow> False)
      | _ \<Rightarrow> False)"

lemma response_body_slice:
  "get_from response (case position_window header_sep response of None \<Rightarrow> 0 | Some p \<Rightarrow> p + 4)
     = Some (response_body response)"
proof (cases "position_window header_sep response")
  case None
  then show ?thesis
    by (simp add: response_body_def get_from_def)
next
  case (Some p)
  then have "p + 4 \<le> length response"
    using position_window_bound [of header_sep response p] by simp
  with Some show ?thesis
    by (simp add: response_body_def get_from_def)
qed

lemma parse_server_key_response_iff:
  "parse_server_key_response from_slice response
     = (Inr key :: (('i, 'e) WireError, MachinePublic) result) \<longleftrightarrow> publishes from_slice response key"
  by (simp add: parse_server_key_response_def response_body_slice publishes_def Let_def
        bind_r_Inr_iff map_err_Inr_iff ok_or_Inr_iff json_get_def json_as_str_def
        split: sum.split json.split option.split)

text \<open>The header block of the key response, its status line included, has no part in the decision:
  a response with any status is taken for a key response if its body is one.\<close>

lemma key_response_header_ignored:
  assumes "position_window header_sep (hdr @ header_sep @ body) = Some (length hdr)"
  shows "publishes from_slice (hdr @ header_sep @ body) key \<longleftrightarrow>
    (case from_slice body of
       Inr (JObject es) \<Rightarrow>
         (case map_of es ''PublicKey'' of
            Some (JString text) \<Rightarrow> MachinePublic_from_hex text = Inr key
          | _ \<Rightarrow> False)
     | _ \<Rightarrow> False)"
  using assms by (simp add: publishes_def response_body_def)

section \<open>Fetching and connecting\<close>

text \<open>Both fetch functions send the same request and read the same response.\<close>

lemma fetch_inner_takes:
  fixes net :: "('tcp, 'n, 'tls, 's, 'i, 'x) Net_ops_scheme"
  assumes "reliable (net_stream net) content" and "WireConfig_validate cfg = Inr ()"
    and "fetch_server_key_with_tls_and_config_inner net k url tls cfg
      = Some (Inr key :: (('i, 'e) WireError, MachinePublic) result)"
  shows "\<exists>host s. (open_tls net k tls url :: (('i, 'e) WireError, string \<times> 's) result option)
      = Some (Inr (host, s))
    \<and> length (content s) \<le> unat (key_response_max_bytes cfg)
    \<and> publishes (net_json net) (content s) key"
proof -
  have stream: "reliable_stream (net_stream net) content"
    using assms(1) by unfold_locales
  obtain host s u s1 response s2 where
    o: "(open_tls net k tls url :: (('i, 'e) WireError, string \<times> 's) result option) = Some (Inr (host, s))"
    and w: "stream_write_all (net_stream net) (as_bytes (key_request host)) s = Some (Inr u, s1)"
    and r: "read_full_response (net_stream net) cfg s1
      = Some (Inr response :: (('i, 'e) WireError, bytes) result, s2)"
    and p: "parse_server_key_response (net_json net) response
      = (Inr key :: (('i, 'e) WireError, MachinePublic) result)"
    using assms(3)
    by (auto simp: fetch_server_key_with_tls_and_config_inner_def bind_async_Inr_iff bind_io_Inr_iff
        map_err_io_Inr_iff)
  have "response = content s" "length (content s) \<le> unat (key_response_max_bytes cfg)"
    using reliable_stream.full_response_complete [OF stream r assms(2)]
      reliable_stream.write_keeps [OF stream w] by simp_all
  with o p show ?thesis
    by (auto simp: parse_server_key_response_iff)
qed

lemma fetch_with_config_inner_tls:
  "fetch_server_key_with_config_inner net k url cfg
     = fetch_server_key_with_tls_and_config_inner net k url (net_webpki_tls net) cfg"
  by (simp add: fetch_server_key_with_config_inner_def fetch_server_key_with_tls_and_config_inner_def)

lemma connect_is_connect_with_tls:
  "connect sn net config = connect_with_tls sn net config (net_webpki_tls net)"
  by (simp add: connect_def connect_with_tls_def fetch_server_key_with_config_def
      fetch_server_key_with_tls_and_config_def fetch_with_config_inner_tls connect_with_key_def)

lemma connect_with_tls_Inr:
  assumes "connect_with_tls sn net config tls = Some (Inr a :: (('i, 'e) WireError, ('s, 't) AsyncControlStream) result)"
  obtains key where
    "fetch_server_key_with_tls_and_config_inner net 0 (control_url config) tls (config_wire (cc_config config))
      = Some (Inr key :: (('i, 'e) WireError, MachinePublic) result)"
    "connect_with_key_and_tls sn net 1 config key tls = Some (Inr a)"
  using assms
  by (auto simp: connect_with_tls_def fetch_server_key_with_tls_and_config_def bind_async_Inr_iff
      dest: with_connect_deadline_Inr)

text \<open>The sample network: the key response of the first connection, then the sample upgrade.\<close>

lemma sample_fetch:
  "fetch_server_key_with_tls_and_config_inner sample_net 0 ''https://c.example'' () WireConfig_default
     = Some (Inr (MachinePublic (replicate 32 2)) :: ((unit, unit) WireError, MachinePublic) result)"
proof -
  obtain s' where r: "read_full_response script_ops WireConfig_default [as_bytes ''key'']
      = Some (Inr (concat [as_bytes ''key'']) :: ((unit, unit) WireError, bytes) result, s')"
    using full_response_within_limit [OF script_reliable script_prompt wire_default_valid,
        of "[as_bytes ''key'']"]
    by (auto simp: WireConfig_default_def key_response_max_bytes_def saturating_mul_def config_constants)
  have p: "parse_server_key_response (net_json sample_net) (concat [as_bytes ''key''])
      = (Inr (MachinePublic (replicate 32 2)) :: ((unit, unit) WireError, MachinePublic) result)"
    by (simp add: parse_server_key_response_iff publishes_def sample_net_def machine_key.from_to_hex KEY_LEN_def)
  have o: "open_tls sample_net 0 () ''https://c.example''
     = (Some (Inr (''c.example'', [as_bytes ''key''])) :: ((unit, unit) WireError, string \<times> bytes list) result option)"
    by (simp add: open_tls_def sample_url sample_net_def)
  have w: "stream_write_all script_ops bs s = Some (Inr (), s)" for bs s
    by (simp add: script_ops_def)
  have n: "net_stream sample_net = script_ops"
    by (simp add: sample_net_def)
  show ?thesis
    using r p by (simp add: fetch_server_key_with_tls_and_config_inner_def o n bind_io_def map_err_io_def w)
qed

lemma sample_connect_with_tls:
  "connect_with_tls mock_snow sample_net sample_config () = Some (Inr sample_established)"
proof -
  have c: "control_url sample_config = ''https://c.example''"
    "config_wire (cc_config sample_config) = WireConfig_default"
    by (simp_all add: sample_config_def ControlConfig_new_def Config_default_def)
  have "with_connect_deadline sample_net k cfg (Some x)
      = (Some x :: ((unit, unit) WireError, MachinePublic) result option)" for k cfg x
    by (simp add: with_connect_deadline_def sample_net_def split: option.split)
  then show ?thesis
    using sample_fetch sample_connects
    by (simp add: connect_with_tls_def fetch_server_key_with_tls_and_config_def c)
qed

section \<open>Properties\<close>

text \<open>
  Claim C4. The key a connection trusts. With a validated wire configuration, on streams that deliver
  in order, whatever stalls or fails: when \<^verbatim>\<open>connect_with_tls\<close> succeeds (and \<^verbatim>\<open>connect\<close> is the same
  with the built-in certificate roots), the first connection was made to the control URL, its server
  sent one complete response that fits the limit, the body of that response is a JSON object whose
  \<^verbatim>\<open>PublicKey\<close> is the text of a key, and the handshake on the second connection to the same URL was
  begun with exactly that key and the configured machine key, and completed on the frame that
  connection sent. No other input decides the key.
\<close>

theorem connect_trust_chain:
  fixes a :: "('s, 't) AsyncControlStream" and sn :: "('h, 't, 'e, 'y) Snow_lib_scheme"
  assumes "reliable (net_stream net) content"
    and "WireConfig_validate (config_wire (cc_config config)) = Inr ()"
    and "connect_with_tls sn net config tls
      = Some (Inr a :: (('i, 'e) WireError, ('s, 't) AsyncControlStream) result)"
  shows "connect sn net config = connect_with_tls sn net config (net_webpki_tls net)
    \<and> (\<exists>host s key m h host' s' hdr t msg.
      (open_tls net 0 tls (control_url config) :: (('i, 'e) WireError, string \<times> 's) result option)
        = Some (Inr (host, s))
      \<and> length (content s) \<le> unat (key_response_max_bytes (config_wire (cc_config config)))
      \<and> publishes (net_json net) (content s) key
      \<and> initiation_message sn (NoiseHandshake_with_config (cc_machine_key config) key
          (config_noise (cc_config config))) = (Inr m, h)
      \<and> (open_tls net 1 tls (control_url config) :: (('i, 'e) WireError, string \<times> 's) result option)
        = Some (Inr (host', s'))
      \<and> content s' = hdr @ header_sep @ (t # be16_enc (length msg) @ msg) @ acs_avail content a
      \<and> process_response sn h (t # be16_enc (length msg) @ msg) = Inr (conn_noise (acs_conn a)))"
proof -
  obtain key where
    f: "fetch_server_key_with_tls_and_config_inner net 0 (control_url config) tls (config_wire (cc_config config))
      = Some (Inr key :: (('i, 'e) WireError, MachinePublic) result)"
    and c: "connect_with_key_and_tls sn net 1 config key tls
      = Some (Inr a :: (('i, 'e) WireError, ('s, 't) AsyncControlStream) result)"
    using assms(3) by (rule connect_with_tls_Inr)
  from fetch_inner_takes [OF assms(1,2) f] connect_takes [OF assms(1) c] show ?thesis
    unfolding connect_is_connect_with_tls [of sn net config] by blast
qed

theorem connect_trust_chain_witness:
  "publishes (net_json sample_net) (as_bytes ''key'') (MachinePublic (replicate 32 2))
   \<and> (\<exists>key m h. publishes (net_json sample_net) (as_bytes ''key'') key
        \<and> initiation_message mock_snow (NoiseHandshake_with_config (MachinePrivate (replicate 32 1)) key
            NoiseConfig_default) = (Inr m, h))"
proof -
  have r: "reliable (net_stream sample_net) concat"
    by (simp add: sample_net_def script_reliable)
  have v: "WireConfig_validate (config_wire (cc_config sample_config)) = Inr ()"
    by (simp add: sample_config_def ControlConfig_new_def Config_default_def wire_default_valid)
  have o: "open_tls sample_net 0 () ''https://c.example''
     = (Some (Inr (''c.example'', [as_bytes ''key''])) :: ((unit, unit) WireError, string \<times> bytes list) result option)"
    by (simp add: open_tls_def sample_url sample_net_def)
  have c: "control_url sample_config = ''https://c.example''"
    "cc_machine_key sample_config = MachinePrivate (replicate 32 1)"
    "config_noise (cc_config sample_config) = NoiseConfig_default"
    by (simp_all add: sample_config_def ControlConfig_new_def Config_default_def)
  have "publishes (net_json sample_net) (as_bytes ''key'') (MachinePublic (replicate 32 2))"
    by (simp add: publishes_def sample_net_def machine_key.from_to_hex KEY_LEN_def)
  with connect_trust_chain [OF r v sample_connect_with_tls] show ?thesis
    by (auto simp: o c)
qed

text \<open>The deadline of a fetch, when its future completes.\<close>

definition timed_out :: "('tcp, 'n, 'tls, 's, 'i, 'x) Net_ops_scheme \<Rightarrow> nat \<Rightarrow> WireConfig \<Rightarrow> bool" where
  "timed_out net k cfg = (case connect_timeout cfg of None \<Rightarrow> False | Some ms \<Rightarrow> net_elapsed net k ms True)"

text \<open>
  Claim C14. A key fetch is decided by the response alone. With a validated wire configuration, over a
  connection that was opened, took the request and delivers without stalling or failing,
  \<^verbatim>\<open>fetch_server_key_with_tls_and_config\<close> always returns, however the response is cut into reads: the
  timeout if the timer was first; the error that the response is too large if it exceeds the configured
  limit; and otherwise what the parser makes of the complete response, from its first to its last byte. That is a
  key exactly when the response's body is a JSON object whose \<^verbatim>\<open>PublicKey\<close> is the text of that key.
\<close>

theorem fetch_key_decided:
  fixes net :: "('tcp, 'n, 'tls, 's, 'i, 'x) Net_ops_scheme"
  assumes "reliable (net_stream net) content" and "prompt (net_stream net) content"
    and "WireConfig_validate cfg = Inr ()"
    and "open_tls net k tls url = (Some (Inr (host, s)) :: (('i, 'e) WireError, string \<times> 's) result option)"
    and "stream_write_all (net_stream net) (as_bytes (key_request host)) s = Some (Inr u, s1)"
  shows "\<exists>r :: (('i, 'e) WireError, MachinePublic) result.
    fetch_server_key_with_tls_and_config net k url tls cfg = Some r
    \<and> (timed_out net k cfg \<longrightarrow> r = Inl (ConnectTimeout (connect_timeout_ms cfg)))
    \<and> (\<not> timed_out net k cfg \<and> unat (key_response_max_bytes cfg) < length (content s)
         \<longrightarrow> r = Inl (KeyParse ''response too large''))
    \<and> (\<not> timed_out net k cfg \<and> length (content s) \<le> unat (key_response_max_bytes cfg)
         \<longrightarrow> r = parse_server_key_response (net_json net) (content s))
    \<and> (\<forall>key. r = Inr key \<longleftrightarrow> \<not> timed_out net k cfg \<and> length (content s) \<le> unat (key_response_max_bytes cfg)
         \<and> publishes (net_json net) (content s) key)"
proof -
  have stream: "reliable_stream (net_stream net) content"
    using assms(1) by unfold_locales
  have c: "content s1 = content s"
    using reliable_stream.write_keeps [OF stream assms(5)] .
  let ?r = "if length (content s) \<le> unat (key_response_max_bytes cfg) then parse_server_key_response (net_json net) (content s)
    else Inl (KeyParse ''response too large'') :: (('i, 'e) WireError, MachinePublic) result"
  obtain s2 where "read_full_response (net_stream net) cfg s1 =
    Some (if length (content s) \<le> unat (key_response_max_bytes cfg) then Inr (content s)
          else (Inl (KeyParse ''response too large'') :: (('i, 'e) WireError, bytes) result), s2)"
    using full_response_within_limit [OF assms(1-3), of s1] unfolding c by blast
  then have i: "fetch_server_key_with_tls_and_config_inner net k url tls cfg = Some ?r"
    by (simp add: fetch_server_key_with_tls_and_config_inner_def assms(4,5) bind_io_def map_err_io_def)
  have f: "fetch_server_key_with_tls_and_config net k url tls cfg
      = Some (if timed_out net k cfg then Inl (ConnectTimeout (connect_timeout_ms cfg)) else ?r)"
    unfolding fetch_server_key_with_tls_and_config_def i
    by (simp add: with_connect_deadline_def timed_out_def split: option.split)
  show ?thesis
    by (rule exI, rule conjI, rule f) (simp add: parse_server_key_response_iff)
qed

theorem fetch_key_decided_witness:
  "fetch_server_key_with_tls_and_config sample_net 0 ''https://c.example'' () WireConfig_default
     = Some (Inr (MachinePublic (replicate 32 2)) :: ((unit, unit) WireError, MachinePublic) result)"
proof -
  have r: "reliable (net_stream sample_net) concat" "prompt (net_stream sample_net) concat"
    by (simp_all add: sample_net_def script_reliable script_prompt)
  have o: "open_tls sample_net 0 () ''https://c.example''
     = (Some (Inr (''c.example'', [as_bytes ''key''])) :: ((unit, unit) WireError, string \<times> bytes list) result option)"
    by (simp add: open_tls_def sample_url sample_net_def)
  have w: "stream_write_all (net_stream sample_net) bs s = Some (Inr (), s)" for bs s
    by (simp add: sample_net_def script_ops_def)
  have p: "publishes (net_json sample_net) (as_bytes ''key'') (MachinePublic (replicate 32 2))"
    by (simp add: publishes_def sample_net_def machine_key.from_to_hex KEY_LEN_def)
  have t: "\<not> timed_out sample_net 0 WireConfig_default"
    by (simp add: timed_out_def sample_net_def split: option.split)
  have l: "length (as_bytes ''key'') \<le> unat (key_response_max_bytes WireConfig_default)"
    by (simp add: WireConfig_default_def key_response_max_bytes_def saturating_mul_def config_constants)
  show ?thesis
    using fetch_key_decided [OF r wire_default_valid o w] p t l by fastforce
qed

end
