(* ===== verification/Redelivery.thy ===== *)
theory Redelivery
  imports Control
begin

text \<open>
  What a map update that is delivered twice does to a client
  (\<^verbatim>\<open>crates/dictyon/src/control/netmap.rs\<close>, \<^verbatim>\<open>apply_map_response\<close> of \<^verbatim>\<open>control/mod.rs\<close>). Each of
  the two loops over peers is written as one pass over the peer list, in which a peer is replaced
  or patched at the first occurrence of its key or id; from that the second delivery is seen to
  change nothing the first did not.
\<close>

section \<open>The changed peers as one pass\<close>

text \<open>Every first occurrence of a key is replaced by what the map has for the key.\<close>

fun refresh :: "(string \<Rightarrow> Node option) \<Rightarrow> Node list \<Rightarrow> Node list" where
  "refresh m [] = []"
| "refresh m (p # ps) =
     (case m (node_key p) of None \<Rightarrow> p | Some n \<Rightarrow> n) # refresh (m(node_key p := None)) ps"

definition keyed :: "(string \<Rightarrow> Node option) \<Rightarrow> bool" where
  "keyed m \<longleftrightarrow> (\<forall>k n. m k = Some n \<longrightarrow> node_key n = k)"

lemma keyed_simps [simp]:
  "keyed m \<Longrightarrow> keyed (m(k := None))"
  "keyed Map.empty"
  "keyed [node_key n \<mapsto> n]"
  by (simp_all add: keyed_def)

lemma refresh_empty [simp]: "refresh Map.empty ps = ps"
  by (induction ps) (simp_all add: fun_upd_idem)

lemma refresh_keys: "keyed m \<Longrightarrow> map node_key (refresh m ps) = map node_key ps"
  by (induction ps arbitrary: m) (auto simp: keyed_def split: option.split)

lemma refresh_refresh:
  "keyed m \<Longrightarrow> keyed m' \<Longrightarrow> refresh m' (refresh m ps) = refresh (m ++ m') ps"
proof (induction ps arbitrary: m m')
  case Nil
  then show ?case by simp
next
  case (Cons p ps)
  have "(m(node_key p := None)) ++ (m'(node_key p := None)) = (m ++ m')(node_key p := None)"
    by (auto simp: map_add_def fun_eq_iff split: option.split)
  moreover have "node_key (case m (node_key p) of None \<Rightarrow> p | Some n \<Rightarrow> n) = node_key p"
    using Cons.prems(1) by (auto simp: keyed_def split: option.split)
  ultimately show ?case
    using Cons.IH [OF keyed_simps(1) [OF Cons.prems(1)] keyed_simps(1) [OF Cons.prems(2)], of "node_key p" "node_key p"]
    by (simp del: fun_upd_apply) (simp add: map_add_def split: option.split)
qed

lemma refresh_absent: "\<forall>p\<in>set ps. m (node_key p) = None \<Longrightarrow> refresh m ps = ps"
  by (induction ps arbitrary: m) auto

lemma refresh_one:
  "update_first (\<lambda>p. node_key p = node_key n) (\<lambda>_. n) ps = refresh [node_key n \<mapsto> n] ps"
proof (induction ps)
  case Nil
  then show ?case by simp
next
  case (Cons p ps)
  show ?case
  proof (cases "node_key p = node_key n")
    case True
    then show ?thesis
      by (simp del: fun_upd_apply add: fun_upd_same)
  next
    case False
    then have "[node_key n \<mapsto> n](node_key p := None) = [node_key n \<mapsto> n]"
      by auto
    with False Cons show ?thesis
      by (simp only: update_first.simps refresh.simps) simp
  qed
qed

text \<open>A list that already holds what the map has is left as it is, and only such a list.\<close>

lemma refresh_settled:
  assumes "\<And>k p. lookup_peer ps k = Some p \<Longrightarrow> m k = None \<or> m k = Some p"
  shows "refresh m ps = ps"
  using assms
proof (induction ps arbitrary: m)
  case Nil
  then show ?case by simp
next
  case (Cons p ps)
  have "refresh (m(node_key p := None)) ps = ps"
  proof (rule Cons.IH)
    fix k q
    assume "lookup_peer ps k = Some q"
    then show "(m(node_key p := None)) k = None \<or> (m(node_key p := None)) k = Some q"
      using Cons.prems [of k q] by auto
  qed
  then show ?case
    using Cons.prems [of "node_key p" p] by auto
qed

lemma keyed_offered [simp]: "keyed (offered ns)"
  unfolding keyed_def offered_def by (auto dest!: map_of_SomeD)

lemma offered_Cons: "offered (n # ns) = (if node_is_valid n then [node_key n \<mapsto> n] else Map.empty) ++ offered ns"
  by (simp add: offered_def)

text \<open>A list is settled for some nodes when the loop over them can add no peer to it.\<close>

definition settled :: "Node list \<Rightarrow> Node list \<Rightarrow> bool" where
  "settled ns ps \<longleftrightarrow> MAX_PEERS \<le> length ps
     \<or> (\<forall>n\<in>set ns. node_is_valid n \<longrightarrow> node_key n \<in> node_key ` set ps)"

lemma settled_keys: "map node_key ps = map node_key qs \<Longrightarrow> settled ns ps = settled ns qs"
  unfolding settled_def by (metis length_map set_map)

lemma settled_change:
  assumes "settled (n # ns) ps"
  shows "change_peer n ps = refresh (if node_is_valid n then [node_key n \<mapsto> n] else Map.empty) ps"
proof (cases "node_is_valid n \<and> node_key n \<notin> node_key ` set ps")
  case True
  then have "refresh [node_key n \<mapsto> n] ps = ps"
    by (intro refresh_absent) (auto simp: image_iff)
  moreover have "\<not> (\<exists>p\<in>set ps. node_key p = node_key n)"
    using True by (metis imageI)
  ultimately show ?thesis
    using True assms by (simp add: change_peer_def settled_def)
next
  case False
  then have "node_is_valid n \<longrightarrow> (\<exists>p\<in>set ps. node_key p = node_key n)"
    by auto
  then show ?thesis
    by (simp add: change_peer_def refresh_one)
qed

lemma fold_change_settled: "settled ns ps \<Longrightarrow> fold change_peer ns ps = refresh (offered ns) ps"
proof (induction ns arbitrary: ps)
  case Nil
  then show ?case
    by (simp add: offered_def)
next
  case (Cons n ns)
  let ?m = "if node_is_valid n then [node_key n \<mapsto> n] else Map.empty"
  have m: "keyed ?m"
    by simp
  have "settled ns (refresh ?m ps)"
    using Cons.prems settled_keys [OF refresh_keys [OF m]] by (auto simp: settled_def)
  then show ?case
    using Cons by (simp add: settled_change refresh_refresh [OF m] offered_Cons)
qed

lemma change_peer_keys_grow: "node_key ` set ps \<subseteq> node_key ` set (change_peer n ps)"
proof -
  have "map node_key (update_first (\<lambda>p. node_key p = node_key n) (\<lambda>_. n) ps) = map node_key ps"
    by (rule map_update_first) simp
  then have "map node_key (change_peer n ps) = map node_key ps \<or> change_peer n ps = ps @ [n]"
    by (simp add: change_peer_def)
  then show ?thesis
  proof
    assume "map node_key (change_peer n ps) = map node_key ps"
    then have "set (map node_key (change_peer n ps)) = set (map node_key ps)"
      by simp
    then show ?thesis
      by simp
  qed auto
qed

lemma change_peer_length: "length ps \<le> length (change_peer n ps)"
  by (simp add: change_peer_def)

lemma settled_grow: "settled ns ps \<Longrightarrow> settled ns (change_peer n ps)"
  unfolding settled_def
  using subsetD [OF change_peer_keys_grow, of _ ps n] le_trans [OF _ change_peer_length, of MAX_PEERS ps n]
  by blast

lemma settled_own: "settled [n] (change_peer n ps)"
proof (cases "node_key n \<in> node_key ` set ps")
  case True
  then show ?thesis
    using change_peer_keys_grow [of ps n] by (auto simp: settled_def)
next
  case False
  then have "\<not> (\<exists>p\<in>set ps. node_key p = node_key n)"
    by (metis imageI)
  then show ?thesis
    by (simp add: settled_def change_peer_def)
qed

lemma settled_Cons: "settled (n # ns) ps \<longleftrightarrow> settled [n] ps \<and> settled ns ps"
  by (auto simp: settled_def)

lemma settled_fold_grow: "settled ns ps \<Longrightarrow> settled ns (fold change_peer ms ps)"
  by (induction ms arbitrary: ps) (simp_all add: settled_grow)

lemma fold_change_settles: "settled ns (fold change_peer ns ps)"
proof (induction ns arbitrary: ps)
  case Nil
  then show ?case
    by (simp add: settled_def)
next
  case (Cons n ns)
  then show ?case
    using settled_fold_grow [OF settled_own] by (subst settled_Cons) simp
qed

text \<open>In any bounded store, what is found under an offered key afterwards is what was offered last.\<close>

context bounded_store
begin

lemma fold_put_unoffered: "stored vs k = None \<Longrightarrow> look (fold put vs s) k = look s k"
proof (induction vs arbitrary: s)
  case Nil
  then show ?case by simp
next
  case (Cons v vs)
  then have v: "stored vs k = None" "\<not> accept v \<or> key v \<noteq> k"
    by (auto simp: stored_Cons_apply split: option.splits if_splits)
  then have "look (put v s) k = look s k"
    using put_rejected put_look_other by metis
  with Cons.IH [OF v(1)] show ?case
    by simp
qed

lemma fold_put_offered:
  "stored vs k = Some w \<Longrightarrow> look (fold put vs s) k = None \<or> look (fold put vs s) k = Some w"
proof (induction vs arbitrary: s)
  case Nil
  then show ?case by (simp add: stored_def)
next
  case (Cons v vs)
  show ?case
  proof (cases "stored vs k")
    case None
    with Cons.prems have v: "accept v" "key v = k" "w = v"
      by (auto simp: stored_Cons_apply split: if_splits)
    have "look (put v s) k = None \<or> look (put v s) k = Some v"
      using v(1) put_full put_held put_new [of v s]
      by (cases "look s (key v)"; cases "count s < cap") (auto simp flip: v(2))
    with fold_put_unoffered [OF None, of "put v s"] v(3) show ?thesis
      by simp
  next
    case (Some w')
    with Cons show ?thesis
      by (simp add: stored_Cons_apply)
  qed
qed

end

lemma fold_change_fixed:
  "refresh (offered ns) (fold change_peer ns ps) = fold change_peer ns ps"
proof (rule refresh_settled)
  fix k p
  assume "lookup_peer (fold change_peer ns ps) k = Some p"
  then show "offered ns k = None \<or> offered ns k = Some p"
    using peer_store.fold_put_offered [of ns k _ ps] by (cases "offered ns k") (auto simp: stored_offered)
qed

section \<open>The patches as one pass\<close>

text \<open>Every first occurrence of an id is patched, by all the patches that name it.\<close>

fun patch_first :: "(Node \<Rightarrow> Node) \<Rightarrow> i64 set \<Rightarrow> Node list \<Rightarrow> Node list" where
  "patch_first f seen [] = []"
| "patch_first f seen (p # ps) =
     (if node_id p \<in> seen then p else f p) # patch_first f (insert (node_id p) seen) ps"

definition patch_step :: "PeerChange \<Rightarrow> Node \<Rightarrow> Node" where
  "patch_step ch p = (if node_id p = change_node_id ch then patch_peer ch p else p)"

lemma patch_step_id [simp]: "node_id (patch_step ch p) = node_id p"
  by (simp add: patch_step_def patch_peer_frame)

lemma fold_patch_step_id [simp]: "node_id (fold patch_step chs p) = node_id p"
  by (induction chs arbitrary: p) simp_all

lemma patch_first_id [simp]: "patch_first (\<lambda>p. p) seen ps = ps"
  by (induction ps arbitrary: seen) simp_all

lemma patch_first_comp:
  "(\<And>p. node_id (f p) = node_id p) \<Longrightarrow>
   patch_first g seen (patch_first f seen ps) = patch_first (\<lambda>p. g (f p)) seen ps"
  by (induction ps arbitrary: seen) simp_all

lemma patch_first_seen: "change_node_id ch \<in> seen \<Longrightarrow> patch_first (patch_step ch) seen ps = ps"
  by (induction ps arbitrary: seen) (auto simp: patch_step_def)

lemma apply_peer_change_first:
  "change_node_id ch \<notin> seen \<Longrightarrow> apply_peer_change ps ch = patch_first (patch_step ch) seen ps"
proof (induction ps arbitrary: seen)
  case Nil
  then show ?case
    by (simp add: apply_peer_change_def)
next
  case (Cons p ps)
  show ?case
  proof (cases "node_id p = change_node_id ch")
    case True
    with Cons.prems show ?thesis
      by (simp add: apply_peer_change_def patch_step_def [of ch p] patch_first_seen)
  next
    case False
    with Cons.prems Cons.IH [of "insert (node_id p) seen"] show ?thesis
      by (simp add: apply_peer_change_def patch_step_def [of ch p])
  qed
qed

lemma fold_patch_first:
  "fold (\<lambda>ch ps. apply_peer_change ps ch) chs ps = patch_first (fold patch_step chs) {} ps"
proof (induction chs arbitrary: ps)
  case Nil
  have "fold patch_step [] = (\<lambda>p. p)"
    by (simp add: fun_eq_iff)
  then show ?case
    by (simp del: fold_simps fold.simps) simp
next
  case (Cons ch chs)
  have "apply_peer_change ps ch = patch_first (patch_step ch) {} ps"
    by (rule apply_peer_change_first) simp
  moreover have "fold patch_step (ch # chs) = (\<lambda>p. fold patch_step chs (patch_step ch p))"
    by (simp add: fun_eq_iff)
  ultimately show ?case
    using Cons.IH [of "apply_peer_change ps ch"] patch_first_comp [of "patch_step ch"] by simp
qed

text \<open>A later patch overrides an earlier one field by field, so an earlier delivery is absorbed.\<close>

lemma or_keep_absorb:
  "or_keep a (or_keep b (or_keep a x)) = or_keep a (or_keep b x)"
  "the (or_keep a (Some (the (or_keep b (Some (the (or_keep a (Some y)))))))) =
   the (or_keep a (Some (the (or_keep b (Some y)))))"
  by (cases a; simp) (cases a; simp)

lemma patch_peer_absorb:
  "patch_peer ch (patch_peer ch' (patch_peer ch p)) = patch_peer ch (patch_peer ch' p)"
  by (simp add: patch_peer_closed or_keep_absorb)

lemma patch_peer_twice: "patch_peer ch (patch_peer ch p) = patch_peer ch p"
  by (simp add: patch_peer_closed or_keep_def split: option.split)

lemma patch_step_absorb:
  "patch_step ch (patch_step ch' (patch_step ch p)) = patch_step ch (patch_step ch' p)"
  by (simp add: patch_step_def patch_peer_frame patch_peer_absorb patch_peer_twice)

lemma patch_step_twice: "patch_step ch (patch_step ch p) = patch_step ch p"
  by (simp add: patch_step_def patch_peer_frame patch_peer_twice)

lemma fold_patch_absorb_one: "ch \<in> set chs \<Longrightarrow> fold patch_step chs (patch_step ch p) = fold patch_step chs p"
proof (induction chs arbitrary: p)
  case Nil
  then show ?case by simp
next
  case (Cons c chs)
  show ?case
  proof (cases "c = ch")
    case True
    then show ?thesis
      by (simp add: patch_step_twice)
  next
    case False
    then have "fold patch_step chs (patch_step ch q) = fold patch_step chs q" for q
      using Cons by simp
    then show ?thesis
      by (metis fold_simps(2) patch_step_absorb)
  qed
qed

lemma fold_patch_absorb: "set cs \<subseteq> set chs \<Longrightarrow> fold patch_step chs (fold patch_step cs p) = fold patch_step chs p"
  by (induction cs arbitrary: p) (simp_all add: fold_patch_absorb_one)

lemma fold_patch_twice: "fold patch_step chs (fold patch_step chs p) = fold patch_step chs p"
  by (rule fold_patch_absorb) simp

text \<open>The crucial step: when the patched list is refreshed with what it held before the patches, patching
  it again gives it back.\<close>

lemma patch_refreshed:
  assumes "\<And>p. node_id (f p) = node_id p" and "\<And>p. node_key (f p) = node_key p"
    and "\<And>p. f (f p) = f p" and "refresh m ps = ps"
  shows "patch_first f seen (refresh m (patch_first f seen ps)) = patch_first f seen ps"
  using assms(4)
proof (induction ps arbitrary: m seen)
  case Nil
  then show ?case by simp
next
  case (Cons p ps)
  have m: "m (node_key p) = None \<or> m (node_key p) = Some p" and tl: "refresh (m(node_key p := None)) ps = ps"
    using Cons.prems by (auto split: option.splits)
  note ih = Cons.IH [OF tl, of "insert (node_id p) seen"]
  from m show ?case
  proof
    assume "m (node_key p) = None"
    with ih show ?thesis
      by (simp del: fun_upd_apply add: assms(1-3))
  next
    assume "m (node_key p) = Some p"
    with ih show ?thesis
      by (simp del: fun_upd_apply add: assms(1-3))
  qed
qed

section \<open>A delta delivered twice\<close>

text \<open>A patch that gives its peer another key.\<close>

definition rotates_key :: "PeerChange \<Rightarrow> bool" where
  "rotates_key ch \<longleftrightarrow> option_filter is_valid_node_key (change_key ch) \<noteq> None"

lemma fold_patch_step_key:
  "\<forall>ch\<in>set chs. \<not> rotates_key ch \<Longrightarrow> node_key (fold patch_step chs p) = node_key p"
  by (induction chs arbitrary: p) (simp_all add: patch_step_def patch_peer_checked rotates_key_def)

lemma patch_first_keys:
  "(\<And>p. node_key (f p) = node_key p) \<Longrightarrow> map node_key (patch_first f seen ps) = map node_key ps"
  by (induction ps arbitrary: seen) simp_all

lemma changed_and_patched_twice:
  assumes "\<forall>ch\<in>set chs. \<not> rotates_key ch"
  defines "f \<equiv> fold patch_step chs"
  shows "patch_first f {} (fold change_peer ns (patch_first f {} (fold change_peer ns ps)))
    = patch_first f {} (fold change_peer ns ps)"
proof -
  let ?l = "fold change_peer ns ps"
  have key: "node_key (f p) = node_key p" for p
    unfolding f_def by (rule fold_patch_step_key [OF assms(1)])
  have "settled ns (patch_first f {} ?l)"
    using fold_change_settles settled_keys [OF patch_first_keys [OF key]] by blast
  then have "fold change_peer ns (patch_first f {} ?l) = refresh (offered ns) (patch_first f {} ?l)"
    by (rule fold_change_settled)
  moreover have "patch_first f {} (refresh (offered ns) (patch_first f {} ?l)) = patch_first f {} ?l"
    by (rule patch_refreshed [OF _ key _ fold_change_fixed]) (simp_all add: f_def fold_patch_twice)
  ultimately show ?thesis
    by simp
qed

lemma apply_delta_peers_kept:
  assumes "resp_peers resp = None" and "peers_removed resp = None"
  shows "peers (apply_delta resp nm) =
    patch_first (fold patch_step (opt_list (peers_changed_patch resp))) {}
      (fold change_peer (opt_list (peers_changed resp)) (peers nm))"
  using assms
  by (simp add: apply_delta_def delta_self_def delta_peers_def delta_changed_def delta_removed_def
      delta_patch_def delta_dns_def delta_derp_def opt_list_def fold_patch_first [symmetric]
      split: option.split)

text \<open>When the second delivery of a delta changes nothing: it carries a full peer list, or it neither
  removes a peer nor gives one another key.\<close>

definition repeatable :: "MapResponse \<Rightarrow> bool" where
  "repeatable resp \<longleftrightarrow> resp_peers resp \<noteq> None
     \<or> peers_removed resp = None \<and> \<not> list_ex rotates_key (opt_list (peers_changed_patch resp))"

lemma apply_delta_twice:
  assumes "repeatable resp"
  shows "apply_delta resp (apply_delta resp nm) = apply_delta resp nm"
proof (rule Netmap.Netmap.equality)
  show "peers (apply_delta resp (apply_delta resp nm)) = peers (apply_delta resp nm)"
  proof (cases "resp_peers resp")
    case None
    with assms have r: "peers_removed resp = None" "\<forall>ch\<in>set (opt_list (peers_changed_patch resp)). \<not> rotates_key ch"
      by (auto simp: repeatable_def list_ex_iff)
    show ?thesis
      unfolding apply_delta_peers_kept [OF None r(1)] by (rule changed_and_patched_twice [OF r(2)])
  next
    case (Some ps)
    then show ?thesis
      by (rule delta_full_list)
  qed
qed (simp_all add: apply_delta_rest block_frame or_keep_def split: option.split)

text \<open>A first response is merged into the empty map without its lists of changes. When it has none, the
  second delivery finds everything in place.\<close>

definition no_changes :: "MapResponse \<Rightarrow> bool" where
  "no_changes resp \<longleftrightarrow> peers_changed resp = None \<and> peers_removed resp = None \<and> peers_changed_patch resp = None"

lemma no_changes_repeatable: "no_changes resp \<Longrightarrow> repeatable resp"
  by (simp add: no_changes_def repeatable_def)

lemma full_then_delta:
  assumes "no_changes resp"
  shows "apply_delta resp (from_full_response resp) = from_full_response resp"
proof (rule Netmap.Netmap.equality)
  show "peers (apply_delta resp (from_full_response resp)) = peers (from_full_response resp)"
    using assms
    by (simp add: apply_delta_def block_frame delta_self_def delta_peers_def delta_changed_def delta_removed_def
        delta_patch_def no_changes_def from_full_response_def split: option.split)
  show "self_node (apply_delta resp (from_full_response resp)) = self_node (from_full_response resp)"
    by (simp add: apply_delta_rest from_full_response_def or_keep_def split: option.split)
  show "dns_config (apply_delta resp (from_full_response resp)) = dns_config (from_full_response resp)"
    by (simp add: apply_delta_rest from_full_response_def or_keep_def split: option.split)
  show "derp_map (apply_delta resp (from_full_response resp)) = derp_map (from_full_response resp)"
    by (simp add: apply_delta_rest from_full_response_def or_keep_def split: option.split)
qed simp

text \<open>Without the condition the second delivery can matter: a delta that adds a peer and gives it another
  key adds the peer again under its first key, and at the end the client holds it twice.\<close>

definition rekey_patch :: PeerChange where
  "rekey_patch = \<lparr> change_node_id = 1, derp_region = None, change_cap = None, cap_map = None,
     change_endpoints = None, change_key = Some (node_key (sample_node 1 CHR ''b'')),
     change_disco_key = None, change_online = None, change_last_seen = None, change_key_expiry = None \<rparr>"

definition rotation :: MapResponse where
  "rotation = empty_response\<lparr> peers_changed := Some [sample_node 1 CHR ''a''],
     peers_changed_patch := Some [rekey_patch] \<rparr>"

lemma rotation_not_repeatable:
  "peers (apply_delta rotation (sample_netmap [])) = [sample_node 1 CHR ''b'']
   \<and> peers (apply_delta rotation (apply_delta rotation (sample_netmap [])))
     = [sample_node 1 CHR ''b'', sample_node 1 CHR ''a'']
   \<and> \<not> repeatable rotation"
proof -
  let ?a = "sample_node 1 CHR ''a''" and ?b = "sample_node 1 CHR ''b''"
  have v: "node_is_valid ?a" "is_valid_node_key (node_key ?b)"
    using sample_node_valid [of "CHR ''a''" 1] sample_node_valid [of "CHR ''b''" 1]
    by (simp_all add: is_hex_char_def node_is_valid_def)
  have patched: "patch_step rekey_patch (sample_node 1 c) = ?b" for c
    using v(2) by (simp add: patch_step_def patch_peer_closed rekey_patch_def option_filter_def)
      (simp add: sample_node_def)
  have add: "change_peer ?a [] = [?a]" "change_peer ?a [?b] = [?b, ?a]"
    using v(1) by (simp_all add: change_peer_def MAX_PEERS_def)
  have "peers (apply_delta rotation nm)
      = patch_first (patch_step rekey_patch) {} (change_peer ?a (peers nm))" for nm
    by (subst apply_delta_peers_kept) (simp_all add: rotation_def empty_response_def opt_list_def)
  moreover have "patch_first (patch_step rekey_patch) {} [?a] = [?b]"
    "patch_first (patch_step rekey_patch) {} [?b, ?a] = [?b, ?a]"
    by (simp_all add: patched)
  moreover have "\<not> repeatable rotation"
    using v(2) by (simp add: repeatable_def rotation_def empty_response_def opt_list_def rotates_key_def
        rekey_patch_def option_filter_def)
  ultimately show ?thesis
    by (simp add: add)
qed

section \<open>Properties\<close>

text \<open>
  Claim C11. Redelivery is harmless. Take a map response that is a keep-alive, carries a full peer
  list, or neither removes a peer nor gives one another key. Delivered twice in a row it leaves
  exactly what the first delivery left, down to the order of the peers and at whatever distance from
  the peer cap, provided the client already held a map or the response carries no lists of changes:
  changed peers are not appended again, peers refused at the cap stay refused, and patches applied to
  a peer that the same response changed are applied to it again. The proviso is needed, since a
  client's first response is taken without its lists of changes, so that the second delivery is the
  first to apply them; whatever the client, a third delivery changes nothing.
\<close>

theorem redelivery_harmless:
  assumes "repeatable resp \<or> keep_alive resp = Some True"
  shows "(client_netmap c \<noteq> None \<or> no_changes resp
      \<longrightarrow> apply_map_response resp (apply_map_response resp c) = apply_map_response resp c)
    \<and> apply_map_response resp (apply_map_response resp (apply_map_response resp c))
      = apply_map_response resp (apply_map_response resp c)"
proof (cases "keep_alive resp = Some True")
  case True
  then show ?thesis
    by (simp add: apply_map_response_def)
next
  case False
  with assms have r: "repeatable resp"
    by blast
  then show ?thesis
    by (cases "client_netmap c")
      (simp_all add: apply_map_response_def apply_delta_twice full_then_delta)
qed

text \<open>The witness: a delta on a held map, and the same delta on a new client, where the second delivery
  does add the peer.\<close>

definition changed_once :: MapResponse where
  "changed_once = empty_response\<lparr> peers_changed := Some [sample_node 1 CHR ''a''],
     peers_changed_patch := Some [rekey_patch\<lparr> change_key := None, change_online := Some True \<rparr>] \<rparr>"

theorem redelivery_harmless_witness:
  "let held = sample_client\<lparr> client_netmap := Some (sample_netmap [sample_node 3 CHR ''c'']) \<rparr>;
       new = sample_client\<lparr> client_netmap := None \<rparr>;
       again = apply_map_response changed_once
   in again (again held) = again held
      \<and> again (again new) \<noteq> again new \<and> again (again (again new)) = again (again new)"
proof -
  let ?a = "sample_node 1 CHR ''a''"
  have r: "repeatable changed_once"
    by (simp add: changed_once_def repeatable_def empty_response_def opt_list_def rotates_key_def rekey_patch_def
        option_filter_def)
  have v: "node_is_valid ?a"
    using sample_node_valid [of "CHR ''a''" 1] by (simp add: is_hex_char_def)
  have p: "peers (from_full_response changed_once) = []"
    by (simp add: from_full_response_def changed_once_def empty_response_def cap_peers_def)
  have k: "resp_peers changed_once = None" "peers_removed changed_once = None" "keep_alive changed_once = None"
    by (simp_all add: changed_once_def empty_response_def)
  have "length (peers (apply_delta changed_once (from_full_response changed_once))) = 1"
    unfolding apply_delta_peers_kept [OF k(1,2)] p
    using v by (simp add: changed_once_def empty_response_def change_peer_def MAX_PEERS_def)
  with p have "apply_delta changed_once (from_full_response changed_once) \<noteq> from_full_response changed_once"
    by fastforce
  then have n: "apply_map_response changed_once (apply_map_response changed_once (sample_client\<lparr> client_netmap := None \<rparr>))
      \<noteq> apply_map_response changed_once (sample_client\<lparr> client_netmap := None \<rparr>)"
    using k(3) by (auto simp: apply_map_response_def dest: arg_cong [where f = client_netmap])
  show ?thesis
    unfolding Let_def
    using redelivery_harmless [OF disjI1 [OF r], of "sample_client\<lparr> client_netmap := Some (sample_netmap [sample_node 3 CHR ''c'']) \<rparr>"]
      redelivery_harmless [OF disjI1 [OF r], of "sample_client\<lparr> client_netmap := None \<rparr>"] n
    by simp
qed

end
