(* ===== verification/Duplex.thy ===== *)
theory Duplex
  imports Wire
begin

text \<open>
  Two ends of one established connection that both run the wire layer
  (\<^verbatim>\<open>send_message\<close> and \<^verbatim>\<open>recv_message\<close> of \<^verbatim>\<open>crates/dictyon/src/wire/mod.rs\<close>) while a network moves
  bytes between them. Sends, receives and deliveries of any number of bytes interleave freely; the
  states are those of a step relation, and what each side has sent and received is recorded in
  histories. The \<^verbatim>\<open>snow\<close> transport keeps one cipher state for each direction; \<open>duplex\<close> states what
  the two ends rely on.
\<close>

section \<open>The library's two directions\<close>

text \<open>
  \<open>tx\<close> and \<open>rx\<close> are the sending and the receiving cipher state of a transport, and \<open>P s q\<close> says that
  the receiving state \<open>q\<close> is in step with the sending state \<open>s\<close>. A successful write moves only the
  sending state, and what it sealed is opened by every transport with a receiving state in step,
  which moves to the next such state and keeps its sending state; a failed write moves neither.
\<close>

definition duplex ::
  "('h, 't, 'e, 'y) Snow_lib_scheme \<Rightarrow> ('t \<Rightarrow> 'a) \<Rightarrow> ('t \<Rightarrow> 'b) \<Rightarrow> ('a \<Rightarrow> 'b \<Rightarrow> bool) \<Rightarrow> bool" where
  "duplex sn tx rx P \<longleftrightarrow>
     (\<forall>t pt n ct t'. snow_t_write sn t pt n = (Inr ct, t') \<longrightarrow>
        rx t' = rx t
        \<and> (\<forall>q. P (tx t) q \<longrightarrow> (\<exists>q'. P (tx t') q'
            \<and> (\<forall>u. rx u = q \<longrightarrow>
                 (\<exists>u'. snow_t_read sn u ct (length ct) = (Inr pt, u') \<and> rx u' = q' \<and> tx u' = tx u)))))
     \<and> (\<forall>t pt n e t'. snow_t_write sn t pt n = (Inl e, t') \<longrightarrow> tx t' = tx t \<and> rx t' = rx t)"

section \<open>The pipe\<close>

text \<open>
  One end of the connection: the bytes that have arrived and those written but not yet moved by the
  network. A read of more bytes than have arrived waits.
\<close>

record pipe_end =
  inbox :: bytes
  outbox :: bytes

definition pipe_read :: "nat \<Rightarrow> (unit, bytes, pipe_end) io" where
  "pipe_read n p =
     (if n = 0 \<or> inbox p \<noteq> [] then Some (Inr (take n (inbox p)), p\<lparr> inbox := drop n (inbox p) \<rparr>) else None)"

definition pipe_read_exact :: "nat \<Rightarrow> (unit, bytes, pipe_end) io" where
  "pipe_read_exact n p =
     (if n \<le> length (inbox p) then Some (Inr (take n (inbox p)), p\<lparr> inbox := drop n (inbox p) \<rparr>) else None)"

definition pipe_ops :: "(pipe_end, unit) Stream_ops" where
  "pipe_ops =
     \<lparr> stream_read = pipe_read, stream_read_exact = pipe_read_exact,
       stream_write_all = (\<lambda>bs p. Some (Inr (), p\<lparr> outbox := outbox p @ bs \<rparr>)) \<rparr>"

type_synonym 't endpoint = "(pipe_end, 't) AsyncControlStream"

definition arrived :: "'t endpoint \<Rightarrow> bytes" where
  "arrived a = acs_pending a @ inbox (acs_stream a)"

definition end_state :: "'t endpoint \<Rightarrow> 't" where
  "end_state a = transport (conn_noise (acs_conn a))"

definition end_config :: "'t endpoint \<Rightarrow> NoiseConfig" where
  "end_config a = nt_config (conn_noise (acs_conn a))"

text \<open>Filling a buffer takes it off what has arrived, or waits.\<close>

definition taken_from :: "nat \<Rightarrow> 't endpoint \<Rightarrow> 't endpoint" where
  "taken_from n a = a\<lparr> acs_pending := drop n (acs_pending a),
     acs_stream := (acs_stream a)\<lparr> inbox := drop (n - length (acs_pending a)) (inbox (acs_stream a)) \<rparr> \<rparr>"

lemma taken_from_simps [simp]:
  "arrived (taken_from n a) = drop n (arrived a)"
  "acs_conn (taken_from n a) = acs_conn a"
  "outbox (acs_stream (taken_from n a)) = outbox (acs_stream a)"
  by (simp_all add: taken_from_def arrived_def)

lemma pipe_fill:
  "fill_exact pipe_ops n a =
     (if n \<le> length (arrived a)
      then Some (Inr (take n (arrived a)) :: ((unit, 'e) WireError, bytes) result, taken_from n a) else None)"
proof (cases "n \<le> length (acs_pending a)")
  case True
  then show ?thesis
    by (cases a) (simp add: fill_exact_def take_pending_def Let_def arrived_def taken_from_def min_def)
next
  case False
  then have "take_pending (acs_pending a) n = (acs_pending a, [])"
    by (simp add: take_pending_def min_def)
  with False show ?thesis
    by (auto simp: fill_exact_def pipe_ops_def pipe_read_exact_def arrived_def taken_from_def Let_def)
qed

text \<open>What is in flight towards an end, as messages: the frames that the receiving states to come will
  open, up to a state in step with the sending state.\<close>

inductive carries ::
  "('h, 't, 'e, 'y) Snow_lib_scheme \<Rightarrow> ('t \<Rightarrow> 'a) \<Rightarrow> ('t \<Rightarrow> 'b) \<Rightarrow> ('a \<Rightarrow> 'b \<Rightarrow> bool)
     \<Rightarrow> 'a \<Rightarrow> 'b \<Rightarrow> bytes \<Rightarrow> bytes list \<Rightarrow> bool"
  for sn tx rx P where
  carries_nil: "P s q \<Longrightarrow> carries sn tx rx P s q [] []"
| carries_frame: "16 \<le> length ct \<Longrightarrow> length ct < 65536
    \<Longrightarrow> (\<And>u. rx u = q \<Longrightarrow> \<exists>u'. snow_t_read sn u ct (length ct) = (Inr m, u') \<and> rx u' = q' \<and> tx u' = tx u)
    \<Longrightarrow> carries sn tx rx P s q' bs ms
    \<Longrightarrow> carries sn tx rx P s q (MSG_TYPE_TRANSPORT # be16_enc (length ct) @ ct @ bs) (m # ms)"

inductive_cases carries_nilE: "carries sn tx rx P s q bs []"
inductive_cases carries_consE: "carries sn tx rx P s q bs (m # ms)"

lemma carries_empty: "carries sn tx rx P s q [] ms \<Longrightarrow> ms = []"
  by (erule carries.cases) simp_all

lemma carries_append:
  assumes "carries sn tx rx P (tx t) q bs ms" and "duplex sn tx rx P" and "seals sn"
    and "snow_t_write sn t pt n = (Inr ct, t')" and "length ct < 65536"
  shows "carries sn tx rx P (tx t') q (bs @ MSG_TYPE_TRANSPORT # be16_enc (length ct) @ ct) (ms @ [pt])"
  using assms(1)
proof (induction s \<equiv> "tx t" q bs ms rule: carries.induct)
  case (carries_nil q)
  then obtain q' where q': "P (tx t') q'"
    "\<And>u. rx u = q \<Longrightarrow> \<exists>u'. snow_t_read sn u ct (length ct) = (Inr pt, u') \<and> rx u' = q' \<and> tx u' = tx u"
    using assms(2,4) unfolding duplex_def by metis
  have "length ct = length pt + 16"
    using assms(3,4) unfolding seals_def by blast
  then have "16 \<le> length ct"
    by simp
  from carries.carries_frame [OF this assms(5) q'(2) carries.carries_nil [of P, OF q'(1)]] show ?case
    by simp
next
  case (carries_frame ct1 q m q' bs ms)
  from carries.carries_frame [OF carries_frame(1-3,5)] show ?case
    by simp
qed

lemma carries_frameE:
  assumes "carries sn tx rx P s q bs ms" and "bs \<noteq> []"
  obtains ct m ms' q' bs' where "bs = MSG_TYPE_TRANSPORT # be16_enc (length ct) @ ct @ bs'" "ms = m # ms'"
    "16 \<le> length ct" "length ct < 65536"
    "\<forall>u. rx u = q \<longrightarrow> (\<exists>u'. snow_t_read sn u ct (length ct) = (Inr m, u') \<and> rx u' = q' \<and> tx u' = tx u)"
    "carries sn tx rx P s q' bs' ms'"
  using assms by (cases rule: carries.cases) blast+

section \<open>Receiving on the pipe\<close>

text \<open>A receive waits until the whole first frame has arrived and then returns its message.\<close>

lemma pipe_recv:
  fixes b :: "'t endpoint" and sn :: "('h, 't, 'e, 'y) Snow_lib_scheme"
  assumes "carries sn tx rx P s (rx (end_state b)) (arrived b @ rest) ms"
  shows "recv_message sn pipe_ops b = (None :: ((((unit, 'e) WireError, bytes) result) \<times> 't endpoint) option)
      \<and> (rest = [] \<longrightarrow> ms = [])
    \<or> (\<exists>m ms' b'. ms = m # ms'
        \<and> recv_message sn pipe_ops b = Some (Inr m :: ((unit, 'e) WireError, bytes) result, b')
        \<and> carries sn tx rx P s (rx (end_state b')) (arrived b' @ rest) ms'
        \<and> tx (end_state b') = tx (end_state b) \<and> end_config b' = end_config b
        \<and> outbox (acs_stream b') = outbox (acs_stream b))"
proof (cases "arrived b @ rest = []")
  case True
  then show ?thesis
    using assms carries_empty by (auto simp: recv_message_def bind_io_def pipe_fill)
next
  case False
  obtain ct m ms' q' bs' where bs: "arrived b @ rest = MSG_TYPE_TRANSPORT # be16_enc (length ct) @ ct @ bs'"
    and ms: "ms = m # ms'" and ct: "16 \<le> length ct" "length ct < 65536"
    and opens: "\<forall>u. rx u = rx (end_state b) \<longrightarrow>
      (\<exists>u'. snow_t_read sn u ct (length ct) = (Inr m, u') \<and> rx u' = q' \<and> tx u' = tx u)"
    and rest: "carries sn tx rx P s q' bs' ms'"
    using carries_frameE [OF assms False] .
  let ?h = "MSG_TYPE_TRANSPORT # be16_enc (length ct)"
  have len: "length (arrived b) + length rest = 3 + length ct + length bs'"
    using arg_cong [OF bs, of length] by simp
  have cut: "take n (arrived b) = take n (?h @ ct @ bs')" if "n \<le> length (arrived b)" for n
    using arg_cong [OF bs, of "take n"] that by simp
  have body_len: "unat (u16_from_be_bytes (be16_enc (length ct) ! 0) (be16_enc (length ct) ! Suc 0)) = length ct"
    using ct(2) by (rule_tac be16_enc_pair [of "length ct"]) simp
  show ?thesis
  proof (cases "3 + length ct \<le> length (arrived b)")
    case True
    have h: "take 3 (arrived b) = ?h"
      using cut [of 3] True by simp
    have "take (length ct + 3) (arrived b) = ?h @ ct"
      using cut [of "length ct + 3"] True by (simp add: numeral_3_eq_3)
    then have body: "take (length ct) (drop 3 (arrived b)) = ct"
      by (simp add: take_drop)
    have left: "drop (length ct) (drop 3 (arrived b)) @ rest = bs'"
      using arg_cong [OF bs, of "drop (length ct + 3)"] True by (simp add: numeral_3_eq_3)
    obtain u' where u': "snow_t_read sn (end_state b) ct (length ct) = (Inr m, u')"
      "rx u' = q'" "tx u' = tx (end_state b)"
      using opens by blast
    let ?c = "(acs_conn b)\<lparr> conn_noise := (conn_noise (acs_conn b))\<lparr> transport := u' \<rparr> \<rparr>"
    let ?b = "(taken_from (length ct) (taken_from 3 b))\<lparr> acs_conn := ?c \<rparr>"
    have r: "receive sn (acs_conn b) ct = (Inr m, ?c)"
      using u'(1) ct(1) by (simp add: receive_def decrypt_def TAG_LEN_def end_state_def)
    have "recv_message sn pipe_ops b = Some (Inr m :: ((unit, 'e) WireError, bytes) result, ?b)"
      using True r by (simp add: recv_message_def bind_io_def pipe_fill h body body_len open_frame_def
          FRAME_TYPE_TRANSPORT_def MSG_TYPE_TRANSPORT_def)
    moreover have "arrived ?b @ rest = bs'"
      using left by (simp add: arrived_def taken_from_def)
    ultimately show ?thesis
      using ms rest u'(2,3)
      by (intro disjI2 exI [of _ m] exI [of _ ms'] exI [of _ ?b]) (simp add: end_state_def end_config_def)
  next
    case False
    then have "rest \<noteq> []"
      using len by auto
    moreover have "recv_message sn pipe_ops b = (None :: ((((unit, 'e) WireError, bytes) result) \<times> 't endpoint) option)"
    proof (cases "3 \<le> length (arrived b)")
      case True
      then have "take 3 (arrived b) = ?h"
        using cut [of 3] by simp
      moreover have "\<not> length ct \<le> length (arrived b) - 3"
        using True False by linarith
      ultimately show ?thesis
        using True
        by (simp add: recv_message_def bind_io_def pipe_fill body_len
          FRAME_TYPE_TRANSPORT_def MSG_TYPE_TRANSPORT_def)
    qed (simp add: recv_message_def bind_io_def pipe_fill)
    ultimately show ?thesis
      by simp
  qed
qed

section \<open>Sending on the pipe\<close>

text \<open>With a validated configuration a failed seal has moved no cipher state.\<close>

lemma encrypt_Inl:
  assumes "encrypt sn nt pt = (Inl e, nt')" and "seals sn" and "NoiseConfig_validate (nt_config nt) = Inr ()"
  shows "nt' = nt \<or> (\<exists>e' t'. snow_t_write sn (transport nt) pt (length pt + TAG_LEN) = (Inl e', t')
    \<and> nt' = nt\<lparr> transport := t' \<rparr>)"
proof -
  obtain r t' where w: "snow_t_write sn (transport nt) pt (length pt + TAG_LEN) = (r, t')"
    by fastforce
  show ?thesis
  proof (cases "unat (max_frame_payload (nt_config nt)) < length pt")
    case True
    with assms(1) show ?thesis
      by (simp add: encrypt_def)
  next
    case False
    have "r \<noteq> Inr ct" for ct
    proof
      assume r: "r = Inr ct"
      with w assms(2) have "length ct = length pt + 16"
        unfolding seals_def by blast
      moreover have "length pt \<le> 65519"
        using False assms(3) by (simp add: noise_validate_iff noise_in_range_def)
      ultimately show False
        using assms(1) w r False by (simp add: encrypt_def u16_try_from_def)
    qed
    then obtain e' where "r = Inl e'"
      by (cases r) auto
    with assms(1) w False show ?thesis
      by (auto simp: encrypt_def)
  qed
qed

text \<open>A send puts its frame behind what is in flight, or puts nothing there; the other direction
  stays as it is.\<close>

lemma pipe_send:
  assumes "send_message sn pipe_ops m a = Some (r, a')"
    and "carries sn tx rx P (tx (end_state a)) q (bs @ outbox (acs_stream a)) ms"
    and "duplex sn tx rx P" and "seals sn" and "NoiseConfig_validate (end_config a) = Inr ()"
  shows "carries sn tx rx P (tx (end_state a')) q (bs @ outbox (acs_stream a')) (if is_ok r then ms @ [m] else ms)
    \<and> rx (end_state a') = rx (end_state a) \<and> arrived a' = arrived a \<and> end_config a' = end_config a"
proof -
  let ?nt = "conn_noise (acs_conn a)"
  obtain e nt' where e: "encrypt sn ?nt m = (e, nt')"
    by fastforce
  show ?thesis
  proof (cases e)
    case (Inl x)
    with e assms(1) have r: "\<not> is_ok r" and a': "a' = a\<lparr> acs_conn := (acs_conn a)\<lparr> conn_noise := nt' \<rparr> \<rparr>"
      by (auto simp: send_message_def send_def)
    have "nt' = ?nt \<or> (\<exists>e' t'. snow_t_write sn (transport ?nt) m (length m + TAG_LEN) = (Inl e', t')
        \<and> nt' = ?nt\<lparr> transport := t' \<rparr>)"
      using encrypt_Inl [OF e [unfolded Inl] assms(4)] assms(5) by (simp add: end_config_def)
    then have "tx (transport nt') = tx (transport ?nt) \<and> rx (transport nt') = rx (transport ?nt)
        \<and> nt_config nt' = nt_config ?nt"
      using assms(3) unfolding duplex_def by auto
    with assms(2) r a' show ?thesis
      by (auto simp: end_state_def end_config_def arrived_def)
  next
    case (Inr frame)
    obtain ct t' where w: "snow_t_write sn (transport ?nt) m (length m + TAG_LEN) = (Inr ct, t')"
      and nt': "nt' = ?nt\<lparr> transport := t' \<rparr>" and ct: "length ct < 65536"
      and f: "frame = MSG_TYPE_TRANSPORT # be16_enc (length ct) @ ct"
      using e unfolding Inr by (rule encrypt_Inr)
    have a': "a' = a\<lparr> acs_conn := (acs_conn a)\<lparr> conn_noise := nt' \<rparr>,
        acs_stream := (acs_stream a)\<lparr> outbox := outbox (acs_stream a) @ frame \<rparr> \<rparr>" and r: "r = Inr ()"
      using e Inr assms(1) by (auto simp: send_message_def send_def pipe_ops_def)
    have "rx t' = rx (transport ?nt)"
      using assms(3) w unfolding duplex_def by blast
    moreover have "carries sn tx rx P (tx t') q ((bs @ outbox (acs_stream a)) @ frame) (ms @ [m])"
      unfolding f using assms(2) by (intro carries_append [OF _ assms(3,4) w ct]) (simp add: end_state_def)
    ultimately show ?thesis
      by (simp add: a' r nt' end_state_def end_config_def arrived_def)
  qed
qed

section \<open>Two ends and the network between them\<close>

record 't two_ends =
  left :: "'t endpoint"
  right :: "'t endpoint"
  left_sent :: "bytes list"
  left_got :: "bytes list"
  right_sent :: "bytes list"
  right_got :: "bytes list"
  broken :: bool

definition mirror :: "'t two_ends \<Rightarrow> 't two_ends" where
  "mirror d = \<lparr> left = right d, right = left d, left_sent = right_sent d, left_got = right_got d,
     right_sent = left_sent d, right_got = left_got d, broken = broken d \<rparr>"

definition deliver :: "nat \<Rightarrow> 't endpoint \<Rightarrow> 't endpoint \<Rightarrow> 't endpoint \<times> 't endpoint" where
  "deliver n a b =
     (a\<lparr> acs_stream := (acs_stream a)\<lparr> outbox := drop n (outbox (acs_stream a)) \<rparr> \<rparr>,
      b\<lparr> acs_stream := (acs_stream b)\<lparr> inbox := inbox (acs_stream b) @ take n (outbox (acs_stream a)) \<rparr> \<rparr>)"

text \<open>What one end can do: a send or a receive that returns, and the network's delivery of some of
  what it wrote. A receive that returns an error breaks the session.\<close>

inductive left_step :: "('h, 't, 'e, 'y) Snow_lib_scheme \<Rightarrow> 't two_ends \<Rightarrow> 't two_ends \<Rightarrow> bool" for sn where
  sends: "send_message sn pipe_ops m (left d) = Some (Inr (), a) \<Longrightarrow>
    left_step sn d (d\<lparr> left := a, left_sent := left_sent d @ [m] \<rparr>)"
| send_fails: "send_message sn pipe_ops m (left d) = Some (Inl e, a) \<Longrightarrow>
    left_step sn d (d\<lparr> left := a \<rparr>)"
| receives: "recv_message sn pipe_ops (left d) = Some (Inr m, a) \<Longrightarrow>
    left_step sn d (d\<lparr> left := a, left_got := left_got d @ [m] \<rparr>)"
| receive_fails: "recv_message sn pipe_ops (left d) = Some (Inl e, a) \<Longrightarrow>
    left_step sn d (d\<lparr> left := a, broken := True \<rparr>)"
| delivers: "deliver n (left d) (right d) = (a, b) \<Longrightarrow> left_step sn d (d\<lparr> left := a, right := b \<rparr>)"

inductive session_reaches :: "('h, 't, 'e, 'y) Snow_lib_scheme \<Rightarrow> 't two_ends \<Rightarrow> 't two_ends \<Rightarrow> bool"
  for sn d0 where
  session_start: "session_reaches sn d0 d0"
| session_left: "session_reaches sn d0 d \<Longrightarrow> left_step sn d d' \<Longrightarrow> session_reaches sn d0 d'"
| session_right: "session_reaches sn d0 d \<Longrightarrow> left_step sn (mirror d) (mirror d') \<Longrightarrow> session_reaches sn d0 d'"

definition session_begin :: "'t endpoint \<Rightarrow> 't endpoint \<Rightarrow> 't two_ends" where
  "session_begin a b = \<lparr> left = a, right = b, left_sent = [], left_got = [], right_sent = [],
     right_got = [], broken = False \<rparr>"

text \<open>Two ends right after their handshake: nothing in flight, both directions in step.\<close>

definition fresh_ends :: "('t \<Rightarrow> 'a) \<Rightarrow> ('t \<Rightarrow> 'b) \<Rightarrow> ('a \<Rightarrow> 'b \<Rightarrow> bool) \<Rightarrow> 't endpoint \<Rightarrow> 't endpoint \<Rightarrow> bool" where
  "fresh_ends tx rx P a b \<longleftrightarrow>
     P (tx (end_state a)) (rx (end_state b)) \<and> P (tx (end_state b)) (rx (end_state a))
     \<and> arrived a = [] \<and> arrived b = [] \<and> outbox (acs_stream a) = [] \<and> outbox (acs_stream b) = []
     \<and> NoiseConfig_validate (end_config a) = Inr () \<and> NoiseConfig_validate (end_config b) = Inr ()"

section \<open>The invariant\<close>

definition flow ::
  "('h, 't, 'e, 'y) Snow_lib_scheme \<Rightarrow> ('t \<Rightarrow> 'a) \<Rightarrow> ('t \<Rightarrow> 'b) \<Rightarrow> ('a \<Rightarrow> 'b \<Rightarrow> bool)
     \<Rightarrow> 't endpoint \<Rightarrow> 't endpoint \<Rightarrow> bytes list \<Rightarrow> bytes list \<Rightarrow> bool" where
  "flow sn tx rx P a b sent got \<longleftrightarrow>
     (\<exists>ms. sent = got @ ms
       \<and> carries sn tx rx P (tx (end_state a)) (rx (end_state b)) (arrived b @ outbox (acs_stream a)) ms)"

definition session_inv ::
  "('h, 't, 'e, 'y) Snow_lib_scheme \<Rightarrow> ('t \<Rightarrow> 'a) \<Rightarrow> ('t \<Rightarrow> 'b) \<Rightarrow> ('a \<Rightarrow> 'b \<Rightarrow> bool)
     \<Rightarrow> 't two_ends \<Rightarrow> bool" where
  "session_inv sn tx rx P d \<longleftrightarrow>
     flow sn tx rx P (left d) (right d) (left_sent d) (right_got d)
     \<and> flow sn tx rx P (right d) (left d) (right_sent d) (left_got d)
     \<and> NoiseConfig_validate (end_config (left d)) = Inr ()
     \<and> NoiseConfig_validate (end_config (right d)) = Inr () \<and> \<not> broken d"

lemma session_inv_mirror: "session_inv sn tx rx P (mirror d) = session_inv sn tx rx P d"
  by (auto simp: session_inv_def mirror_def)

lemma flow_deliver:
  assumes "deliver n a b = (a', b')"
  shows "flow sn tx rx P a' b' sent got = flow sn tx rx P a b sent got"
    and "flow sn tx rx P b' a' sent' got' = flow sn tx rx P b a sent' got'"
    and "end_config a' = end_config a" and "end_config b' = end_config b"
  using assms by (auto simp: deliver_def flow_def arrived_def end_state_def end_config_def)

lemma flow_send:
  assumes "send_message sn pipe_ops m a = Some (r, a')" and "flow sn tx rx P a b sent got"
    and "duplex sn tx rx P" and "seals sn" and "NoiseConfig_validate (end_config a) = Inr ()"
  shows "flow sn tx rx P a' b (if is_ok r then sent @ [m] else sent) got"
    and "flow sn tx rx P b a' sent' got' = flow sn tx rx P b a sent' got'"
    and "end_config a' = end_config a"
proof -
  obtain ms where ms: "sent = got @ ms"
    and c: "carries sn tx rx P (tx (end_state a)) (rx (end_state b)) (arrived b @ outbox (acs_stream a)) ms"
    using assms(2) by (auto simp: flow_def)
  note s = pipe_send [OF assms(1) c assms(3-5)]
  show "flow sn tx rx P a' b (if is_ok r then sent @ [m] else sent) got"
    using s ms by (auto simp: flow_def)
  show "flow sn tx rx P b a' sent' got' = flow sn tx rx P b a sent' got'"
    using s by (simp add: flow_def)
  show "end_config a' = end_config a"
    using s by simp
qed

lemma flow_recv:
  fixes r :: "((unit, 'e) WireError, bytes) result" and sn :: "('h, 't, 'e, 'y) Snow_lib_scheme"
  assumes "recv_message sn pipe_ops a = Some (r, a')" and "flow sn tx rx P b a sent got"
  obtains m where "r = Inr m" "flow sn tx rx P b a' sent (got @ [m])"
    "\<And>sent' got'. flow sn tx rx P a' b sent' got' = flow sn tx rx P a b sent' got'"
    "end_config a' = end_config a"
proof -
  obtain ms where ms: "sent = got @ ms"
    and c: "carries sn tx rx P (tx (end_state b)) (rx (end_state a)) (arrived a @ outbox (acs_stream b)) ms"
    using assms(2) by (auto simp: flow_def)
  from pipe_recv [OF c] obtain m ms' where "r = Inr m" "ms = m # ms'"
    "carries sn tx rx P (tx (end_state b)) (rx (end_state a')) (arrived a' @ outbox (acs_stream b)) ms'"
    "tx (end_state a') = tx (end_state a)" "end_config a' = end_config a"
    "outbox (acs_stream a') = outbox (acs_stream a)"
    using assms(1) by auto
  with ms show thesis
    by (intro that) (auto simp: flow_def)
qed

lemma session_invD:
  assumes "session_inv sn tx rx P d"
  shows "flow sn tx rx P (left d) (right d) (left_sent d) (right_got d)"
    and "flow sn tx rx P (right d) (left d) (right_sent d) (left_got d)"
    and "NoiseConfig_validate (end_config (left d)) = Inr ()"
  using assms by (simp_all add: session_inv_def)

lemma left_step_inv:
  fixes sn :: "('h, 't, 'e, 'y) Snow_lib_scheme"
  assumes "left_step sn d d'" and "session_inv sn tx rx P d" and "duplex sn tx rx P" and "seals sn"
  shows "session_inv sn tx rx P d'"
  using assms(1,2)
proof (induction rule: left_step.induct)
  case (sends m d a)
  note inv = session_invD [OF sends.prems]
  note s = flow_send [OF sends.hyps inv(1) assms(3,4) inv(3)]
  show ?case
    using s(1) s(2) [of "right_sent d" "left_got d"] s(3) inv(2) sends.prems by (simp add: session_inv_def)
next
  case (send_fails m d e a)
  note inv = session_invD [OF send_fails.prems]
  note s = flow_send [OF send_fails.hyps inv(1) assms(3,4) inv(3)]
  show ?case
    using s(1) s(2) [of "right_sent d" "left_got d"] s(3) inv(2) send_fails.prems by (simp add: session_inv_def)
next
  case (receives d m a)
  note inv = session_invD [OF receives.prems]
  show ?case
    by (rule flow_recv [OF receives.hyps inv(2)]) (use receives.prems in \<open>simp add: session_inv_def\<close>)
next
  case (receive_fails d e a)
  note inv = session_invD [OF receive_fails.prems]
  show ?case
    by (rule flow_recv [OF receive_fails.hyps inv(2)]) simp
next
  case (delivers n d a b)
  show ?case
    using flow_deliver(1,2) [where sn = sn and tx = tx and rx = rx and P = P, OF delivers.hyps]
      flow_deliver(3,4) [OF delivers.hyps] delivers.prems
    by (simp add: session_inv_def)
qed

lemma session_reaches_inv:
  fixes sn :: "('h, 't, 'e, 'y) Snow_lib_scheme"
  assumes "session_reaches sn d0 d" and "session_inv sn tx rx P d0" and "duplex sn tx rx P" and "seals sn"
  shows "session_inv sn tx rx P d"
  using assms(1)
proof (induction rule: session_reaches.induct)
  case session_start
  show ?case
    by (rule assms(2))
next
  case (session_left d d')
  show ?case
    by (rule left_step_inv [OF session_left.hyps(2) session_left.IH assms(3,4)])
next
  case (session_right d d')
  have "session_inv sn tx rx P (mirror d)"
    using session_right.IH by (simp add: session_inv_mirror)
  from left_step_inv [OF session_right.hyps(2) this assms(3,4)] show ?case
    by (simp add: session_inv_mirror)
qed

lemma session_inv_begin: "fresh_ends tx rx P a b \<Longrightarrow> session_inv sn tx rx P (session_begin a b)"
  by (auto simp: session_inv_def session_begin_def flow_def fresh_ends_def intro: carries_nil)

section \<open>A sample session\<close>

text \<open>An instance of the library with a counter for each direction.\<close>

definition duplex_snow :: "(unit, nat \<times> nat, unit) Snow_lib" where
  "duplex_snow = \<lparr> snow_initiator = (\<lambda>_ _ _ _. Inr ()), snow_hs_write = (\<lambda>h _ _. (Inr [], h)),
     snow_hs_read = (\<lambda>h _ _. (Inr [], h)), snow_into_transport = (\<lambda>_. Inr (0, 0)),
     snow_t_write = (\<lambda>(i, j) pt n.
       if length pt + 16 \<le> n then (Inr (pt @ replicate 16 (of_nat i)), (Suc i, j)) else (Inl (), (i, j))),
     snow_t_read = (\<lambda>(i, j) ct n.
       let k = length ct - 16 in
       if 16 \<le> length ct \<and> drop k ct = replicate 16 (of_nat j)
       then (Inr (take k ct), (i, Suc j)) else (Inl (), (i, j))),
     snow_display = (\<lambda>_. ''mock'') \<rparr>"

lemma duplex_snow_seals: "seals duplex_snow"
  by (auto simp: seals_def duplex_snow_def split: if_splits)

lemma duplex_snow_duplex: "duplex duplex_snow fst snd (=)"
  by (auto simp: duplex_def duplex_snow_def Let_def split: if_splits)

definition sample_end :: "nat \<times> nat \<Rightarrow> bytes \<Rightarrow> bytes \<Rightarrow> (nat \<times> nat) endpoint" where
  "sample_end t i out = \<lparr> acs_stream = \<lparr> inbox = i, outbox = out \<rparr>,
     acs_conn = \<lparr> conn_noise = NoiseTransport_from_snow t \<rparr>, acs_pending = [] \<rparr>"

definition sample_frame :: bytes where
  "sample_frame = [0x04, 0x00, 0x11, 7] @ replicate 16 0"

text \<open>The left end sends a message, the network delivers it in two pieces.\<close>

definition sample_session :: "(nat \<times> nat) two_ends" where
  "sample_session = \<lparr> left = sample_end (1, 0) [] [], right = sample_end (0, 0) sample_frame [],
     left_sent = [[7]], left_got = [], right_sent = [], right_got = [], broken = False \<rparr>"

lemma sample_session_reached:
  "session_reaches duplex_snow (session_begin (sample_end (0, 0) [] []) (sample_end (0, 0) [] [])) sample_session"
proof -
  let ?d0 = "session_begin (sample_end (0, 0) [] []) (sample_end (0, 0) [] [])"
  let ?d1 = "?d0\<lparr> left := sample_end (1, 0) [] sample_frame, left_sent := [[7]] \<rparr>"
  let ?d2 = "?d1\<lparr> left := sample_end (1, 0) [] (drop 2 sample_frame),
    right := sample_end (0, 0) (take 2 sample_frame) [] \<rparr>"
  have "send_message duplex_snow pipe_ops [7] (sample_end (0, 0) [] [])
      = Some (Inr () :: ((unit, unit) WireError, unit) result, sample_end (1, 0) [] sample_frame)"
    by (simp add: send_message_def send_def encrypt_def duplex_snow_def sample_end_def pipe_ops_def
        NoiseTransport_from_snow_def NoiseConfig_default_def config_constants TAG_LEN_def
        u16_try_from_def u16_to_be_bytes_def MSG_TYPE_TRANSPORT_def sample_frame_def)
  then have "left_step duplex_snow ?d0 (?d0\<lparr> left := sample_end (1, 0) [] sample_frame, left_sent := left_sent ?d0 @ [[7]] \<rparr>)"
    by (intro left_step.sends) (simp add: session_begin_def)
  then have s1: "left_step duplex_snow ?d0 ?d1"
    by (simp add: session_begin_def)
  have s2: "left_step duplex_snow ?d1 ?d2"
    by (rule left_step.delivers [of 2]) (simp add: deliver_def sample_end_def sample_frame_def session_begin_def)
  have "left_step duplex_snow ?d2 (?d2\<lparr> left := sample_end (1, 0) [] [], right := sample_end (0, 0) sample_frame [] \<rparr>)"
    by (rule left_step.delivers [of 18]) (simp add: deliver_def sample_end_def sample_frame_def session_begin_def)
  then have s3: "left_step duplex_snow ?d2 sample_session"
    by (simp add: session_begin_def sample_session_def)
  show ?thesis
    by (intro session_left [OF _ s3] session_left [OF _ s2] session_left [OF _ s1] session_start)
qed

section \<open>Properties\<close>

text \<open>What an end does that waits for the messages \<open>ms\<close>.\<close>

definition receives_next :: "('h, 't, 'e, 'y) Snow_lib_scheme \<Rightarrow> 't endpoint \<Rightarrow> bytes list \<Rightarrow> bool" where
  "receives_next sn b ms =
     (case ms of
        [] \<Rightarrow> recv_message sn pipe_ops b = (None :: ((((unit, 'e) WireError, bytes) result) \<times> 't endpoint) option)
      | m # _ \<Rightarrow> (\<exists>b'. recv_message sn pipe_ops b = Some (Inr m :: ((unit, 'e) WireError, bytes) result, b')))"

lemma flow_receives:
  "flow sn tx rx P a b sent got \<Longrightarrow>
   \<exists>ms. sent = got @ ms \<and> (outbox (acs_stream a) = [] \<longrightarrow> receives_next sn b ms)"
  unfolding flow_def receives_next_def
  by (elim exE conjE, drule pipe_recv) (auto split: list.split)

text \<open>
  Claim C5. Both directions at once. Let two ends of a fresh session send, receive and have any number of their
  bytes delivered, in any interleaving, with sends that fail for their size or in the library in
  between. At every moment no receive has failed, and on each side what was received is what the
  other side sent, in order, up to the messages still in flight; once the bytes in flight are
  delivered, the next receive returns the oldest of these messages, and waits when there is none.
\<close>

theorem duplex_in_order:
  assumes "duplex sn tx rx P" and "seals sn" and "fresh_ends tx rx P a b"
    and "session_reaches sn (session_begin a b) d"
  shows "\<not> broken d
    \<and> (\<exists>ms. left_sent d = right_got d @ ms
         \<and> (outbox (acs_stream (left d)) = [] \<longrightarrow> receives_next sn (right d) ms))
    \<and> (\<exists>ms. right_sent d = left_got d @ ms
         \<and> (outbox (acs_stream (right d)) = [] \<longrightarrow> receives_next sn (left d) ms))"
proof -
  have inv: "session_inv sn tx rx P d"
    by (rule session_reaches_inv [OF assms(4) session_inv_begin [OF assms(3)] assms(1,2)])
  show ?thesis
    using flow_receives [OF session_invD(1) [OF inv]] flow_receives [OF session_invD(2) [OF inv]] inv
    by (simp add: session_inv_def)
qed

theorem duplex_in_order_witness:
  "\<exists>b. recv_message duplex_snow pipe_ops (right sample_session)
     = Some (Inr [7] :: ((unit, unit) WireError, bytes) result, b)"
proof -
  have v: "NoiseConfig_validate NoiseConfig_default = Inr ()"
    by (simp add: NoiseConfig_validate_def NoiseConfig_default_def config_constants)
  have "fresh_ends fst snd (=) (sample_end (0, 0) [] []) (sample_end (0, 0) [] [])"
    by (simp add: fresh_ends_def sample_end_def end_state_def end_config_def arrived_def
        NoiseTransport_from_snow_def v)
  from duplex_in_order [OF duplex_snow_duplex duplex_snow_seals this sample_session_reached]
  show ?thesis
    by (simp add: sample_session_def sample_end_def receives_next_def)
qed

end
