(* ===== verification/Request_Wire.thy ===== *)
theory Request_Wire
  imports Control_Json Duplex
begin

text \<open>
  What the requests of the control client (\<^verbatim>\<open>register\<close>, \<^verbatim>\<open>poll_registration\<close> and \<^verbatim>\<open>start_map_stream\<close> of
  \<^verbatim>\<open>crates/dictyon/src/control/mod.rs\<close>) put on the wire: the JSON document, framed with its length,
  sealed and framed again, as one record of bytes that the server's end of the session opens. The
  stream's write side is \<open>written\<close>, with its law \<open>records\<close>.
\<close>

section \<open>The write side of the stream\<close>

text \<open>
  The documented behaviour: \<^verbatim>\<open>write_all\<close> appends the whole buffer to what has been written, or fails after
  some part of it; reads write nothing.
\<close>

definition records :: "('s, 'i, 'x) Stream_ops_scheme \<Rightarrow> ('s \<Rightarrow> bytes) \<Rightarrow> bool" where
  "records ops written \<longleftrightarrow>
     (\<forall>n s r s'. stream_read ops n s = Some (r, s') \<longrightarrow> written s' = written s)
     \<and> (\<forall>n s r s'. stream_read_exact ops n s = Some (r, s') \<longrightarrow> written s' = written s)
     \<and> (\<forall>out s r s'. stream_write_all ops out s = Some (r, s') \<longrightarrow>
          (\<exists>part tail. out = part @ tail \<and> written s' = written s @ part \<and> (is_ok r \<longrightarrow> tail = [])))"

lemma pipe_records: "records pipe_ops outbox"
  by (auto simp: records_def pipe_ops_def pipe_read_def pipe_read_exact_def split: if_splits)

lemma recordsD:
  assumes "records ops written"
  shows "stream_read_exact ops n s = Some (r, s') \<Longrightarrow> written s' = written s"
    and "stream_write_all ops out s = Some (r', s') \<Longrightarrow>
      \<exists>part tail. out = part @ tail \<and> written s' = written s @ part \<and> (is_ok r' \<longrightarrow> tail = [])"
  using assms unfolding records_def by blast+

text \<open>Receiving writes nothing.\<close>

lemma fill_exact_writes:
  "records ops written \<Longrightarrow> fill_exact ops n st = Some (r, st') \<Longrightarrow> written (acs_stream st') = written (acs_stream st)"
  by (auto simp: fill_exact_def Let_def split: prod.splits if_splits option.splits sum.splits dest: recordsD(1))

lemma recv_message_writes:
  assumes "records ops written" and "recv_message sn ops st = Some (r, st')"
  shows "written (acs_stream st') = written (acs_stream st)"
  using assms(2) fill_exact_writes [OF assms(1)]
  by (fastforce simp: recv_message_def bind_io_def open_frame_def Let_def
      split: option.splits sum.splits prod.splits if_splits)

section \<open>One sealed message\<close>

definition wire_frame :: "bytes \<Rightarrow> bytes" where
  "wire_frame ct = MSG_TYPE_TRANSPORT # be16_enc (length ct) @ ct"

text \<open>The bytes of one frame, all of them if \<open>whole\<close>, whose body the other end opens to \<open>msg\<close>.\<close>

definition frame_part ::
  "('h, 't, 'e, 'y) Snow_lib_scheme \<Rightarrow> 't ControlConnection \<Rightarrow> bytes \<Rightarrow> bool \<Rightarrow> bytes \<Rightarrow> bool" where
  "frame_part sn d msg whole sent \<longleftrightarrow>
     (\<exists>ct tail d'. length ct < 65536 \<and> receive sn d ct = (Inr msg, d')
        \<and> wire_frame ct = sent @ tail \<and> (whole \<longrightarrow> tail = []))"

lemma frame_part_mono: "frame_part sn d msg whole sent \<Longrightarrow> (whole' \<Longrightarrow> whole) \<Longrightarrow> frame_part sn d msg whole' sent"
  unfolding frame_part_def by blast

lemma send_message_writes:
  fixes r :: "(('i, 'e) WireError, unit) result" and sn :: "('h, 't, 'e, 'y) Snow_lib_scheme"
  assumes "records ops written" and "seals sn" and "session_pair sn R" and "in_step R (acs_conn st) d"
    and "send_message sn ops msg st = Some (r, st')"
  shows "\<exists>sent. written (acs_stream st') = written (acs_stream st) @ sent
    \<and> (frame_part sn d msg (is_ok r) sent \<or> \<not> is_ok r \<and> sent = [])"
proof -
  obtain f conn' where s: "send sn (acs_conn st) msg = (f, conn')"
    by fastforce
  show ?thesis
  proof (cases f)
    case (Inl e)
    with s assms(5) have "st' = st\<lparr> acs_conn := conn' \<rparr>" "\<not> is_ok r"
      by (auto simp: send_message_def)
    then show ?thesis
      by simp
  next
    case (Inr frame)
    obtain ct d' where ct: "frame = wire_frame ct" "length ct < 65536" "receive sn d ct = (Inr msg, d')"
      using send_frame [OF assms(2-4) s [unfolded Inr]] by (metis wire_frame_def)
    obtain w stream' where w: "stream_write_all ops frame (acs_stream st) = Some (w, stream')"
      and st': "acs_stream st' = stream'" and ok: "is_ok r = is_ok w"
      using assms(5) s Inr by (auto simp: send_message_def split: option.splits prod.splits sum.splits)
    obtain part tail where p: "frame = part @ tail" "written stream' = written (acs_stream st) @ part"
      "is_ok w \<longrightarrow> tail = []"
      using recordsD(2) [OF assms(1) w] by blast
    then have "frame_part sn d msg (is_ok r) part"
      using ct ok by (auto simp: frame_part_def)
    with p(2) st' show ?thesis
      by blast
  qed
qed

section \<open>One request\<close>

text \<open>
  A call puts a request on the wire: whatever its result, it has written nothing else than one frame of
  the session or, if it failed, a part of it. The other end opens the frame to the text of the document
  behind its length as a little-endian 32-bit number. A successful call has written it all.
\<close>

definition puts_request ::
  "Json_lib \<Rightarrow> ('h, 't, 'e, 'y) Snow_lib_scheme \<Rightarrow> ('s \<Rightarrow> bytes) \<Rightarrow> 't ControlConnection \<Rightarrow> json
     \<Rightarrow> ('f, 'a, ('s, 't) AsyncControlStream) io \<Rightarrow> ('s, 't) AsyncControlStream \<Rightarrow> bool" where
  "puts_request lib sn written d doc call st \<longleftrightarrow>
     (\<forall>r st'. call st = Some (r, st') \<longrightarrow>
        (\<exists>sent. written (acs_stream st') = written (acs_stream st) @ sent
           \<and> (\<not> is_ok r \<and> sent = []
              \<or> (\<exists>text. to_vec lib doc = Inr text \<and> length text < 2 ^ 32
                   \<and> frame_part sn d (u32_to_le_bytes (of_nat (length text)) @ text) (is_ok r) sent))))"

text \<open>A step after the request that writes nothing.\<close>

definition writes_nothing :: "('s \<Rightarrow> bytes) \<Rightarrow> ('f, 'a, ('s, 't) AsyncControlStream) io \<Rightarrow> bool" where
  "writes_nothing written m \<longleftrightarrow> (\<forall>s r s'. m s = Some (r, s') \<longrightarrow> written (acs_stream s') = written (acs_stream s))"

lemma writes_nothing_intros:
  "writes_nothing written (lift_io r)"
  "writes_nothing written (return_io x)"
  "writes_nothing written m \<Longrightarrow> writes_nothing written (map_err_io g m)"
  "writes_nothing written m \<Longrightarrow> (\<And>x. writes_nothing written (f x)) \<Longrightarrow> writes_nothing written (bind_io m f)"
  "records ops written \<Longrightarrow> writes_nothing written (recv_message sn ops)"
proof -
  show "writes_nothing written (bind_io m f)" if "writes_nothing written m" "\<And>x. writes_nothing written (f x)"
    using that unfolding writes_nothing_def bind_io_def by (fastforce split: option.splits sum.splits)
qed (auto simp: writes_nothing_def map_err_io_def dest: recv_message_writes)

lemma bind_return_io: "bind_io m return_io = m"
  by (auto simp: fun_eq_iff bind_io_def split: option.split sum.split)

lemma bind_io_writes_nothing:
  assumes "bind_io m f st = Some (r, st')" and "\<And>x. writes_nothing written (f x)"
  obtains r1 st1 where "m st = Some (r1, st1)" "written (acs_stream st') = written (acs_stream st1)" "is_ok r \<longrightarrow> is_ok r1"
  using assms unfolding writes_nothing_def bind_io_def by (fastforce split: option.splits sum.splits)

lemma send_request:
  fixes cont :: "unit \<Rightarrow> (('i, 'e) ControlError, 'a, ('s, 't) AsyncControlStream) io"
    and sn :: "('h, 't, 'e, 'y) Snow_lib_scheme"
  assumes "records ops written" and "seals sn" and "session_pair sn R" and "in_step R (acs_conn st) d"
    and "\<And>u. writes_nothing written (cont u)"
  shows "puts_request lib sn written d doc
    (bind_io (lift_io (map_err Json (to_vec lib doc))) (\<lambda>payload.
     bind_io (lift_io (frame_message payload)) (\<lambda>framed.
     bind_io (map_err_io Wire (send_message sn ops framed)) cont))) st"
  unfolding puts_request_def
proof (intro allI impI)
  fix r st'
  assume call: "bind_io (lift_io (map_err Json (to_vec lib doc))) (\<lambda>payload.
     bind_io (lift_io (frame_message payload)) (\<lambda>framed.
     bind_io (map_err_io Wire (send_message sn ops framed)) cont)) st = Some (r, st')"
  show "\<exists>sent. written (acs_stream st') = written (acs_stream st) @ sent
     \<and> (\<not> is_ok r \<and> sent = []
        \<or> (\<exists>text. to_vec lib doc = Inr text \<and> length text < 2 ^ 32
             \<and> frame_part sn d (u32_to_le_bytes (of_nat (length text)) @ text) (is_ok r) sent))"
  proof (cases "to_vec lib doc")
    case (Inl e)
    with call show ?thesis
      by auto
  next
    case (Inr body)
    show ?thesis
    proof (cases "length body < 2 ^ 32")
      case False
      then have "frame_message body = (Inl (PayloadTooLarge (length body)) :: (('i, 'e) ControlError, bytes) result)"
        by (simp add: frame_message_def frame_len_def u32_try_from_def)
      with call Inr show ?thesis
        by auto
    next
      case True
      let ?msg = "u32_to_le_bytes (of_nat (length body)) @ body"
      have f: "frame_message body = (Inr ?msg :: (('i, 'e) ControlError, bytes) result)"
        using True by (simp add: frame_message_def frame_len_def u32_try_from_def)
      have "bind_io (map_err_io Wire (send_message sn ops ?msg)) cont st = Some (r, st')"
        using call Inr f by simp
      then obtain r1 st1 where w: "map_err_io Wire (send_message sn ops ?msg) st = Some (r1, st1)"
        "written (acs_stream st') = written (acs_stream st1)" "is_ok r \<longrightarrow> is_ok r1"
        using assms(5) by (rule bind_io_writes_nothing)
      obtain r0 where r0: "send_message sn ops ?msg st = Some (r0, st1)" and r1: "r1 = map_err Wire r0"
        using w(1) by (auto simp: map_err_io_def)
      have "is_ok r1 = is_ok r0"
        by (cases r0) (simp_all add: r1)
      with send_message_writes [OF assms(1-4) r0] w(2,3) Inr True show ?thesis
        by (auto intro: frame_part_mono)
    qed
  qed
qed

lemma exchange_puts_request:
  assumes "records ops written" and "seals sn" and "session_pair sn R" and "in_step R (acs_conn st) d"
  shows "puts_request lib sn written d doc
    (exchange_registration ctl sn ops (map_err Json (to_vec lib doc))
      :: (('i, 'e) ControlError, RegisterOutcome, ('s, 't) AsyncControlStream) io) st"
  unfolding exchange_registration_def
  by (rule send_request [OF assms]) (intro writes_nothing_intros assms(1))

section \<open>Properties\<close>

text \<open>
  Claim C17. What a client puts on the wire. Registering, polling and starting the map stream each write
  one frame of the session and nothing else, a part of it or nothing when they fail; the server's end opens
  it to one JSON document behind its length. The document of a registration has the capability
  version, the client's node key, an empty old key, the pre-auth key if and only if one was given, and the
  host information; a poll sends the same without a pre-auth key and with the follow-up address; the
  map request asks for a stream of compressed updates with peers and gives the node key and the disco
  key.
\<close>

theorem requests_on_the_wire:
  fixes sn :: "('h, 't, 'e, 'y) Snow_lib_scheme" and st :: "('s, 't) AsyncControlStream"
    and ops :: "('s, 'i, 'x) Stream_ops_scheme"
  assumes "records ops written" and "seals sn" and "session_pair sn R" and "in_step R (acs_conn st) d"
  shows "puts_request lib sn written d (JObject (
       [(''Version'', JNumber (PosInt 71)), (''NodeKey'', JString (node_key_hex ctl c)),
        (''OldNodeKey'', JString [])]
       @ (case key of None \<Rightarrow> [] | Some k \<Rightarrow> [(''Auth'', JObject [(''AuthKey'', JString k)])])
       @ [(''Hostinfo'', Hostinfo_ser (hostinfo ctl))]))
      (register (with_serde lib ctl) sn ops c key) st
    \<and> puts_request lib sn written d (JObject
       [(''Version'', JNumber (PosInt 71)), (''NodeKey'', JString (node_key_hex ctl c)),
        (''OldNodeKey'', JString []), (''Hostinfo'', Hostinfo_ser (hostinfo ctl)), (''Followup'', JString url)])
      (poll_registration (with_serde lib ctl) sn ops c url) st
    \<and> puts_request lib sn written d (JObject
       [(''Version'', JNumber (PosInt 71)), (''Compress'', JString ''zstd''),
        (''NodeKey'', JString (node_key_hex ctl c)),
        (''DiscoKey'', JString (DiscoPublic_to_hex (DiscoPrivate_public_key (x25519_base ctl) (client_disco_key c)))),
        (''Endpoints'', JArray []), (''Stream'', JBool True), (''OmitPeers'', JBool False),
        (''Hostinfo'', Hostinfo_ser (hostinfo ctl))])
      (start_map_stream (with_serde lib ctl) sn ops c) st"
proof -
  note exchange = exchange_puts_request [OF assms]
  note send = send_request [OF assms, where cont = return_io, OF writes_nothing_intros(2), unfolded bind_return_io]
  show ?thesis
    by (intro conjI)
      (use exchange send in \<open>cases key; simp add: register_def build_register_request_def poll_registration_def
        start_map_stream_def build_map_request_def RegisterRequest_ser_def MapRequest_ser_def AuthInfo_ser_def
        AuthInfo_new_def ser_u64_def ser_vec_def CAPABILITY_VERSION_def emit_simps\<close>)+
qed

definition sample_request_end :: "nat endpoint" where
  "sample_request_end = \<lparr> acs_stream = \<lparr> inbox = [], outbox = [] \<rparr>,
     acs_conn = \<lparr> conn_noise = NoiseTransport_from_snow 0 \<rparr>, acs_pending = [] \<rparr>"

theorem requests_on_the_wire_witness:
  "\<exists>st'. start_map_stream (with_serde (sample_lib JNull) sample_ctl) mock_snow pipe_ops sample_client sample_request_end
        = Some (Inr () :: ((unit, unit) ControlError, unit) result, st')
      \<and> (\<exists>ct d'. outbox (acs_stream st') = 0x04 # be16_enc (length ct) @ ct
           \<and> receive mock_snow (acs_conn sample_request_end) ct = (Inr [1, 0, 0, 0, 0], d'))"
proof -
  let ?call = "start_map_stream (with_serde (sample_lib JNull) sample_ctl) mock_snow pipe_ops sample_client
    :: ((unit, unit) ControlError, unit, nat endpoint) io"
  have f: "frame_message [0] = (Inr [1, 0, 0, 0, 0] :: ((unit, unit) ControlError, bytes) result)"
    by (simp add: frame_message_def frame_len_def u32_try_from_def u32_to_le_bytes_def)
  have b: "build_map_request (with_serde (sample_lib JNull) sample_ctl) sample_client
      = (Inr [0] :: ((unit, unit) ControlError, bytes) result)"
    by (simp add: build_map_request_def sample_lib_def)
  have m: "\<exists>a. send_message mock_snow pipe_ops [1, 0, 0, 0, 0] sample_request_end
      = Some (Inr () :: ((unit, unit) WireError, unit) result, a)"
    by (simp add: send_message_def send_def encrypt_def mock_snow_def sample_request_end_def pipe_ops_def
        NoiseTransport_from_snow_def NoiseConfig_default_def config_constants TAG_LEN_def u16_try_from_def)
  have "\<exists>st'. ?call sample_request_end = Some (Inr (), st')"
    using m by (auto simp: start_map_stream_def b f map_err_io_def)
  then obtain st' where st': "?call sample_request_end = Some (Inr (), st')"
    by blast
  have o: "outbox (acs_stream sample_request_end) = []"
    by (simp add: sample_request_end_def)
  have c: "in_step (=) (acs_conn sample_request_end) (acs_conn sample_request_end)"
    by (simp add: in_step_def)
  note wire = requests_on_the_wire [OF pipe_records mock_seals mock_session_pair c,
      where lib = "sample_lib JNull" and ctl = sample_ctl and c = sample_client, THEN conjunct2, THEN conjunct2]
  have "\<exists>ct d'. outbox (acs_stream st') = wire_frame ct
      \<and> receive mock_snow (acs_conn sample_request_end) ct = (Inr [1, 0, 0, 0, 0], d')"
    using wire [unfolded puts_request_def, rule_format, OF st'] o
    by (auto simp: frame_part_def sample_lib_def u32_to_le_bytes_def) metis
  with st' show ?thesis
    by (simp add: wire_frame_def MSG_TYPE_TRANSPORT_def)
qed

end
