(* ===== verification/Spec2Isabelle.thy ===== *)
theory Spec2Isabelle
  imports Transport_Tests Config_Serde Netmap_Log Error_Display Message_Limits Key_Trust Redelivery Request_Wire
begin

text \<open>
  A verification library for the client of a Tailscale-style control plane: the crates
  \<^verbatim>\<open>mitos\<close> (protocol data, keys, configuration) and \<^verbatim>\<open>dictyon\<close> (Noise transport, TLS wire
  layer, control client) under \<^verbatim>\<open>src/crates/\<close>.

  \<^bold>\<open>The program.\<close> A caller fetches the server's key over TLS, connects, upgrades the
  connection to a Noise IK session inside an HTTP upgrade, registers its node, and then reads a
  stream of map responses from which the client keeps a local network map. Control messages are
  framed by a four-byte little-endian length, sealed into Noise frames of at most 65535 bytes
  with a three-byte header, and written to the TLS stream. The server is not trusted to send well
  formed data: keys, addresses and endpoints are checked before they enter the network map, the
  map is bounded, header and response sizes are limited, and connecting is under a deadline.

  \<^bold>\<open>Theories, in the order of their imports.\<close>
  \<^item> \<open>Hamma_Prelude\<close>: machine integers, byte strings, results and the \<^verbatim>\<open>?\<close> operator, slices,
    fixed-width encodings, and the locale \<open>length_prefix\<close> of a length-prefixed frame, interpreted
    on the two-byte big-endian and the four-byte little-endian headers.
  \<^item> \<open>Rust_Str\<close>, \<open>Rust_Net\<close>: what the code uses of Rust's standard library on strings and of the
    parsers of \<^verbatim>\<open>std::net\<close>, with their specifications and round trips.
  \<^item> \<open>Capability\<close> (\<^verbatim>\<open>mitos/src/capability.rs\<close>): the version constant and its renderings, which
    denote one number.
  \<^item> \<open>Keys\<close> (\<^verbatim>\<open>mitos/src/keys.rs\<close>): private keys from generation to drop, and prefixed hex keys; the locale \<open>prefixed_key\<close> is the contract
    of the macro \<^verbatim>\<open>key_pair!\<close>, interpreted on the three public key types: round trip, accepted
    language, canonical form, error precedence.
  \<^item> \<open>Config\<close> (\<^verbatim>\<open>mitos/src/config/mod.rs\<close>): tuning knobs at 64 bits; validation reports the first
    field out of its documented range, and conversion accepts exactly what validation accepts.
  \<^item> \<open>Serde_Json\<close>: JSON documents and what the derived \<^verbatim>\<open>serde\<close> implementations do with them: the
    pass over the entries of an object or the elements of an array, required, optional and defaulted
    fields, skipped fields; when a pass succeeds and what it collects; the locales \<open>decoder\<close> (what is
    accepted satisfies an invariant) and \<open>codec\<close> (what is written is read back), which lift to
    vectors, options and fields.
  \<^item> \<open>Config_Serde\<close> (\<^verbatim>\<open>mitos/src/config/mod.rs\<close>): storing and loading the configuration; the three
    structs interpret \<open>codec\<close> with their documented ranges as the invariant.
  \<^item> \<open>Types\<close>, \<open>Serde_Types\<close> (\<^verbatim>\<open>mitos/src/types/mod.rs\<close>): the protocol's structs as records, and
    their serializers and deserializers; the message types interpret \<open>decoder\<close> or \<open>codec\<close>, with
    64-bit identifiers and opaque values other than null as the invariant of what is read, and what is
    read back of every value the Rust types hold; debug output shows no secret.
  \<^item> \<open>Validate\<close> (\<^verbatim>\<open>dictyon/src/control/validate.rs\<close>): the checks on keys, networks and endpoints.
  \<^item> \<open>Register\<close> (\<^verbatim>\<open>control/register.rs\<close>): the classification of registration responses, each
    outcome characterised by the four fields.
  \<^item> \<open>Tracing\<close>: log lines, computations that return the lines they wrote, and the contract of a step
    that reports what it discards, which sequencing preserves.
  \<^item> \<open>Netmap\<close> (\<^verbatim>\<open>control/netmap.rs\<close>): the network map and its merging, one definition per block of
    \<^verbatim>\<open>apply_delta\<close>; the invariant \<open>netmap_ok\<close> with one preservation lemma per block; the locale
    \<open>bounded_store\<close> as the abstract contract of the peer list, interpreted on \<open>change_peer\<close>; the
    equivalence of the removal index with a scan; the closed form of a peer patch; what the peers
    depend on.
  \<^item> \<open>Noise\<close> (\<^verbatim>\<open>dictyon/src/noise/mod.rs\<close>): the initiator's state machine as operations and as a
    step relation over calls, and the framing of handshake and transport messages.
  \<^item> \<open>Transport\<close> (\<^verbatim>\<open>dictyon/src/transport.rs\<close>): the connection without I/O.
  \<^item> \<open>Async_IO\<close>: computations that may pend forever, the byte stream as a parameter, and the locale
    \<open>byte_source\<close> (with \<open>ready_source\<close> on top) of an operation that fills a buffer.
  \<^item> \<open>Wire_Support\<close>, \<open>Wire\<close> (\<^verbatim>\<open>dictyon/src/wire/support.rs\<close>, \<^verbatim>\<open>wire/mod.rs\<close>): URL, upgrade and
    key requests, the bounded read loops with the result of the header reader on every content and chunking,
    the pending bytes, sending and receiving, connecting. The
    locales \<open>reliable_stream\<close> and \<open>prompt_stream\<close> state the stream's behaviour; \<open>fill_from\<close> and
    \<open>fill_exact\<close> are shown to be byte sources under them.
  \<^item> \<open>Key_Trust\<close> (\<^verbatim>\<open>wire/mod.rs\<close>, \<^verbatim>\<open>wire/support.rs\<close>): which key a connection trusts, from the bytes of
    the key response to the handshake; on any stream that delivers in order, stalling and failing included;
    and the result of a key fetch on a stream that keeps delivering.
  \<^item> \<open>Duplex\<close> (\<^verbatim>\<open>wire/mod.rs\<close>): two ends of one session with a network between them, as a step relation
    over sends, receives and deliveries in any interleaving, with histories; the invariant that each
    side has received a prefix of what the other sent.
  \<^item> \<open>Control\<close> (\<^verbatim>\<open>dictyon/src/control/mod.rs\<close>, \<^verbatim>\<open>error.rs\<close>): the control client, its framing, and
    its life as an inductive relation over calls with any outcome.
  \<^item> \<open>Redelivery\<close> (\<^verbatim>\<open>control/netmap.rs\<close>): the loops over changed and patched peers as single passes over
    the peer list, and from that when a map response that comes again changes nothing.
  \<^item> \<open>Control_Json\<close>: the control client composed with the message encodings: the rejection of undecodable
    updates and what an authorizing document holds.
  \<^item> \<open>Request_Wire\<close>: what registering, polling and starting the map stream write to the stream, down to the
    JSON document that the server's end opens.
  \<^item> \<open>Connect_Example\<close> (\<^verbatim>\<open>dictyon/examples/connect.rs\<close>): the example client with its log, its map
    loop as a run of the control client, its termination, and its placeholder handshake.
  \<^item> \<open>Netmap_Log\<close> (\<^verbatim>\<open>control/netmap.rs\<close>): the operations of \<open>Netmap\<close> with their warnings and counters;
    they compute the same map, count exactly, and write a bounded number of lines that hold numbers
    only. A quiet update is the merge of the whole response without checks, less the values that the
    code ignores by design and with no line, which \<open>without_ignored\<close> names.
  \<^item> \<open>Error_Display\<close>: the texts of the errors of all modules, and the bound on what an error about a
    key repeats of its input.
  \<^item> \<open>Message_Limits\<close>: how large a control message can be, from the frame's length field.
  \<^item> \<open>Key_Tests\<close>, \<open>Control_Tests\<close>, \<open>Transport_Tests\<close>: the inline unit tests of \<^verbatim>\<open>keys.rs\<close>, \<^verbatim>\<open>capability.rs\<close>,
    \<^verbatim>\<open>register.rs\<close>, \<^verbatim>\<open>validate.rs\<close> and \<^verbatim>\<open>transport.rs\<close>, as predicates on the model, which passes
    them, a test on random keys for every random source; the test that two random keys differ, the
    property tests and the test files beside the modules are left out.
  \<^item> this theory: a session from the first byte the server sends to the client's network map.

  \<^bold>\<open>State and effects.\<close> A struct is a record, an enum a datatype, a \<^verbatim>\<open>Result\<close> a sum with the
  error on the left. A method that mutates its receiver returns the new receiver, also on its error
  branches. An asynchronous computation over an object returns an option: the value \<open>None\<close> is a
  future that never completes.

  \<^bold>\<open>Parameters.\<close> Code outside the repository is an argument: the \<^verbatim>\<open>snow\<close> library
  (\<open>Snow_lib\<close>, relied on through \<open>seals\<close>, \<open>opens\<close>, \<open>session_pair\<close> and, for both directions at once,
  \<open>duplex\<close>, and \<open>Snow_builder\<close>, through
  \<open>ik_pair\<close> and, in the unit tests, \<open>completes_handshakes\<close>),
  the TLS stream (\<open>Stream_ops\<close>, through \<open>reliable\<close>, \<open>prompt\<close> and \<open>completes\<close>, and for what is written
  \<open>records\<close>), the network, timer,
  base64 and JSON values (\<open>Net_ops\<close>, through \<open>timer_fires\<close>), zstd, host name and Curve25519
  (\<open>Ctl_ops\<close>, with no hypothesis), the reading and writing of JSON text (\<open>Json_lib\<close>, with no
  hypothesis) and the random source (\<open>Key_rand\<close>, whose keys have 32 bytes in the unit tests). Each theory holds an instance
  on which the hypotheses hold, used by the witnesses. The message encodings are fields of
  \<open>Ctl_ops\<close> in \<open>Control\<close> and are filled in by \<open>with_serde\<close> in \<open>Control_Json\<close>.

  \<^bold>\<open>Termination.\<close> The header loop is a total function: each round adds a byte to a buffer of
  bounded length. The key-response loop and the example's map loop are partial functions over
  options. The first is proved to return under a validated limit and a stream that delivers; the
  second never returns success, and is proved to return on every finite stream that completes its
  operations, because each accepted update takes at least three bytes. No fuel is used.

  \<^bold>\<open>What is not modelled.\<close> The debug log lines of the connection layers, which show progress and
  decide nothing (the warnings of the network map, the line of a registration outcome and the output
  of the example are modelled); the zeroing of the pre-auth key; the positions in JSON error texts, and
  JSON syntax itself; the certificate roots; the telemetry setup of the example; the
  cancellation of a call under way (a receive dropped between the header and the body of a frame); the
  integration tests and the test files beside the modules, build scripts and documentation. A document is read into its tree before it is decoded, so where a
  text has both a syntax error and a data error the model reports the former.
\<close>

section \<open>The map stream, end to end\<close>

text \<open>\<open>n\<close> calls of \<^verbatim>\<open>recv_map_update\<close>.\<close>

fun recv_updates ::
  "Ctl_ops \<Rightarrow> ('h, 'u, 'e, 'y) Snow_lib_scheme \<Rightarrow> ('s, 'i, 'x) Stream_ops_scheme \<Rightarrow> nat
     \<Rightarrow> (('i, 'e) ControlError, unit, 't ControlClient \<times> ('s, 'u) AsyncControlStream) io" where
  "recv_updates ctl sn ops 0 = return_io ()"
| "recv_updates ctl sn ops (Suc n) =
     bind_io (recv_map_update ctl sn ops) (\<lambda>_. recv_updates ctl sn ops n)"

text \<open>A payload, its control frame, and the response it decodes to.\<close>

definition map_message :: "Ctl_ops \<Rightarrow> bytes \<Rightarrow> MapResponse \<Rightarrow> bool" where
  "map_message ctl framed resp \<longleftrightarrow>
     (\<exists>payload. frame_message payload = (Inr framed :: ((unit, unit) ControlError, bytes) result)
        \<and> bind_r (decode_map_payload ctl payload) (\<lambda>p. map_err Json (de_map ctl p))
          = (Inr resp :: ((unit, unit) ControlError, MapResponse) result))"

lemma frame_message_any_error:
  "frame_message payload = (Inr framed :: ((unit, unit) ControlError, bytes) result) \<Longrightarrow>
   frame_message payload = (Inr framed :: (('i, 'e) ControlError, bytes) result)"
  by (auto simp: frame_message_def frame_len_def bind_r_Inr_iff ok_or_Inr_iff)

lemma decode_any_error:
  "bind_r (decode_map_payload ctl payload) (\<lambda>p. map_err Json (de_map ctl p))
     = (Inr resp :: ((unit, unit) ControlError, MapResponse) result) \<Longrightarrow>
   bind_r (decode_map_payload ctl payload) (\<lambda>p. map_err Json (de_map ctl p))
     = (Inr resp :: (('i, 'e) ControlError, MapResponse) result)"
  by (auto simp: decode_map_payload_def bind_r_Inr_iff map_err_Inr_iff split: if_splits)

lemma parse_map_message:
  assumes "map_message ctl framed resp"
  shows "parse_map_response ctl framed = (Inr resp :: (('i, 'e) ControlError, MapResponse) result)"
proof -
  obtain payload where p: "frame_message payload = (Inr framed :: (('i, 'e) ControlError, bytes) result)"
    and d: "bind_r (decode_map_payload ctl payload) (\<lambda>p. map_err Json (de_map ctl p))
      = (Inr resp :: (('i, 'e) ControlError, MapResponse) result)"
    using assms frame_message_any_error decode_any_error unfolding map_message_def by blast
  have "parse_map_response ctl (framed @ [])
      = (bind_r (decode_map_payload ctl payload) (\<lambda>p. map_err Json (de_map ctl p))
          :: (('i, 'e) ControlError, MapResponse) result)"
    by (rule parse_map_response_frame [OF p])
  with d show ?thesis
    by simp
qed

context prompt_stream
begin

lemma recv_updates_sealed:
  assumes "seals sn" and "session_pair sn R" and "in_step R c (acs_conn a)"
    and "list_all2 (map_message ctl) framed resps"
    and "seal_all sn c framed = Some (frames, c')"
    and "acs_avail content a = concat frames @ rest"
  shows "\<exists>a'. recv_updates ctl sn ops (length framed) (client, a)
      = Some (Inr () :: (('i, 'e) ControlError, unit) result, (fold apply_map_response resps client, a'))
    \<and> acs_avail content a' = rest \<and> in_step R c' (acs_conn a')"
  using assms(3-6)
proof (induction framed arbitrary: c a frames resps client)
  case Nil
  then show ?case
    by simp
next
  case (Cons m ms)
  obtain resp resps' where resps: "resps = resp # resps'" "map_message ctl m resp"
    "list_all2 (map_message ctl) ms resps'"
    using Cons.prems(2) by (auto simp: list_all2_Cons1)
  obtain f c1 where s: "send sn c m = (Inr f, c1)"
    using Cons.prems(3) by (auto split: prod.splits sum.splits)
  then obtain fs where fs: "seal_all sn c1 ms = Some (fs, c')" "frames = f # fs"
    using Cons.prems(3) by auto
  obtain ct d' where f: "f = MSG_TYPE_TRANSPORT # be16_enc (length ct) @ ct" "length ct < 65536"
    and r: "receive sn (acs_conn a) ct = (Inr m, d')" and d': "in_step R c1 d'"
    using send_frame [OF assms(1,2) Cons.prems(1) s] by blast
  have "acs_avail content a = MSG_TYPE_TRANSPORT # be16_enc (length ct) @ ct @ concat fs @ rest"
    using Cons.prems(4) by (simp add: fs f)
  from recv_message_frame [OF this f(2) r] obtain a1 where
    a1: "recv_message sn ops a = Some (Inr m :: (('i, 'e) WireError, bytes) result, a1)"
      "acs_avail content a1 = concat fs @ rest" "acs_conn a1 = d'"
    by blast
  have p: "parse_map_response ctl m = (Inr resp :: (('i, 'e) ControlError, MapResponse) result)"
    by (rule parse_map_message [OF resps(2)])
  have u: "recv_map_update ctl sn ops (client, a)
    = Some (Inr (keep_alive resp = Some True) :: (('i, 'e) ControlError, bool) result,
        (apply_map_response resp client, a1))"
    using a1(1) p by (simp add: recv_map_update_def map_err_io_Inr)
  obtain a2 where "recv_updates ctl sn ops (length ms) (apply_map_response resp client, a1)
      = Some (Inr () :: (('i, 'e) ControlError, unit) result,
          (fold apply_map_response resps' (apply_map_response resp client), a2))"
    "acs_avail content a2 = rest" "in_step R c' (acs_conn a2)"
    using Cons.IH [OF _ resps(3) fs(1) a1(2)] d' a1(3) by blast
  with u resps(1) show ?case
    by simp
qed

end

text \<open>Once connected, what the server sent after its response frame is what is left to receive.\<close>

lemma connect_leaves:
  fixes a :: "('s, 'u) AsyncControlStream" and sn :: "('h, 'u, 'e, 'y) Snow_lib_scheme"
  assumes "reliable (net_stream net) content"
    and "connect_with_key_and_tls sn net k config server_key tls = Some (Inr a)"
    and "open_tls net k tls (control_url config)
      = (Some (Inr (host, s)) :: (('i, 'e) WireError, string \<times> 's) result option)"
    and "content s = hdr @ header_sep @ (t # be16_enc (length msg) @ msg) @ later"
    and "position_window header_sep (content s) = Some (length hdr)" and "length msg < 65536"
  shows "acs_avail content a = later"
proof -
  obtain host' s' hdr' t' msg' where
    o: "open_tls net k tls (control_url config)
      = (Some (Inr (host', s')) :: (('i, 'e) WireError, string \<times> 's) result option)"
    and c: "content s' = hdr' @ header_sep @ (t' # be16_enc (length msg') @ msg') @ acs_avail content a"
    and l: "length msg' < 65536" and p: "position_window header_sep (content s') = Some (length hdr')"
    using connect_takes [OF assms(1,2)] by blast
  have "s' = s"
    using o assms(3) by simp
  moreover from this have "length hdr' = length hdr"
    using p assms(5) by simp
  ultimately have "be16_enc (length msg') @ msg' @ acs_avail content a = be16_enc (length msg) @ msg @ later"
    using c assms(4) by simp
  from be16.frame_unique [OF l assms(6) this] show ?thesis
    by simp
qed

text \<open>The sample response, framed and sealed.\<close>

lemma sample_messages: "list_all2 (map_message sample_ctl) [[1, 0, 0, 0, 0x7b]] [sample_response]"
proof -
  have "map_message sample_ctl [1, 0, 0, 0, 0x7b] sample_response"
    unfolding map_message_def
    by (intro exI [of _ "[0x7b]"])
       (simp add: frame_message_def frame_len_def u32_try_from_def u32_to_le_bytes_def
         decode_map_payload_def is_zstd_frame_def get_to_def sample_ctl_def)
  then show ?thesis
    by simp
qed

lemma sample_sealed:
  "seal_all mock_snow \<lparr> conn_noise = NoiseTransport_from_snow 0 \<rparr> [[1, 0, 0, 0, 0x7b]]
    = Some ([0x04 # 0x00 # sample_tail], \<lparr> conn_noise = NoiseTransport_from_snow 1 \<rparr>)"
  by (simp add: send_def encrypt_def mock_snow_def NoiseTransport_from_snow_def sample_tail_def
      NoiseConfig_default_def config_constants TAG_LEN_def u16_try_from_def u16_to_be_bytes_def
      MSG_TYPE_TRANSPORT_def)

section \<open>Properties\<close>

text \<open>
  The map stream from end to end: when the server frames and seals a list of map
  responses and the client's stream delivers those bytes, in whatever chunks, then as many calls
  of \<^verbatim>\<open>recv_map_update\<close> succeed, the client has applied exactly those responses in order, and
  exactly the bytes after them are left.
\<close>

lemma map_stream_end_to_end:
  assumes "reliable ops content" and "prompt ops content"
    and "seals sn" and "session_pair sn R" and "in_step R c (acs_conn a)"
    and "list_all2 (map_message ctl) framed resps"
    and "seal_all sn c framed = Some (frames, c')"
    and "acs_avail content a = concat frames @ rest"
  shows "\<exists>a'. recv_updates ctl sn ops (length framed) (client, a)
      = Some (Inr () :: (('i, 'e) ControlError, unit) result, (fold apply_map_response resps client, a'))
    \<and> acs_avail content a' = rest"
proof -
  have "prompt_stream ops content"
    using assms(1,2) by unfold_locales
  from prompt_stream.recv_updates_sealed [OF this assms(3-8)] show ?thesis
    by blast
qed

lemma map_stream_end_to_end_witness:
  "\<exists>a'. recv_updates sample_ctl mock_snow script_ops 1 (sample_client, sample_map_stream)
      = Some (Inr () :: ((unit, unit) ControlError, unit) result,
          (fold apply_map_response [sample_response] sample_client, a'))
    \<and> acs_avail concat a' = []"
proof -
  have c: "in_step (=) \<lparr> conn_noise = NoiseTransport_from_snow 0 \<rparr> (acs_conn sample_map_stream)"
    and r: "acs_avail concat sample_map_stream
      = concat [0x04 # 0x00 # sample_tail] @ []"
    by (simp_all add: in_step_def sample_map_stream_def acs_avail_def sample_tail_def)
  have "\<exists>a'. recv_updates sample_ctl mock_snow script_ops (length [[1, 0, 0, 0, 0x7b :: u8]])
      (sample_client, sample_map_stream)
      = Some (Inr () :: ((unit, unit) ControlError, unit) result,
          (fold apply_map_response [sample_response] sample_client, a'))
    \<and> acs_avail concat a' = []"
    by (rule map_stream_end_to_end [OF script_reliable script_prompt mock_seals mock_session_pair c sample_messages
          sample_sealed r])
  then show ?thesis
    by simp
qed

text \<open>
  Claim C40. Registration from end to end: once the framed request has been written, an answer
  the server seals next is received whatever the chunking, and the call returns the classification
  of the response the answer decodes to, leaving exactly the bytes that follow. The answer is
  decoded as it stands, with no control frame around it.
\<close>

theorem registration_end_to_end:
  assumes "reliable ops content" and "prompt ops content"
    and "seals sn" and "session_pair sn R"
    and "build_register_request ctl client key = (Inr payload :: (('i, 'e) ControlError, bytes) result)"
    and "frame_message payload = (Inr framed :: (('i, 'e) ControlError, bytes) result)"
    and "send_message sn ops framed a = Some (Inr () :: (('i, 'e) WireError, unit) result, a1)"
    and "in_step R c (acs_conn a1)" and "send sn c answer = (Inr frame, c')"
    and "acs_avail content a1 = frame @ rest"
    and "de_register ctl answer = Inr resp"
  shows "\<exists>a'. register ctl sn ops client key a
      = Some (Inr (classify_register_response resp) :: (('i, 'e) ControlError, RegisterOutcome) result, a')
    \<and> acs_avail content a' = rest \<and> in_step R c' (acs_conn a')"
proof -
  have ps: "prompt_stream ops content"
    using assms(1,2) by unfold_locales
  obtain ct d' where f: "frame = MSG_TYPE_TRANSPORT # be16_enc (length ct) @ ct" "length ct < 65536"
    and r: "receive sn (acs_conn a1) ct = (Inr answer, d')" and d': "in_step R c' d'"
    using send_frame [OF assms(3,4,8,9)] by blast
  have "acs_avail content a1 = MSG_TYPE_TRANSPORT # be16_enc (length ct) @ ct @ rest"
    using assms(10) by (simp add: f)
  from prompt_stream.recv_message_frame [OF ps this f(2) r] obtain a2 where
    a2: "recv_message sn ops a1 = Some (Inr answer :: (('i, 'e) WireError, bytes) result, a2)"
      "acs_avail content a2 = rest" "acs_conn a2 = d'"
    by blast
  have "register ctl sn ops client key a
      = Some (Inr (classify_register_response resp) :: (('i, 'e) ControlError, RegisterOutcome) result, a2)"
    using assms(5-7,11) a2(1)
    by (simp add: register_def exchange_registration_def bind_io_def map_err_io_def
        parse_register_response_def)
  with a2(2,3) d' show ?thesis
    by blast
qed

definition sample_register_response :: RegisterResponse where
  "sample_register_response =
     \<lparr> auth_url = None, machine_authorized = True, node_key_expired = False, reg_error = None \<rparr>"

definition sample_register_ctl :: Ctl_ops where
  "sample_register_ctl = sample_ctl\<lparr> de_register := (\<lambda>_. Inr sample_register_response) \<rparr>"

text \<open>The answer, one byte sealed with the second counter, split over the pending bytes and a chunk.\<close>

definition sample_register_stream :: "nat \<Rightarrow> (bytes list, nat) AsyncControlStream" where
  "sample_register_stream n =
     \<lparr> acs_stream = [[0x11, 0x7b] @ replicate 16 1],
       acs_conn = \<lparr> conn_noise = NoiseTransport_from_snow n \<rparr>, acs_pending = [0x04, 0x00] \<rparr>"

theorem registration_end_to_end_witness:
  "\<exists>a'. register sample_register_ctl mock_snow script_ops sample_client None (sample_register_stream 0)
      = Some (Inr (Authorized sample_register_response)
          :: ((unit, unit) ControlError, RegisterOutcome) result, a')
    \<and> acs_avail concat a' = []"
proof -
  have b: "build_register_request sample_register_ctl sample_client None
      = (Inr [1] :: ((unit, unit) ControlError, bytes) result)"
    by (simp add: build_register_request_def sample_register_ctl_def sample_ctl_def)
  have f: "frame_message [1] = (Inr [1, 0, 0, 0, 1] :: ((unit, unit) ControlError, bytes) result)"
    by (simp add: frame_message_def frame_len_def u32_try_from_def u32_to_le_bytes_def)
  have w: "send_message mock_snow script_ops [1, 0, 0, 0, 1] (sample_register_stream 0)
      = Some (Inr () :: ((unit, unit) WireError, unit) result, sample_register_stream 1)"
    by (simp add: send_message_def send_def encrypt_def mock_snow_def NoiseTransport_from_snow_def
        NoiseConfig_default_def config_constants TAG_LEN_def u16_try_from_def script_ops_def
        sample_register_stream_def)
  have c: "in_step (=) \<lparr> conn_noise = NoiseTransport_from_snow 1 \<rparr> (acs_conn (sample_register_stream 1))"
    and s: "send mock_snow \<lparr> conn_noise = NoiseTransport_from_snow 1 \<rparr> [0x7b]
      = (Inr ([0x04, 0x00, 0x11, 0x7b] @ replicate 16 1), \<lparr> conn_noise = NoiseTransport_from_snow 2 \<rparr>)"
    and r: "acs_avail concat (sample_register_stream 1) = ([0x04, 0x00, 0x11, 0x7b] @ replicate 16 1) @ []"
    and d: "de_register sample_register_ctl [0x7b] = Inr sample_register_response"
    by (simp_all add: in_step_def sample_register_stream_def acs_avail_def sample_register_ctl_def
        send_def encrypt_def mock_snow_def NoiseTransport_from_snow_def NoiseConfig_default_def
        config_constants TAG_LEN_def u16_try_from_def u16_to_be_bytes_def MSG_TYPE_TRANSPORT_def)
  have "classify_register_response sample_register_response = Authorized sample_register_response"
    by (simp add: classify_register_response_def sample_register_response_def non_empty_def)
  with registration_end_to_end [OF script_reliable script_prompt mock_seals mock_session_pair b f w c s r d]
  show ?thesis
    by auto
qed

text \<open>
  Claim C1. A session from the first byte: on a connection whose server sends a header block, one
  response frame and then the sealed frames of a list of map responses, cut into chunks anywhere,
  also inside the same read as the header, a successful connect followed by as many calls of
  \<^verbatim>\<open>recv_map_update\<close> leaves a new client with exactly the network map those responses describe,
  and exactly the bytes after them unread.
\<close>

theorem session_end_to_end:
  fixes a :: "('s, 'u) AsyncControlStream" and sn :: "('h, 'u, 'e, 'y) Snow_lib_scheme"
  assumes "reliable (net_stream net) content" and "prompt (net_stream net) content"
    and "seals sn" and "session_pair sn R"
    and "open_tls net k tls (control_url config)
      = (Some (Inr (host, s)) :: (('i, 'e) WireError, string \<times> 's) result option)"
    and "connect_with_key_and_tls sn net k config server_key tls = Some (Inr a)"
    and "content s = hdr @ header_sep @ (t # be16_enc (length msg) @ msg) @ concat frames @ rest"
    and "position_window header_sep (content s) = Some (length hdr)" and "length msg < 65536"
    and "in_step R c (acs_conn a)" and "seal_all sn c framed = Some (frames, c')"
    and "list_all2 (map_message ctl) framed resps"
  shows "\<exists>client a'. recv_updates ctl sn (net_stream net) (length framed) (ControlClient_new conn mk nk dk, a)
      = Some (Inr () :: (('i, 'e) ControlError, unit) result, (client, a'))
    \<and> client_netmap client = described_netmap resps \<and> acs_avail content a' = rest"
proof -
  have "prompt_stream (net_stream net) content"
    using assms(1,2) by unfold_locales
  from prompt_stream.recv_updates_sealed [OF this assms(3,4,10,12,11)
      connect_leaves [OF assms(1,6,5,7,8,9)]]
  obtain a' where "recv_updates ctl sn (net_stream net) (length framed) (ControlClient_new conn mk nk dk, a)
      = Some (Inr () :: (('i, 'e) ControlError, unit) result,
          (fold apply_map_response resps (ControlClient_new conn mk nk dk), a'))"
    "acs_avail content a' = rest"
    by blast
  then show ?thesis
    by (simp add: apply_responses_fresh ControlClient_new_def)
qed

theorem session_end_to_end_witness:
  "\<exists>client a'. recv_updates sample_ctl mock_snow script_ops 1 (sample_client, sample_established)
      = Some (Inr () :: ((unit, unit) ControlError, unit) result, (client, a'))
    \<and> client_netmap client = described_netmap [sample_response] \<and> acs_avail concat a' = []"
proof -
  have n: "net_stream sample_net = script_ops"
    by (simp add: sample_net_def)
  have c: "in_step (=) \<lparr> conn_noise = NoiseTransport_from_snow 0 \<rparr> (acs_conn sample_established)"
    by (simp add: in_step_def sample_established_def)
  have b: "concat sample_upgrade = as_bytes ''HTTP/1.1 101 Switching'' @ header_sep
      @ (0x02 # be16_enc (length [0x09 :: u8]) @ [0x09]) @ concat [0x04 # 0x00 # sample_tail] @ []"
    by (simp add: sample_upgrade_def sample_header_def be16_enc_def u16_to_be_bytes_def)
  have w: "position_window header_sep (concat sample_upgrade) = Some (length (as_bytes ''HTTP/1.1 101 Switching''))"
    using position_window_append [OF _ sample_first_read_window, of "sample_tail"]
    by (simp add: sample_upgrade_def sample_first_read_def header_sep_def)
  have u: "(open_tls sample_net 1 () (control_url sample_config)
      :: ((unit, unit) WireError, string \<times> bytes list) result option)
    = Some (Inr (''c.example'', sample_upgrade))"
    using sample_open_tls by (simp add: sample_config_def ControlConfig_new_def)
  have "\<exists>client a'. recv_updates sample_ctl mock_snow (net_stream sample_net) (length [[1, 0, 0, 0, 0x7b :: u8]])
      (sample_client, sample_established)
      = Some (Inr () :: ((unit, unit) ControlError, unit) result, (client, a'))
    \<and> client_netmap client = described_netmap [sample_response] \<and> acs_avail concat a' = []"
    unfolding sample_client_def
    by (rule session_end_to_end [where content = concat, OF _ _ mock_seals mock_session_pair u sample_connects b w _ c sample_sealed
          sample_messages]) (simp_all add: n script_reliable script_prompt)
  then show ?thesis
    by (simp add: n)
qed

end
